(* ===== verification/Natd_Prelude.thy ===== *)
theory Natd_Prelude
  imports Main "HOL-Library.Word" "HOL-Library.Monad_Syntax"
begin

text \<open>
  Shared vocabulary: the machine integers of the Rust code, the packet as a list of bytes
  between \<open>data\<close> and \<open>data_end\<close>, the reads and writes the code makes through raw pointers
  (an access outside the packet is \<open>None\<close>), byte order conversions on a little-endian host,
  and the lemmas about them that every component uses.
\<close>

unbundle bit_operations_syntax

type_synonym u8 = "8 word"
type_synonym u16 = "16 word"
type_synonym u32 = "32 word"
type_synonym u64 = "64 word"
type_synonym bytes = "u8 list"

named_theorems mem_simps \<open>reads and writes of packet memory\<close>
named_theorems bpf_simps \<open>operations of kernel maps\<close>

section \<open>Byte order\<close>

text \<open>
  A native load on the little-endian target puts the first byte in the low bits.
  \<open>from_be\<close> and \<open>to_be\<close> swap the bytes there; \<open>from_be_bytes\<close> reads the first byte as
  the high one.
\<close>

definition le16 :: "u8 \<Rightarrow> u8 \<Rightarrow> u16" where
  "le16 a b = ucast a OR push_bit 8 (ucast b)"

definition be16 :: "u8 \<Rightarrow> u8 \<Rightarrow> u16" where
  "be16 a b = push_bit 8 (ucast a) OR ucast b"

definition le32 :: "u8 \<Rightarrow> u8 \<Rightarrow> u8 \<Rightarrow> u8 \<Rightarrow> u32" where
  "le32 a b c d = ucast a OR push_bit 8 (ucast b) OR push_bit 16 (ucast c) OR push_bit 24 (ucast d)"

definition be32 :: "u8 \<Rightarrow> u8 \<Rightarrow> u8 \<Rightarrow> u8 \<Rightarrow> u32" where
  "be32 a b c d = push_bit 24 (ucast a) OR push_bit 16 (ucast b) OR push_bit 8 (ucast c) OR ucast d"

definition byte_of :: "nat \<Rightarrow> 'a::len word \<Rightarrow> u8" where
  "byte_of i w = ucast (drop_bit (8 * i) w)"

definition bytes_of_u16 :: "u16 \<Rightarrow> bytes" where
  "bytes_of_u16 w = [byte_of 0 w, byte_of 1 w]"

definition bytes_of_u32 :: "u32 \<Rightarrow> bytes" where
  "bytes_of_u32 w = [byte_of 0 w, byte_of 1 w, byte_of 2 w, byte_of 3 w]"

definition swap16 :: "u16 \<Rightarrow> u16" where
  "swap16 w = be16 (byte_of 0 w) (byte_of 1 w)"

definition swap32 :: "u32 \<Rightarrow> u32" where
  "swap32 w = be32 (byte_of 0 w) (byte_of 1 w) (byte_of 2 w) (byte_of 3 w)"

lemma length_bytes_of [simp]:
  "length (bytes_of_u16 w) = 2" "length (bytes_of_u32 x) = 4"
  by (simp_all add: bytes_of_u16_def bytes_of_u32_def)

lemma be16_le16: "be16 a b = le16 b a"
  by (simp add: be16_def le16_def or.commute)

lemma be32_le32: "be32 a b c d = le32 d c b a"
  by (simp add: be32_def le32_def or.commute or.left_commute or.assoc)

lemma bit_u8_beyond: "8 \<le> n \<Longrightarrow> \<not> bit (a :: u8) n"
  using bit_imp_le_length [of a n] by auto

lemma byte_of_le16 [simp]: "byte_of 0 (le16 a b) = a" "byte_of (Suc 0) (le16 a b) = b"
  unfolding byte_of_def le16_def
  by (auto intro!: bit_eqI simp: bit_simps bit_u8_beyond)

lemma byte_of_le32 [simp]:
  "byte_of 0 (le32 a b c d) = a" "byte_of (Suc 0) (le32 a b c d) = b"
  "byte_of 2 (le32 a b c d) = c" "byte_of 3 (le32 a b c d) = d"
  unfolding byte_of_def le32_def
  by (auto intro!: bit_eqI simp: bit_simps bit_u8_beyond)

lemma le16_byte_of [simp]: "le16 (byte_of 0 w) (byte_of (Suc 0) w) = w"
  unfolding byte_of_def le16_def
  by (rule bit_eqI) (auto simp: bit_simps)

lemma le32_byte_of [simp]:
  "le32 (byte_of 0 w) (byte_of (Suc 0) w) (byte_of 2 w) (byte_of 3 w) = w"
proof (rule bit_word_eqI)
  fix n
  assume "n < LENGTH(32)"
  then have "n < 32" by simp
  then consider "n < 8" | "8 \<le> n" "n < 16" | "16 \<le> n" "n < 24" | "24 \<le> n" "n < 32"
    by force
  then show "bit (le32 (byte_of 0 w) (byte_of (Suc 0) w) (byte_of 2 w) (byte_of 3 w)) n = bit w n"
    unfolding byte_of_def le32_def by cases (auto simp: bit_simps)
qed

lemma swap16_le16 [simp]: "swap16 (le16 a b) = be16 a b"
  by (simp add: swap16_def)

lemma swap32_le32 [simp]: "swap32 (le32 a b c d) = be32 a b c d"
  by (simp add: swap32_def)

lemma swap16_swap16 [simp]: "swap16 (swap16 w) = w"
  by (simp add: swap16_def be16_le16)

lemma swap32_swap32 [simp]: "swap32 (swap32 w) = w"
  by (simp add: swap32_def be32_le32)

section \<open>Arithmetic reading of the byte order conversions\<close>

lemma uint_word_less:
  "uint (a :: u8) < 256" "uint (b :: u16) < 65536" "uint (c :: u32) < 4294967296"
  using uint_lt2p [of a] uint_lt2p [of b] uint_lt2p [of c] by simp_all

lemma unat_u8_less: "unat (a :: u8) < 256"
  using unsigned_less [of a] by simp

lemma unat_ucast_u8 [simp]:
  "unat (ucast (a :: u8) :: u16) = unat a" "unat (ucast (a :: u8) :: u32) = unat a"
  using unat_u8_less [of a] by (simp_all add: unsigned_ucast_eq take_bit_eq_mod)

lemma unat_le16: "unat (le16 a b) = unat a + 256 * unat b"
proof -
  have disj: "(ucast a :: u16) AND push_bit 8 (ucast b) = 0"
    by (rule bit_word_eqI) (auto simp: bit_simps bit_u8_beyond)
  have "le16 a b = ucast a + push_bit 8 (ucast b)"
    using disj by (simp add: le16_def disjunctive_add_eq_or)
  also have "\<dots> = ucast a + 256 * ucast b"
    by (simp add: push_bit_eq_mult)
  finally show ?thesis
    using unat_u8_less [of a] unat_u8_less [of b] by (simp add: unat_word_ariths)
qed

lemma unat_le32:
  "unat (le32 a b c d) = unat a + 256 * unat b + 65536 * unat c + 16777216 * unat d"
proof -
  have "(ucast a :: u32) AND push_bit 8 (ucast b) = 0"
    and "((ucast a :: u32) OR push_bit 8 (ucast b)) AND push_bit 16 (ucast c) = 0"
    and "((ucast a :: u32) OR push_bit 8 (ucast b) OR push_bit 16 (ucast c))
      AND push_bit 24 (ucast d) = 0"
    by (rule bit_word_eqI, auto simp: bit_simps bit_u8_beyond)+
  then have "le32 a b c d
      = ucast a + push_bit 8 (ucast b) + push_bit 16 (ucast c) + push_bit 24 (ucast d)"
    by (simp add: le32_def disjunctive_add_eq_or or.assoc)
  also have "\<dots> = ucast a + 256 * ucast b + 65536 * ucast c + 16777216 * ucast d"
    by (simp add: push_bit_eq_mult)
  finally show ?thesis
    using unat_u8_less [of a] unat_u8_less [of b] unat_u8_less [of c] unat_u8_less [of d]
    by (simp add: unat_word_ariths)
qed

section \<open>Packet memory\<close>

text \<open>
  The packet is the byte list from \<open>data\<close> to \<open>data_end\<close>. A read or a write of \<open>n\<close> bytes at an
  offset succeeds exactly when it stays inside.
\<close>

datatype mac = Mac u8 u8 u8 u8 u8 u8

primrec mac_bytes :: "mac \<Rightarrow> bytes" where
  "mac_bytes (Mac a b c d e f) = [a, b, c, d, e, f]"

definition u16_at :: "bytes \<Rightarrow> nat \<Rightarrow> u16" where
  "u16_at p off = le16 (p ! off) (p ! (off + 1))"

definition u32_at :: "bytes \<Rightarrow> nat \<Rightarrow> u32" where
  "u32_at p off = le32 (p ! off) (p ! (off + 1)) (p ! (off + 2)) (p ! (off + 3))"

definition mac_at :: "bytes \<Rightarrow> nat \<Rightarrow> mac" where
  "mac_at p off = Mac (p ! off) (p ! (off + 1)) (p ! (off + 2))
     (p ! (off + 3)) (p ! (off + 4)) (p ! (off + 5))"

definition patch :: "bytes \<Rightarrow> nat \<Rightarrow> bytes \<Rightarrow> bytes" where
  "patch p off bs = take off p @ bs @ drop (off + length bs) p"

definition load_u8 :: "bytes \<Rightarrow> nat \<Rightarrow> u8 option" where
  "load_u8 p off = (if off + 1 \<le> length p then Some (p ! off) else None)"

definition load_u16 :: "bytes \<Rightarrow> nat \<Rightarrow> u16 option" where
  "load_u16 p off = (if off + 2 \<le> length p then Some (u16_at p off) else None)"

definition load_u32 :: "bytes \<Rightarrow> nat \<Rightarrow> u32 option" where
  "load_u32 p off = (if off + 4 \<le> length p then Some (u32_at p off) else None)"

definition load_mac :: "bytes \<Rightarrow> nat \<Rightarrow> mac option" where
  "load_mac p off = (if off + 6 \<le> length p then Some (mac_at p off) else None)"

definition store_bytes :: "bytes \<Rightarrow> nat \<Rightarrow> bytes \<Rightarrow> bytes option" where
  "store_bytes p off bs = (if off + length bs \<le> length p then Some (patch p off bs) else None)"

definition store_u16 :: "bytes \<Rightarrow> nat \<Rightarrow> u16 \<Rightarrow> bytes option" where
  "store_u16 p off w = store_bytes p off (bytes_of_u16 w)"

definition store_u32 :: "bytes \<Rightarrow> nat \<Rightarrow> u32 \<Rightarrow> bytes option" where
  "store_u32 p off w = store_bytes p off (bytes_of_u32 w)"

definition store_mac :: "bytes \<Rightarrow> nat \<Rightarrow> mac \<Rightarrow> bytes option" where
  "store_mac p off m = store_bytes p off (mac_bytes m)"

lemma length_mac_bytes [simp]: "length (mac_bytes m) = 6"
  by (cases m) simp

lemma load_in_bounds [mem_simps]:
  "off + 1 \<le> length p \<Longrightarrow> load_u8 p off = Some (p ! off)"
  "off + 2 \<le> length p \<Longrightarrow> load_u16 p off = Some (u16_at p off)"
  "off + 4 \<le> length p \<Longrightarrow> load_u32 p off = Some (u32_at p off)"
  "off + 6 \<le> length p \<Longrightarrow> load_mac p off = Some (mac_at p off)"
  by (simp_all add: load_u8_def load_u16_def load_u32_def load_mac_def)

lemma store_in_bounds [mem_simps]:
  "off + 2 \<le> length p \<Longrightarrow> store_u16 p off w = Some (patch p off (bytes_of_u16 w))"
  "off + 4 \<le> length p \<Longrightarrow> store_u32 p off x = Some (patch p off (bytes_of_u32 x))"
  "off + 6 \<le> length p \<Longrightarrow> store_mac p off m = Some (patch p off (mac_bytes m))"
  by (simp_all add: store_u16_def store_u32_def store_mac_def store_bytes_def)

lemma load_out_of_bounds:
  "load_u16 p off = None \<longleftrightarrow> length p < off + 2"
  "load_u32 p off = None \<longleftrightarrow> length p < off + 4"
  by (auto simp: load_u16_def load_u32_def)

lemma length_patch [simp]: "off + length bs \<le> length p \<Longrightarrow> length (patch p off bs) = length p"
  by (simp add: patch_def)

lemma nth_patch:
  "off + length bs \<le> length p \<Longrightarrow> i < length p \<Longrightarrow>
   patch p off bs ! i = (if off \<le> i \<and> i < off + length bs then bs ! (i - off) else p ! i)"
  by (auto simp: patch_def nth_append min_def)

lemma u16_at_patch [mem_simps]:
  "off + 2 \<le> length p \<Longrightarrow> u16_at (patch p off (bytes_of_u16 w)) off = w"
  by (simp add: u16_at_def nth_patch) (simp add: bytes_of_u16_def)

lemma u32_at_patch [mem_simps]:
  "off + 4 \<le> length p \<Longrightarrow> u32_at (patch p off (bytes_of_u32 w)) off = w"
  by (simp add: u32_at_def nth_patch) (simp add: bytes_of_u32_def)

lemma mac_at_patch [mem_simps]:
  "off + 6 \<le> length p \<Longrightarrow> mac_at (patch p off (mac_bytes m)) off = m"
  by (cases m) (simp add: mac_at_def nth_patch eval_nat_numeral)

lemma nth_patch_other [mem_simps]:
  "off + length bs \<le> length p \<Longrightarrow> i < length p \<Longrightarrow> i < off \<or> off + length bs \<le> i \<Longrightarrow>
   patch p off bs ! i = p ! i"
  by (auto simp: nth_patch)

lemma at_patch_other [mem_simps]:
  "off + length bs \<le> length p \<Longrightarrow> i + 2 \<le> length p \<Longrightarrow> i + 2 \<le> off \<or> off + length bs \<le> i \<Longrightarrow>
     u16_at (patch p off bs) i = u16_at p i"
  "off + length bs \<le> length p \<Longrightarrow> i + 4 \<le> length p \<Longrightarrow> i + 4 \<le> off \<or> off + length bs \<le> i \<Longrightarrow>
     u32_at (patch p off bs) i = u32_at p i"
  "off + length bs \<le> length p \<Longrightarrow> i + 6 \<le> length p \<Longrightarrow> i + 6 \<le> off \<or> off + length bs \<le> i \<Longrightarrow>
     mac_at (patch p off bs) i = mac_at p i"
  by (auto simp: u16_at_def u32_at_def mac_at_def nth_patch)

end
