(* ===== verification/Natd_Common.thy ===== *)
theory Natd_Common
  imports Natd_Prelude
begin

text \<open>
  The data shared by the kernel programs and the daemon: the structs of
  \<open>xdp-natd-common/src/lib.rs\<close> with their constructors, and the constants of
  \<open>xdp-natd-ebpf/src/lib.rs\<close>.
\<close>

definition TIMEOUT_NEW :: u64 where
  "TIMEOUT_NEW = 30000000000"

definition TIMEOUT_EST :: u64 where
  "TIMEOUT_EST = 180000000000"

record nic_info =
  nic_ip :: u32
  nic_ifindex :: u32

definition nic_info_new :: "u32 \<Rightarrow> u32 \<Rightarrow> nic_info" where
  "nic_info_new ip ifindex = \<lparr>nic_ip = ip, nic_ifindex = ifindex\<rparr>"

record container_info =
  container_ip :: u32
  container_mac :: mac
  container_port :: u16
  ci_ifindex :: u32

record fib_macs =
  fib_smac :: mac
  fib_dmac :: mac

record connection_tuple =
  src_addr :: u32
  dst_addr :: u32
  src_port :: u16
  dst_port :: u16

definition connection_tuple_new :: "u32 \<Rightarrow> u32 \<Rightarrow> u16 \<Rightarrow> u16 \<Rightarrow> connection_tuple" where
  "connection_tuple_new sa da sp dp =
     \<lparr>src_addr = sa, dst_addr = da, src_port = sp, dst_port = dp\<rparr>"

record nat_data =
  nat_addr :: u32
  nat_port :: u16
  nat_fib_macs :: fib_macs
  devmap_key :: u32

definition nat_data_new :: "u32 \<Rightarrow> u16 \<Rightarrow> fib_macs \<Rightarrow> u32 \<Rightarrow> nat_data" where
  "nat_data_new addr port macs key =
     \<lparr>nat_addr = addr, nat_port = port, nat_fib_macs = macs, devmap_key = key\<rparr>"

datatype direction = Original | Reply

record flow_state =
  flow_nat :: nat_data
  flow_direction :: direction
  seen_reply :: bool
  timeout :: u64

definition flow_state_new :: "nat_data \<Rightarrow> direction \<Rightarrow> u64 \<Rightarrow> flow_state" where
  "flow_state_new n dir t =
     \<lparr>flow_nat = n, flow_direction = dir, seen_reply = False, timeout = t\<rparr>"

datatype nat_flag = Snat | Dnat

definition AF_INET :: u8 where
  "AF_INET = 2"

lemma connection_tuple_new_inject [simp]:
  "connection_tuple_new a b c d = connection_tuple_new a' b' c' d' \<longleftrightarrow>
     a = a' \<and> b = b' \<and> c = c' \<and> d = d'"
  by (auto simp: connection_tuple_new_def)

lemma connection_tuple_sel [simp]:
  "src_addr (connection_tuple_new a b c d) = a" "dst_addr (connection_tuple_new a b c d) = b"
  "src_port (connection_tuple_new a b c d) = c" "dst_port (connection_tuple_new a b c d) = d"
  by (simp_all add: connection_tuple_new_def)

lemma nat_data_sel [simp]:
  "nat_addr (nat_data_new a p m k) = a" "nat_port (nat_data_new a p m k) = p"
  "nat_fib_macs (nat_data_new a p m k) = m" "devmap_key (nat_data_new a p m k) = k"
  by (simp_all add: nat_data_new_def)

lemma flow_state_sel [simp]:
  "flow_nat (flow_state_new n d t) = n" "flow_direction (flow_state_new n d t) = d"
  "\<not> seen_reply (flow_state_new n d t)" "timeout (flow_state_new n d t) = t"
  by (simp_all add: flow_state_new_def)

end
