(* ===== verification/Bpf_Maps.thy ===== *)
theory Bpf_Maps
  imports Natd_Common "HOL-Library.AList"
begin

text \<open>
  Kernel hash maps are not part of this repository: the programs and the daemon reach them
  through \<open>aya\<close>. Their operations are a record of functions that every definition using a map
  takes as its first argument, and what the code relies on is the locale \<open>bpf_hash\<close>: the
  documented results of lookup, update with \<open>BPF_ANY\<close>/\<open>BPF_NOEXIST\<close>, delete, in-place writes
  through the pointer of \<open>get_ptr_mut\<close>, and iteration. \<open>bpf_hash_bounded\<close> adds
  \<open>max_entries\<close>. The association-list table at the end satisfies both.
\<close>

section \<open>Operations\<close>

text \<open>An update or delete reports \<open>Inl errno\<close> or \<open>Inr ()\<close>, with the map after the call.\<close>

record ('m, 'k, 'v) bpf_map_ops =
  bm_lookup :: "'m \<Rightarrow> 'k \<Rightarrow> 'v option"
  bm_insert :: "'m \<Rightarrow> 'k \<Rightarrow> 'v \<Rightarrow> u64 \<Rightarrow> (int + unit) \<times> 'm"
  bm_remove :: "'m \<Rightarrow> 'k \<Rightarrow> (int + unit) \<times> 'm"
  bm_write :: "'m \<Rightarrow> 'k \<Rightarrow> 'v \<Rightarrow> 'm"
  bm_keys :: "'m \<Rightarrow> 'k list"

definition BPF_ANY :: u64 where
  "BPF_ANY = 0"

definition BPF_NOEXIST :: u64 where
  "BPF_NOEXIST = 1"

abbreviation insert_ok :: "('m, 'k, 'v) bpf_map_ops \<Rightarrow> 'm \<Rightarrow> 'k \<Rightarrow> 'v \<Rightarrow> bool" where
  "insert_ok K m k v \<equiv> fst (bm_insert K m k v BPF_NOEXIST) = Inr ()"

section \<open>The contract\<close>

locale bpf_hash =
  fixes K :: "('m, 'k, 'v) bpf_map_ops"
  assumes insert_success:
      "bm_insert K m k v f = (Inr u, m') \<Longrightarrow> bm_lookup K m' = (bm_lookup K m)(k \<mapsto> v)"
    and insert_failure:
      "bm_insert K m k v f = (Inl e, m') \<Longrightarrow> bm_lookup K m' = bm_lookup K m"
    and insert_noexist:
      "bm_lookup K m k = Some w \<Longrightarrow> \<exists>e. fst (bm_insert K m k v BPF_NOEXIST) = Inl e"
    and remove_success:
      "bm_remove K m k = (Inr u, m') \<Longrightarrow> bm_lookup K m' = (bm_lookup K m)(k := None)"
    and remove_failure:
      "bm_remove K m k = (Inl e, m') \<Longrightarrow> bm_lookup K m' = bm_lookup K m"
    and remove_present:
      "bm_lookup K m k = Some w \<Longrightarrow> fst (bm_remove K m k) = Inr ()"
    and write_present:
      "bm_lookup K m k = Some w \<Longrightarrow> bm_lookup K (bm_write K m k v) = (bm_lookup K m)(k \<mapsto> v)"
    and keys_lookup:
      "set (bm_keys K m) = dom (bm_lookup K m)"
begin

lemma lookup_insert_noexist:
  "bm_lookup K (snd (bm_insert K m k v BPF_NOEXIST)) =
     (if insert_ok K m k v then (bm_lookup K m)(k \<mapsto> v) else bm_lookup K m)"
  by (cases "bm_insert K m k v BPF_NOEXIST"; cases "fst (bm_insert K m k v BPF_NOEXIST)")
    (auto dest: insert_success insert_failure)

lemma insert_ok_fresh: "insert_ok K m k v \<Longrightarrow> bm_lookup K m k = None"
  using insert_noexist [of m k _ v] by (cases "bm_lookup K m k") auto

lemma insert_keeps_present:
  "bm_lookup K m k = Some w \<Longrightarrow> bm_lookup K (snd (bm_insert K m k v BPF_NOEXIST)) = bm_lookup K m"
  using insert_noexist [of m k w v] by (auto simp: lookup_insert_noexist)

lemma lookup_insert_other:
  "j \<noteq> k \<Longrightarrow> bm_lookup K (snd (bm_insert K m k v BPF_NOEXIST)) j = bm_lookup K m j"
  by (simp add: lookup_insert_noexist)

lemma insert_noexist_keeps:
  "bm_lookup K m k = Some w \<Longrightarrow>
     bm_lookup K (snd (bm_insert K m j v BPF_NOEXIST)) k = Some w"
  by (cases "j = k") (simp_all add: insert_keeps_present lookup_insert_other)

lemma lookup_after_remove:
  "bm_lookup K (snd (bm_remove K m k)) =
     (if fst (bm_remove K m k) = Inr () then (bm_lookup K m)(k := None) else bm_lookup K m)"
  by (cases "bm_remove K m k"; cases "fst (bm_remove K m k)")
    (auto dest: remove_success remove_failure)

lemma remove_absent:
  assumes "bm_lookup K m k = None"
  shows "bm_lookup K (snd (bm_remove K m k)) = bm_lookup K m"
  using assms by (auto simp: lookup_after_remove fun_upd_idem)

lemma remove_key: "bm_lookup K (snd (bm_remove K m k)) = (bm_lookup K m)(k := None)"
  using remove_present [of m k]
  by (cases "bm_lookup K m k") (simp_all add: lookup_after_remove remove_absent fun_upd_idem)

end

text \<open>
  A map created with \<open>with_max_entries(n)\<close> holds at most \<open>n\<close> keys: a new key is refused
  when it is full, and accepted when it is not.
\<close>

locale bpf_hash_bounded = bpf_hash K
  for K :: "('m, 'k, 'v) bpf_map_ops" +
  fixes max_entries :: nat
  assumes finite_entries: "finite (dom (bm_lookup K m))"
    and bounded_entries: "card (dom (bm_lookup K m)) \<le> max_entries"
    and insert_full:
      "bm_lookup K m k = None \<Longrightarrow> card (dom (bm_lookup K m)) = max_entries \<Longrightarrow>
         \<exists>e. fst (bm_insert K m k v f) = Inl e"
    and insert_room:
      "bm_lookup K m k = None \<Longrightarrow> card (dom (bm_lookup K m)) < max_entries \<Longrightarrow>
         fst (bm_insert K m k v f) = Inr ()"
begin

lemma insert_ok_iff:
  "insert_ok K m k v \<longleftrightarrow> bm_lookup K m k = None \<and> card (dom (bm_lookup K m)) < max_entries"
  using insert_ok_fresh [of m k v] insert_full [of m k v BPF_NOEXIST]
    insert_room [of m k v BPF_NOEXIST] bounded_entries [of m] nat_less_le
  by fastforce

end

section \<open>A table that satisfies the contract\<close>

text \<open>
  An association list with a capacity. Every list stands for its normal form: the first
  \<open>n\<close> entries, without shadowed keys.
\<close>

definition table_norm :: "nat \<Rightarrow> ('k \<times> 'v) list \<Rightarrow> ('k \<times> 'v) list" where
  "table_norm n t = AList.clearjunk (take n t)"

definition table_lookup :: "nat \<Rightarrow> ('k \<times> 'v) list \<Rightarrow> 'k \<Rightarrow> 'v option" where
  "table_lookup n t k = map_of (table_norm n t) k"

definition table_insert ::
    "nat \<Rightarrow> ('k \<times> 'v) list \<Rightarrow> 'k \<Rightarrow> 'v \<Rightarrow> u64 \<Rightarrow> (int + unit) \<times> ('k \<times> 'v) list" where
  "table_insert n t k v f =
     (let u = table_norm n t in
      if map_of u k \<noteq> None
      then (if f = BPF_NOEXIST then (Inl (-17), u) else (Inr (), AList.update k v u))
      else if length u < n then (Inr (), u @ [(k, v)])
      else (Inl (-7), u))"

definition table_remove :: "nat \<Rightarrow> ('k \<times> 'v) list \<Rightarrow> 'k \<Rightarrow> (int + unit) \<times> ('k \<times> 'v) list" where
  "table_remove n t k =
     (let u = table_norm n t in
      if map_of u k = None then (Inl (-2), u) else (Inr (), AList.delete k u))"

definition table_write :: "nat \<Rightarrow> ('k \<times> 'v) list \<Rightarrow> 'k \<Rightarrow> 'v \<Rightarrow> ('k \<times> 'v) list" where
  "table_write n t k v = AList.update k v (table_norm n t)"

definition table_keys :: "nat \<Rightarrow> ('k \<times> 'v) list \<Rightarrow> 'k list" where
  "table_keys n t = map fst (table_norm n t)"

definition table_ops :: "nat \<Rightarrow> (('k \<times> 'v) list, 'k, 'v) bpf_map_ops" where
  "table_ops n = \<lparr>bm_lookup = table_lookup n, bm_insert = table_insert n,
     bm_remove = table_remove n, bm_write = table_write n, bm_keys = table_keys n\<rparr>"

lemma table_ops_sel [simp]:
  "bm_lookup (table_ops n) = table_lookup n" "bm_insert (table_ops n) = table_insert n"
  "bm_remove (table_ops n) = table_remove n" "bm_write (table_ops n) = table_write n"
  "bm_keys (table_ops n) = table_keys n"
  by (simp_all add: table_ops_def)

lemma table_norm_distinct: "distinct (map fst (table_norm n t))"
  by (simp add: table_norm_def distinct_clearjunk)

lemma table_norm_length: "length (table_norm n t) \<le> n"
  unfolding table_norm_def
  by (rule order.trans [OF length_clearjunk]) simp

lemma table_norm_idem:
  "distinct (map fst u) \<Longrightarrow> length u \<le> n \<Longrightarrow> table_norm n u = u"
  by (simp add: table_norm_def)

lemma table_lookup_fun: "table_lookup n t = map_of (table_norm n t)"
  by (simp add: fun_eq_iff table_lookup_def)

lemma dom_table_lookup: "dom (table_lookup n t) = set (table_keys n t)"
  by (simp add: table_lookup_fun table_keys_def dom_map_of_conv_image_fst)

lemma finite_dom_table_lookup: "finite (dom (table_lookup n t))"
  by (simp add: dom_table_lookup)

lemma table_card_dom: "card (dom (table_lookup n t)) = length (table_norm n t)"
proof -
  have "card (set (table_keys n t)) = length (table_keys n t)"
    using table_norm_distinct [of n t] by (intro distinct_card) (simp add: table_keys_def)
  then show ?thesis
    by (simp add: dom_table_lookup) (simp add: table_keys_def)
qed

lemma table_update_norm:
  assumes "map_of (table_norm n t) k \<noteq> None"
  shows "table_norm n (AList.update k v (table_norm n t)) = AList.update k v (table_norm n t)"
proof (rule table_norm_idem)
  show "distinct (map fst (AList.update k v (table_norm n t)))"
    by (rule distinct_update) (rule table_norm_distinct)
  have "k \<in> fst ` set (table_norm n t)"
    using assms by (auto simp: map_of_eq_None_iff)
  then have "length (AList.update k v (table_norm n t)) = length (table_norm n t)"
    using arg_cong [OF update_keys [of k v "table_norm n t"], of length] by simp
  then show "length (AList.update k v (table_norm n t)) \<le> n"
    by (simp add: table_norm_length)
qed

lemma table_append_norm:
  assumes "map_of (table_norm n t) k = None" "length (table_norm n t) < n"
  shows "table_norm n (table_norm n t @ [(k, v)]) = table_norm n t @ [(k, v)]"
  using assms table_norm_distinct [of n t]
  by (intro table_norm_idem) (auto simp: map_of_eq_None_iff)

lemma table_delete_norm:
  "table_norm n (AList.delete k (table_norm n t)) = AList.delete k (table_norm n t)"
proof (rule table_norm_idem)
  show "distinct (map fst (AList.delete k (table_norm n t)))"
    by (rule distinct_delete) (rule table_norm_distinct)
  show "length (AList.delete k (table_norm n t)) \<le> n"
    by (rule order.trans [OF length_delete_le]) (rule table_norm_length)
qed

lemma table_norm_norm [simp]: "table_norm n (table_norm n t) = table_norm n t"
  by (intro table_norm_idem table_norm_distinct table_norm_length)

text \<open>What each operation does to the lookup function, and when an insert is refused.\<close>

lemma lookup_table_insert:
  "table_lookup n (snd (table_insert n t k v f)) =
     (if fst (table_insert n t k v f) = Inr () then (table_lookup n t)(k \<mapsto> v)
      else table_lookup n t)"
proof (cases "map_of (table_norm n t) k = None \<and> length (table_norm n t) < n")
  case True
  then have "map_of (table_norm n t @ [(k, v)]) = (map_of (table_norm n t))(k \<mapsto> v)"
    by (auto simp: fun_eq_iff map_add_def split: option.splits)
  with True show ?thesis
    by (simp add: table_insert_def Let_def table_lookup_fun table_append_norm)
qed (auto simp: table_insert_def Let_def table_lookup_fun table_update_norm update_conv')

lemma lookup_table_remove:
  "table_lookup n (snd (table_remove n t k)) = (table_lookup n t)(k := None)"
  by (auto simp: table_remove_def Let_def table_lookup_fun table_delete_norm delete_conv'
      fun_upd_idem)

lemma lookup_table_write:
  "table_lookup n t k \<noteq> None \<Longrightarrow>
     table_lookup n (table_write n t k v) = (table_lookup n t)(k \<mapsto> v)"
  by (simp add: table_write_def table_lookup_fun table_update_norm update_conv')

lemma fst_table_insert:
  "fst (table_insert n t k v f) =
     (if table_lookup n t k \<noteq> None then (if f = BPF_NOEXIST then Inl (-17) else Inr ())
      else if card (dom (table_lookup n t)) < n then Inr () else Inl (-7))"
  unfolding table_card_dom by (simp add: table_insert_def Let_def table_lookup_fun)

lemma fst_table_remove:
  "fst (table_remove n t k) = (if table_lookup n t k = None then Inl (-2) else Inr ())"
  by (simp add: table_remove_def Let_def table_lookup_fun)

lemma table_ops_hash: "bpf_hash (table_ops n)"
proof (unfold_locales, unfold table_ops_sel, goal_cases)
  case (1 m k v f u m')
  then show ?case using lookup_table_insert [of n m k v f] by simp
next
  case (2 m k v f e m')
  then show ?case using lookup_table_insert [of n m k v f] by simp
next
  case (4 m k u m')
  then show ?case using lookup_table_remove [of n m k] by simp
next
  case (5 m k e m')
  then show ?case
    using lookup_table_remove [of n m k] fst_table_remove [of n m k]
    by (auto simp: fun_upd_idem split: if_splits)
qed (simp_all add: fst_table_insert fst_table_remove lookup_table_write dom_table_lookup)

lemma table_ops_bounded: "bpf_hash_bounded (table_ops n) n"
proof -
  have "bpf_hash_bounded_axioms (table_ops n) n"
    by unfold_locales
      (simp_all add: fst_table_insert finite_dom_table_lookup table_card_dom table_norm_length)
  then show ?thesis
    by (intro bpf_hash_bounded.intro table_ops_hash)
qed

section \<open>The maps of the program\<close>

text \<open>
  The capacities with which \<open>main.rs\<close> of the eBPF crate declares its maps, and the contract
  at each of them.
\<close>

definition UDP_CONNTRACK_ENTRIES :: nat where
  "UDP_CONNTRACK_ENTRIES = 65536"

definition EXPOSE_MAP_ENTRIES :: nat where
  "EXPOSE_MAP_ENTRIES = 256"

definition REDIRECT_MAP_ENTRIES :: nat where
  "REDIRECT_MAP_ENTRIES = 256"

interpretation conntrack_table: bpf_hash_bounded
    "table_ops UDP_CONNTRACK_ENTRIES :: (_, connection_tuple, flow_state) bpf_map_ops"
    UDP_CONNTRACK_ENTRIES
  by (rule table_ops_bounded)

interpretation expose_table: bpf_hash_bounded
    "table_ops EXPOSE_MAP_ENTRIES :: (_, u16, container_info) bpf_map_ops" EXPOSE_MAP_ENTRIES
  by (rule table_ops_bounded)

interpretation redirect_table: bpf_hash_bounded
    "table_ops REDIRECT_MAP_ENTRIES :: (_, u32, u32) bpf_map_ops" REDIRECT_MAP_ENTRIES
  by (rule table_ops_bounded)

end
