(* ===== verification/Checksum.thy ===== *)
theory Checksum
  imports Natd_Prelude
begin

text \<open>
  The incremental checksum arithmetic of \<open>xdp-natd-ebpf/src/helpers.rs\<close> (\<open>csum_add\<close>,
  \<open>csum_fold\<close>, \<open>csum_replace4\<close>), its closed form modulo 65535, and the Internet checksum of
  RFC 1071 as the specification it must agree with.
\<close>

section \<open>The code\<close>

definition csum_add :: "u32 \<Rightarrow> u32 \<Rightarrow> u32" where
  "csum_add csum addend =
     (let res = csum + addend in res + (if res < addend then 1 else 0))"

definition csum_fold :: "u32 \<Rightarrow> u16" where
  "csum_fold csum =
     (let csum = (csum AND 0xffff) + drop_bit 16 csum;
          csum = (csum AND 0xffff) + drop_bit 16 csum
      in NOT (ucast csum))"

definition csum_replace4 :: "u32 \<Rightarrow> u32 \<Rightarrow> u32 \<Rightarrow> u16" where
  "csum_replace4 csum from to =
     (let tmp = csum_add (NOT csum) (NOT from) in csum_fold (csum_add tmp to))"

section \<open>Closed form\<close>

lemma unat_u32_less: "unat (a :: u32) < 4294967296"
  using unsigned_less [of a] by simp

lemma unat_u16_less: "unat (a :: u16) < 65536"
  using unsigned_less [of a] by simp

lemma unat_csum_add:
  "unat (csum_add a b) =
     (if unat a + unat b < 4294967296 then unat a + unat b
      else unat a + unat b - 4294967295)"
proof (cases "unat a + unat b < 4294967296")
  case True
  then have "unat (a + b) = unat a + unat b"
    by (simp add: unat_word_ariths)
  with True show ?thesis
    by (simp add: csum_add_def Let_def word_less_nat_alt)
next
  case False
  then have "unat (a + b) = unat a + unat b - 4294967296"
    using unat_u32_less [of a] unat_u32_less [of b] by (simp add: unat_word_ariths mod_if)
  with False show ?thesis
    using unat_u32_less [of a] unat_u32_less [of b]
    by (simp add: csum_add_def Let_def word_less_nat_alt unat_word_ariths)
qed

lemma csum_add_mod: "unat (csum_add a b) mod 65535 = (unat a + unat b) mod 65535"
proof (cases "unat a + unat b < 4294967296")
  case True
  then show ?thesis by (simp add: unat_csum_add)
next
  case False
  then have "unat a + unat b = unat (csum_add a b) + 65535 * 65537"
    by (simp add: unat_csum_add)
  then show ?thesis by (simp only: mod_mult_self2)
qed

lemma csum_add_eq_0: "csum_add a b = 0 \<longleftrightarrow> a = 0 \<and> b = 0"
  by (auto simp: unat_csum_add unat_eq_0 simp flip: unat_0_iff split: if_splits)

definition fold16 :: "nat \<Rightarrow> nat" where
  "fold16 n = n mod 65536 + n div 65536"

lemma fold16_mod: "fold16 n mod 65535 = n mod 65535"
proof -
  have "n = fold16 n + 65535 * (n div 65536)"
    using div_mult_mod_eq [of n 65536] by (simp add: fold16_def)
  then have "n mod 65535 = (fold16 n + 65535 * (n div 65536)) mod 65535"
    by simp
  then show ?thesis by simp
qed

lemma fold16_pos: "0 < n \<Longrightarrow> 0 < fold16 n"
  unfolding fold16_def by (cases "n < 65536") (auto simp: div_greater_zero_iff)

lemma fold16_twice:
  assumes "n < 4294967296"
  shows "fold16 (fold16 n) < 65536"
proof -
  have "n div 65536 < 65536"
    using assms by (simp add: div_less_iff_less_mult)
  moreover have "n mod 65536 < 65536"
    by simp
  ultimately have bound: "fold16 n \<le> 131070"
    unfolding fold16_def by linarith
  show ?thesis
  proof (cases "fold16 n < 65536")
    case True
    then show ?thesis by (simp add: fold16_def [of "fold16 n"])
  next
    case False
    then have "fold16 n mod 65536 = fold16 n - 65536" "fold16 n div 65536 = 1"
      using bound by (simp_all add: mod_if div_if)
    with bound False show ?thesis by (simp add: fold16_def [of "fold16 n"])
  qed
qed

lemma unat_low_half: "unat (c AND 0xffff) = unat c mod 65536" for c :: u32
proof -
  have "c AND 0xffff = take_bit 16 c"
    by (simp add: take_bit_eq_mask mask_eq_exp_minus_1)
  also have "unat (take_bit 16 c) = take_bit 16 (unat c)"
    by (rule unsigned_take_bit_eq)
  finally show ?thesis
    by (simp add: take_bit_eq_mod)
qed

lemma unat_high_half: "unat (drop_bit 16 c) = unat c div 65536" for c :: u32
proof -
  have "unat (drop_bit 16 c) = drop_bit 16 (take_bit LENGTH(32) (unat c))"
    by (rule unsigned_drop_bit_eq)
  also have "take_bit LENGTH(32) (unat c) = unat c"
    using unat_u32_less [of c] by (simp add: take_bit_nat_eq_self)
  finally show ?thesis
    by (simp add: drop_bit_eq_div)
qed

lemma unat_fold_step:
  "unat ((c AND 0xffff) + drop_bit 16 c) = fold16 (unat c)" for c :: u32
proof -
  have "unat c div 65536 < 65536"
    using unat_u32_less [of c] by (simp add: div_less_iff_less_mult)
  then show ?thesis
    unfolding unat_word_ariths unat_low_half unat_high_half fold16_def
    by (simp add: mod_less)
qed

lemma uint_not_u16: "uint (NOT w) = 65535 - uint w" for w :: u16
proof -
  have "uint (NOT w) = take_bit LENGTH(16) (NOT (uint w))"
    by (rule unsigned_not_eq)
  also have "\<dots> = (- uint w - 1 + 65536 * 1) mod 65536"
    by (simp only: mod_mult_self2) (simp add: take_bit_eq_mod not_int_def)
  also have "\<dots> = 65535 - uint w"
    by (simp, rule mod_pos_pos_trivial) (use uint_word_less(2) [of w] uint_nonnegative [of w] in linarith)+
  finally show ?thesis .
qed

lemma uint_not_u32: "uint (NOT w) = 4294967295 - uint w" for w :: u32
proof -
  have "uint (NOT w) = take_bit LENGTH(32) (NOT (uint w))"
    by (rule unsigned_not_eq)
  also have "\<dots> = (- uint w - 1 + 4294967296 * 1) mod 4294967296"
    by (simp only: mod_mult_self2) (simp add: take_bit_eq_mod not_int_def)
  also have "\<dots> = 4294967295 - uint w"
    by (simp, rule mod_pos_pos_trivial) (use uint_word_less(3) [of w] uint_nonnegative [of w] in linarith)+
  finally show ?thesis .
qed

lemma unat_not_u16: "unat (NOT w) = 65535 - unat w" for w :: u16
  using uint_not_u16 [of w] unat_u16_less [of w] unfolding uint_nat by linarith

lemma unat_csum_fold: "unat (csum_fold c) = 65535 - fold16 (fold16 (unat c))"
proof -
  have "unat (ucast ((((c AND 0xffff) + drop_bit 16 c) AND 0xffff)
      + drop_bit 16 ((c AND 0xffff) + drop_bit 16 c)) :: u16) = fold16 (fold16 (unat c))"
    using fold16_twice [OF unat_u32_less [of c]]
    by (simp only: unsigned_ucast_eq unat_fold_step) (simp add: take_bit_eq_mod)
  then show ?thesis
    by (simp only: csum_fold_def Let_def unat_not_u16)
qed

text \<open>A positive accumulator folds to a value that is never the redundant form \<open>0xffff\<close>.\<close>

lemma uint_csum_fold:
  assumes "c \<noteq> 0"
  shows "uint (csum_fold c) = (- uint c) mod 65535"
proof -
  let ?n = "unat c" and ?f = "fold16 (fold16 (unat c))"
  have pos: "0 < ?f"
    using assms by (intro fold16_pos) (simp add: unat_gt_0)
  have less: "?f < 65536"
    by (rule fold16_twice) (rule unat_u32_less)
  have "?f mod 65535 = ?n mod 65535"
    by (simp add: fold16_mod)
  then have cong: "int ?f mod 65535 = uint c mod 65535"
    by (metis of_nat_mod of_nat_numeral uint_nat)
  have "uint (csum_fold c) = 65535 - int ?f"
    using less by (simp add: uint_nat unat_csum_fold)
  also have "\<dots> = (65535 - int ?f) mod 65535"
    using pos less by (intro mod_pos_pos_trivial [symmetric]) auto
  also have "\<dots> = (- int ?f + 65535 * 1) mod 65535"
    by simp
  also have "\<dots> = (- int ?f) mod 65535"
    by (rule mod_mult_self2)
  also have "\<dots> = (- uint c) mod 65535"
    using cong by (rule euclidean_ring_cancel_class.mod_minus_cong)
  finally show ?thesis .
qed

lemma uint_csum_add_mod: "uint (csum_add a b) mod 65535 = (uint a + uint b) mod 65535"
proof -
  have "int (unat (csum_add a b) mod 65535) = int ((unat a + unat b) mod 65535)"
    by (simp only: csum_add_mod)
  then show ?thesis
    by (simp only: of_nat_mod of_nat_add of_nat_numeral uint_nat)
qed

lemma uint_csum_replace4:
  assumes "NOT csum \<noteq> 0 \<or> NOT from \<noteq> 0 \<or> to \<noteq> 0"
  shows "uint (csum_replace4 csum from to) = (uint csum + uint from - uint to) mod 65535"
proof -
  let ?s = "uint (NOT csum) + uint (NOT from) + uint to"
  let ?acc = "csum_add (csum_add (NOT csum) (NOT from)) to"
  have "?acc \<noteq> 0"
    using assms by (simp add: csum_add_eq_0)
  then have "uint (csum_replace4 csum from to) = (- uint ?acc) mod 65535"
    by (simp add: csum_replace4_def uint_csum_fold)
  also have "\<dots> = (- ?s) mod 65535"
  proof (rule euclidean_ring_cancel_class.mod_minus_cong)
    have "(uint (csum_add (NOT csum) (NOT from)) + uint to) mod 65535 = ?s mod 65535"
      by (rule mod_add_cong [OF uint_csum_add_mod refl])
    then show "uint ?acc mod 65535 = ?s mod 65535"
      by (simp only: uint_csum_add_mod)
  qed
  also have "- ?s = (uint csum + uint from - uint to) + 65535 * (- 131074)"
    by (simp add: uint_not_u32)
  also have "\<dots> mod 65535 = (uint csum + uint from - uint to) mod 65535"
    by (rule mod_mult_self2)
  finally show ?thesis .
qed

text \<open>A 16-bit checksum field widened to 32 bits never hits the exceptional case.\<close>

lemma uint_csum_replace4_field:
  "uint (csum_replace4 (ucast (c :: u16)) from to) = (uint c + uint from - uint to) mod 65535"
proof -
  have c: "uint (ucast c :: u32) = uint c"
    using uint_word_less(2) [of c] by (simp add: unsigned_ucast_eq take_bit_eq_mod)
  have "uint (NOT (ucast c :: u32)) \<noteq> 0"
    using uint_word_less(2) [of c] by (simp only: uint_not_u32 c)
  then have "NOT (ucast c :: u32) \<noteq> 0"
    by (metis uint_0_eq)
  then show ?thesis
    using uint_csum_replace4 [of "ucast c" "from" to] c by auto
qed

section \<open>The Internet checksum\<close>

text \<open>
  RFC 1071: the one's complement sum of the 16-bit words in network order, an odd last byte
  padded with zero. Data with its checksum in place is valid when that sum is \<open>0xffff\<close>.
\<close>

fun be_words :: "bytes \<Rightarrow> u16 list" where
  "be_words [] = []"
| "be_words [a] = [be16 a 0]"
| "be_words (a # b # bs) = be16 a b # be_words bs"

definition oc_add :: "u16 \<Rightarrow> u16 \<Rightarrow> u16" where
  "oc_add a b = (let s = a + b in s + (if s < a then 1 else 0))"

definition inet_sum :: "bytes \<Rightarrow> u16" where
  "inet_sum bs = foldr oc_add (be_words bs) 0"

definition inet_checksum :: "bytes \<Rightarrow> u16" where
  "inet_checksum bs = NOT (inet_sum bs)"

definition inet_valid :: "bytes \<Rightarrow> bool" where
  "inet_valid bs \<longleftrightarrow> inet_sum bs = 0xffff"

text \<open>The same data summed as integers over little-endian words, the order of the loads.\<close>

fun le_sum :: "bytes \<Rightarrow> int" where
  "le_sum [] = 0"
| "le_sum [a] = uint a"
| "le_sum (a # b # bs) = uint (le16 a b) + le_sum bs"

lemma unat_oc_add:
  "unat (oc_add a b) =
     (if unat a + unat b < 65536 then unat a + unat b else unat a + unat b - 65535)"
proof (cases "unat a + unat b < 65536")
  case True
  then have "unat (a + b) = unat a + unat b"
    by (simp add: unat_word_ariths)
  with True show ?thesis
    by (simp add: oc_add_def Let_def word_less_nat_alt)
next
  case False
  then have "unat (a + b) = unat a + unat b - 65536"
    using unat_u16_less [of a] unat_u16_less [of b] by (simp add: unat_word_ariths mod_if)
  with False show ?thesis
    using unat_u16_less [of a] unat_u16_less [of b]
    by (simp add: oc_add_def Let_def word_less_nat_alt unat_word_ariths)
qed

lemma uint_oc_add_mod: "uint (oc_add a b) mod 65535 = (uint a + uint b) mod 65535"
proof (cases "unat a + unat b < 65536")
  case True
  then show ?thesis by (simp only: uint_nat unat_oc_add if_True of_nat_add)
next
  case False
  then have "unat a + unat b = unat (oc_add a b) + 65535"
    by (simp add: unat_oc_add)
  then have "uint a + uint b = uint (oc_add a b) + 65535 * 1"
    unfolding uint_nat by linarith
  then show ?thesis by (simp only: mod_mult_self2)
qed

lemma oc_add_eq_0: "oc_add a b = 0 \<longleftrightarrow> a = 0 \<and> b = 0"
  by (auto simp: unat_oc_add simp flip: unat_0_iff split: if_splits)

lemma uint_le16: "uint (le16 a b) = uint a + 256 * uint b"
  using unat_le16 [of a b] unfolding uint_nat by linarith

lemma uint_be16: "uint (be16 a b) = 256 * uint a + uint b"
  by (simp add: be16_le16 uint_le16)

lemma inet_sum_Cons: "inet_sum (a # b # bs) = oc_add (be16 a b) (inet_sum bs)"
  by (simp add: inet_sum_def)

text \<open>Byte order does not matter to the sum modulo 65535, up to the factor 256.\<close>

lemma inet_sum_le_sum: "(256 * uint (inet_sum bs)) mod 65535 = le_sum bs mod 65535"
proof (induction bs rule: be_words.induct)
  case 1
  then show ?case by (simp add: inet_sum_def)
next
  case (2 a)
  have "inet_sum [a] = be16 a 0"
    by (simp add: inet_sum_def oc_add_def Let_def)
  then have "uint (inet_sum [a]) = 256 * uint a"
    by (simp add: uint_be16)
  then have "256 * uint (inet_sum [a]) = uint a + 65535 * uint a"
    by simp
  then show ?case by (simp only: mod_mult_self2 le_sum.simps)
next
  case (3 a b bs)
  have "(256 * uint (inet_sum (a # b # bs))) mod 65535
      = (256 * (uint (be16 a b) + uint (inet_sum bs))) mod 65535"
    unfolding inet_sum_Cons by (rule mod_mult_cong [OF refl uint_oc_add_mod])
  also have "256 * (uint (be16 a b) + uint (inet_sum bs))
      = (uint (le16 a b) + 256 * uint (inet_sum bs)) + 65535 * uint a"
    by (simp add: uint_be16 uint_le16)
  also have "\<dots> mod 65535 = (uint (le16 a b) + 256 * uint (inet_sum bs)) mod 65535"
    by (rule mod_mult_self2)
  also have "\<dots> = le_sum (a # b # bs) mod 65535"
    unfolding le_sum.simps by (rule mod_add_cong [OF refl "3.IH"])
  finally show ?case .
qed

lemma be16_eq_0: "be16 a b = 0 \<longleftrightarrow> a = 0 \<and> b = 0"
proof -
  have "be16 a b = 0 \<longleftrightarrow> unat (be16 a b) = 0"
    by (simp only: unat_eq_0)
  then show ?thesis
    by (auto simp: be16_le16 unat_le16 unat_eq_0)
qed

lemma inet_sum_eq_0: "inet_sum bs = 0 \<longleftrightarrow> (\<forall>b \<in> set bs. b = 0)"
proof (induction bs rule: be_words.induct)
  case (2 a)
  then show ?case
    by (simp add: inet_sum_def oc_add_eq_0 be16_eq_0)
next
  case (3 a b bs)
  then show ?case
    by (auto simp: inet_sum_Cons oc_add_eq_0 be16_eq_0)
qed (simp add: inet_sum_def)

lemma le_sum_nonneg: "0 \<le> le_sum bs"
  by (induction bs rule: le_sum.induct) (simp_all add: uint_le16)

lemma uint_pos_iff: "0 < uint x \<longleftrightarrow> x \<noteq> 0"
  using uint_nonnegative [of x] by (auto simp: less_le uint_0_iff)

lemma le_sum_pos: "b \<in> set bs \<Longrightarrow> b \<noteq> 0 \<Longrightarrow> 0 < le_sum bs"
proof (induction bs rule: le_sum.induct)
  case (3 a c bs)
  have "0 < uint (le16 a c)" if "a \<noteq> 0 \<or> c \<noteq> 0"
    using that uint_nonnegative [of a] uint_nonnegative [of c]
    unfolding uint_le16 uint_pos_iff [symmetric] by linarith
  moreover have "0 \<le> uint (le16 a c)" "0 \<le> le_sum bs"
    by (simp_all add: le_sum_nonneg)
  ultimately show ?case
    using "3.prems" "3.IH" by (auto intro: add_pos_nonneg add_nonneg_pos)
qed (simp_all add: uint_pos_iff)

lemma cancel_256: "(256 * x) mod 65535 = 0 \<longleftrightarrow> x mod 65535 = 0" for x :: int
proof
  assume "(256 * x) mod 65535 = 0"
  then have "(256 * (256 * x)) mod 65535 = 0"
    by (metis mod_mult_right_eq mult_zero_right mod_0)
  moreover have "256 * (256 * x) = x + 65535 * x"
    by simp
  ultimately show "x mod 65535 = 0"
    by (simp only: mod_mult_self2)
next
  assume "x mod 65535 = 0"
  then show "(256 * x) mod 65535 = 0"
    by (metis mod_mult_right_eq mult_zero_right mod_0)
qed

lemma multiple_65535:
  fixes x :: int
  assumes "0 < x" "x < 65536"
  shows "x mod 65535 = 0 \<longleftrightarrow> x = 65535"
proof (cases "x = 65535")
  case False
  with assms have "x < 65535" by linarith
  with assms show ?thesis by simp
qed simp

text \<open>Validity, read off the integer sum; data with a nonzero byte cannot sum to 0.\<close>

lemma inet_valid_iff:
  assumes "b \<in> set bs" "b \<noteq> 0"
  shows "inet_valid bs \<longleftrightarrow> le_sum bs mod 65535 = 0"
proof -
  have "inet_sum bs \<noteq> 0"
    using assms by (auto simp: inet_sum_eq_0)
  then have range: "0 < uint (inet_sum bs)" "uint (inet_sum bs) < 65536"
    using uint_word_less(2) [of "inet_sum bs"] by (simp_all add: uint_pos_iff)
  have "inet_valid bs \<longleftrightarrow> uint (inet_sum bs) = 65535"
    unfolding inet_valid_def by (simp add: word_uint_eq_iff)
  also have "\<dots> \<longleftrightarrow> uint (inet_sum bs) mod 65535 = 0"
    using range by (intro multiple_65535 [symmetric])
  also have "\<dots> \<longleftrightarrow> (256 * uint (inet_sum bs)) mod 65535 = 0"
    by (rule cancel_256 [symmetric])
  finally show ?thesis
    by (simp only: inet_sum_le_sum)
qed

text \<open>
  A stored field that complements the rest of the data modulo 65535, and is not the redundant
  \<open>0xffff\<close>, is the checksum of that rest.
\<close>

lemma uint_swap16_mod: "(256 * uint (swap16 w)) mod 65535 = uint w mod 65535"
proof -
  obtain a b where w: "w = le16 a b"
    by (metis le16_byte_of)
  have "256 * uint (swap16 w) = uint w + 65535 * uint a"
    by (simp add: w uint_be16 uint_le16)
  then show ?thesis
    by (simp only: mod_mult_self2)
qed

lemma swap16_eq_max: "swap16 w = 0xFFFF \<longleftrightarrow> w = 0xFFFF"
proof -
  have "swap16 0xFFFF = 0xFFFF"
    by (simp add: swap16_def byte_of_def be16_def)
  then show ?thesis
    by (metis swap16_swap16)
qed

lemma recomputed_checksum:
  assumes "inet_sum bs \<noteq> 0" and "(le_sum bs + uint w) mod 65535 = 0" and "w \<noteq> 0xFFFF"
  shows "swap16 w = inet_checksum bs"
proof -
  let ?x = "uint (swap16 w)" and ?y = "65535 - uint (inet_sum bs)"
  have "(256 * (?x - ?y)) mod 65535
      = (256 * ?x + 256 * uint (inet_sum bs) + 65535 * (- 256)) mod 65535"
    by (simp add: algebra_simps)
  also have "\<dots> = (256 * ?x + 256 * uint (inet_sum bs)) mod 65535"
    by (rule mod_mult_self2)
  also have "\<dots> = (uint w + le_sum bs) mod 65535"
    by (rule mod_add_cong [OF uint_swap16_mod inet_sum_le_sum])
  also have "\<dots> = 0"
    using assms(2) by (simp only: add.commute)
  finally have "(?x - ?y) mod 65535 = 0"
    by (rule cancel_256 [THEN iffD1])
  then have cong: "?x mod 65535 = ?y mod 65535"
    by (simp only: mod_eq_dvd_iff mod_eq_0_iff_dvd)
  have "0 \<le> ?y" "?y < 65535"
    using assms(1) uint_word_less(2) [of "inet_sum bs"] uint_pos_iff [of "inet_sum bs"]
    by linarith+
  then have y: "?y mod 65535 = ?y"
    by (rule mod_pos_pos_trivial)
  have "?x \<noteq> 65535"
    using assms(3) swap16_eq_max [of w] by (auto simp: word_uint_eq_iff)
  then have "?x < 65535"
    using uint_word_less(2) [of "swap16 w"] by linarith
  then have "?x mod 65535 = ?x"
    by (rule mod_pos_pos_trivial [OF uint_nonnegative])
  with cong y have "?x = ?y"
    by (simp only:)
  then show ?thesis
    by (simp add: inet_checksum_def word_uint_eq_iff uint_not_u16)
qed

section \<open>Sums of patched data\<close>

definition slice :: "bytes \<Rightarrow> nat \<Rightarrow> nat \<Rightarrow> bytes" where
  "slice p off n = take n (drop off p)"

lemma length_slice [simp]: "off + n \<le> length p \<Longrightarrow> length (slice p off n) = n"
  by (simp add: slice_def)

lemma nth_slice: "off + n \<le> length p \<Longrightarrow> i < n \<Longrightarrow> slice p off n ! i = p ! (off + i)"
  by (simp add: slice_def)

lemma slice_patch_outside:
  "off + length bs \<le> length p \<Longrightarrow> s + n \<le> off \<or> off + length bs \<le> s \<Longrightarrow> s + n \<le> length p \<Longrightarrow>
     slice (patch p off bs) s n = slice p s n"
  by (intro nth_equalityI) (auto simp: nth_slice nth_patch)

lemma slice_patch_inside:
  "s \<le> off \<Longrightarrow> off + length bs \<le> s + n \<Longrightarrow> s + n \<le> length p \<Longrightarrow>
     slice (patch p off bs) s n = patch (slice p s n) (off - s) bs"
  by (intro nth_equalityI) (auto simp: nth_slice nth_patch add.commute)

lemma slice_split: "slice p off (m + n) = slice p off m @ slice p (off + m) n"
  by (simp add: slice_def take_add add.commute)

lemma u16_at_slice: "off + n \<le> length p \<Longrightarrow> i + 2 \<le> n \<Longrightarrow> u16_at (slice p off n) i = u16_at p (off + i)"
  by (simp add: u16_at_def nth_slice)

lemma le_sum_append: "even (length xs) \<Longrightarrow> le_sum (xs @ ys) = le_sum xs + le_sum ys"
  by (induction xs rule: le_sum.induct) simp_all

lemma le_sum_bytes_of_u16 [simp]: "le_sum (bytes_of_u16 w) = uint w"
  by (simp add: bytes_of_u16_def)

lemma slice_nths:
  "off + 2 \<le> length p \<Longrightarrow> slice p off 2 = [p ! off, p ! (off + 1)]"
  "off + 4 \<le> length p \<Longrightarrow> slice p off 4 = [p ! off, p ! (off + 1), p ! (off + 2), p ! (off + 3)]"
  by (intro nth_equalityI; auto simp: nth_slice less_Suc_eq eval_nat_numeral)+

lemma bytes_of_u16_at: "off + 2 \<le> length p \<Longrightarrow> bytes_of_u16 (u16_at p off) = slice p off 2"
  by (simp add: slice_nths bytes_of_u16_def u16_at_def)

lemma bytes_of_u32_at: "off + 4 \<le> length p \<Longrightarrow> bytes_of_u32 (u32_at p off) = slice p off 4"
  by (simp add: slice_nths bytes_of_u32_def u32_at_def)

lemma le_sum_bytes_of_u32: "le_sum (bytes_of_u32 w) mod 65535 = uint w mod 65535"
proof -
  have "uint w = uint (le32 (byte_of 0 w) (byte_of (Suc 0) w) (byte_of 2 w) (byte_of 3 w))"
    by simp
  also have "\<dots> = uint (byte_of 0 w) + 256 * uint (byte_of (Suc 0) w)
      + 65536 * uint (byte_of 2 w) + 16777216 * uint (byte_of 3 w)"
    using unat_le32 [of "byte_of 0 w" "byte_of (Suc 0) w" "byte_of 2 w" "byte_of 3 w"]
    unfolding uint_nat by linarith
  also have "\<dots> = le_sum (bytes_of_u32 w)
      + 65535 * (uint (byte_of 2 w) + 256 * uint (byte_of 3 w))"
    by (simp add: bytes_of_u32_def uint_le16)
  finally show ?thesis
    by (simp only: mod_mult_self2)
qed

text \<open>Replacing an even-aligned field changes the sum by the difference of the two fields.\<close>

lemma le_sum_patch:
  assumes "even off" "even (length bs)" "off + length bs \<le> length p"
  shows "le_sum (patch p off bs) = le_sum p - le_sum (slice p off (length bs)) + le_sum bs"
proof -
  have "p = take off p @ slice p off (length bs) @ drop (off + length bs) p"
    by (simp add: slice_def flip: drop_drop) (metis add.commute append_take_drop_id drop_drop)
  then have "le_sum p = le_sum (take off p) + (le_sum (slice p off (length bs))
      + le_sum (drop (off + length bs) p))"
    using assms by (metis le_sum_append length_slice length_take min.absorb2 add_leD1)
  then show ?thesis
    using assms by (simp add: patch_def le_sum_append)
qed

lemma le_sum_slice_patch:
  assumes "s \<le> off" "off + length bs \<le> s + n" "s + n \<le> length p"
    and "even (off - s)" "even (length bs)"
  shows "le_sum (slice (patch p off bs) s n) =
    le_sum (slice p s n) - le_sum (slice p off (length bs)) + le_sum bs"
proof -
  have "slice (slice p s n) (off - s) (length bs) = slice p off (length bs)"
    using assms by (intro nth_equalityI) (auto simp: nth_slice)
  then show ?thesis
    using assms by (simp add: slice_patch_inside le_sum_patch)
qed

end
