(* ===== verification/Nat_Helpers.thy ===== *)
theory Nat_Helpers
  imports Natd_Common Checksum
begin

text \<open>
  The rest of \<open>xdp-natd-ebpf/src/helpers.rs\<close>: the FIB lookup, the address and port rewriting
  with its incremental checksum updates, the MAC rewriting and the values handed to the debug
  log. Raw pointers into the packet are offsets. The two rewriting routines share one contract,
  the locale \<open>address_rewriter\<close>, in which the effect on both checksums is proved once.
\<close>

section \<open>FIB lookup\<close>

text \<open>
  \<open>bpf_fib_lookup\<close> is a kernel helper: a parameter that maps the request, its size and the flags
  to a return code and the structure it wrote back. The fields the code never touches are zero
  in every request and are left out.
\<close>

record fib_params =
  fib_family :: u8
  fib_l4_protocol :: u8
  fib_ipv4_src :: u32
  fib_ipv4_dst :: u32
  fib_tot_len :: u16
  fib_ifindex :: u32
  smac :: mac
  dmac :: mac

type_synonym fib_helper = "fib_params \<Rightarrow> int \<Rightarrow> u32 \<Rightarrow> int \<times> fib_params"

definition BPF_FIB_LOOKUP_OUTPUT :: u32 where
  "BPF_FIB_LOOKUP_OUTPUT = 2"

definition SIZEOF_FIB :: int where
  "SIZEOF_FIB = 64"

definition IPPROTO_UDP :: u8 where
  "IPPROTO_UDP = 17"

definition zero_fib :: fib_params where
  "zero_fib = \<lparr>fib_family = 0, fib_l4_protocol = 0, fib_ipv4_src = 0, fib_ipv4_dst = 0,
     fib_tot_len = 0, fib_ifindex = 0, smac = Mac 0 0 0 0 0 0, dmac = Mac 0 0 0 0 0 0\<rparr>"

definition do_fib_lookup ::
    "fib_helper \<Rightarrow> fib_params \<Rightarrow> u8 \<Rightarrow> u32 \<Rightarrow> u32 \<Rightarrow> u16 \<Rightarrow> u32 \<Rightarrow> int \<times> fib_params" where
  "do_fib_lookup helper fib proto saddr daddr tot_len ifindex =
     helper (fib\<lparr>fib_family := AF_INET, fib_l4_protocol := proto, fib_ipv4_src := saddr,
       fib_ipv4_dst := daddr, fib_tot_len := tot_len, fib_ifindex := ifindex\<rparr>)
       SIZEOF_FIB BPF_FIB_LOOKUP_OUTPUT"

definition get_fib_macs ::
    "fib_helper \<Rightarrow> u32 \<Rightarrow> u32 \<Rightarrow> u8 \<Rightarrow> u16 \<Rightarrow> u32 \<Rightarrow> fib_macs option" where
  "get_fib_macs helper src_ip dst_ip proto tot_len ingress_ifindex =
     (let (rc, fib) = do_fib_lookup helper zero_fib proto src_ip dst_ip tot_len ingress_ifindex
      in if rc \<noteq> 0 then None
         else Some \<lparr>fib_smac = smac fib, fib_dmac = dmac fib\<rparr>)"

section \<open>Rewriting\<close>

definition apply_ip_dnat ::
    "nat_data \<Rightarrow> nat \<Rightarrow> nat \<Rightarrow> nat \<Rightarrow> nat \<Rightarrow> bytes \<Rightarrow> bytes option" where
  "apply_ip_dnat n ip_check udp_check dst_addr_ptr dst_port_ptr p =
     do {
       let nat_port_be = swap16 (nat_port n);
       let nat_addr_be = swap32 (nat_addr n);
       uc \<leftarrow> load_u16 p udp_check;
       p \<leftarrow> (if uc \<noteq> 0
         then do {
           port \<leftarrow> load_u16 p dst_port_ptr;
           p \<leftarrow> store_u16 p udp_check (csum_replace4 (ucast uc) (ucast port) (ucast nat_port_be));
           p \<leftarrow> store_u16 p dst_port_ptr nat_port_be;
           uc \<leftarrow> load_u16 p udp_check;
           addr \<leftarrow> load_u32 p dst_addr_ptr;
           p \<leftarrow> store_u16 p udp_check (csum_replace4 (ucast uc) addr nat_addr_be);
           uc \<leftarrow> load_u16 p udp_check;
           if uc = 0 then store_u16 p udp_check 0xFFFF else Some p
         }
         else Some p);
       ic \<leftarrow> load_u16 p ip_check;
       addr \<leftarrow> load_u32 p dst_addr_ptr;
       p \<leftarrow> store_u16 p ip_check (csum_replace4 (ucast ic) addr nat_addr_be);
       store_u32 p dst_addr_ptr nat_addr_be
     }"

definition apply_ip_snat ::
    "nat_data \<Rightarrow> nat \<Rightarrow> nat \<Rightarrow> nat \<Rightarrow> nat \<Rightarrow> bytes \<Rightarrow> bytes option" where
  "apply_ip_snat n ip_check udp_check src_addr_ptr src_port_ptr p =
     do {
       let nat_port_be = swap16 (nat_port n);
       let nat_addr_be = swap32 (nat_addr n);
       uc \<leftarrow> load_u16 p udp_check;
       p \<leftarrow> (if uc \<noteq> 0
         then do {
           port \<leftarrow> load_u16 p src_port_ptr;
           p \<leftarrow> store_u16 p udp_check (csum_replace4 (ucast uc) (ucast port) (ucast nat_port_be));
           p \<leftarrow> store_u16 p src_port_ptr nat_port_be;
           uc \<leftarrow> load_u16 p udp_check;
           addr \<leftarrow> load_u32 p src_addr_ptr;
           p \<leftarrow> store_u16 p udp_check (csum_replace4 (ucast uc) addr nat_addr_be);
           uc \<leftarrow> load_u16 p udp_check;
           if uc = 0 then store_u16 p udp_check 0xFFFF else Some p
         }
         else Some p);
       ic \<leftarrow> load_u16 p ip_check;
       addr \<leftarrow> load_u32 p src_addr_ptr;
       p \<leftarrow> store_u16 p ip_check (csum_replace4 (ucast ic) addr nat_addr_be);
       store_u32 p src_addr_ptr nat_addr_be
     }"

definition rewrite_macs :: "nat \<Rightarrow> nat \<Rightarrow> fib_macs \<Rightarrow> bytes \<Rightarrow> bytes option" where
  "rewrite_macs eth_src_addr eth_dst_addr fib p =
     do {
       p \<leftarrow> store_mac p eth_src_addr (fib_smac fib);
       store_mac p eth_dst_addr (fib_dmac fib)
     }"

section \<open>Debug output\<close>

text \<open>The values \<open>debug!\<close> prints, in the order of the format string.\<close>

definition octets_of :: "u32 \<Rightarrow> u32 list" where
  "octets_of ip = [drop_bit 24 ip AND 0xFF, drop_bit 16 ip AND 0xFF, drop_bit 8 ip AND 0xFF,
     ip AND 0xFF]"

definition log_fib_lookup :: "u32 \<Rightarrow> u32 \<Rightarrow> u16 \<Rightarrow> u32 \<Rightarrow> u32 list" where
  "log_fib_lookup src_ip dst_ip tot_len ingress_ifindex =
     octets_of src_ip @ octets_of dst_ip @ [ucast tot_len, ingress_ifindex]"

definition log_mac_address_change ::
    "nat \<Rightarrow> nat \<Rightarrow> fib_macs \<Rightarrow> bytes \<Rightarrow> (bytes \<times> bytes) option" where
  "log_mac_address_change eth_src_addr eth_dst_addr fib p =
     do {
       old_src \<leftarrow> load_mac p eth_src_addr;
       old_dst \<leftarrow> load_mac p eth_dst_addr;
       Some (mac_bytes old_src @ mac_bytes (fib_smac fib),
             mac_bytes old_dst @ mac_bytes (fib_dmac fib))
     }"

section \<open>The contract of the rewriting routines\<close>

definition new_udp_check :: "nat_data \<Rightarrow> u16 \<Rightarrow> u16 \<Rightarrow> u32 \<Rightarrow> u16" where
  "new_udp_check n uc port addr =
     (let c = csum_replace4 (ucast uc) (ucast port) (ucast (swap16 (nat_port n)));
          c = csum_replace4 (ucast c) addr (swap32 (nat_addr n))
      in if c = 0 then 0xFFFF else c)"

definition new_ip_check :: "nat_data \<Rightarrow> u16 \<Rightarrow> u32 \<Rightarrow> u16" where
  "new_ip_check n ic addr = csum_replace4 (ucast ic) addr (swap32 (nat_addr n))"

definition nat_rewrite :: "nat_data \<Rightarrow> nat \<Rightarrow> nat \<Rightarrow> nat \<Rightarrow> nat \<Rightarrow> bytes \<Rightarrow> bytes" where
  "nat_rewrite n ic uc ad po p =
     (let q = (if u16_at p uc \<noteq> 0
               then patch (patch p po (bytes_of_u16 (swap16 (nat_port n)))) uc
                 (bytes_of_u16 (new_udp_check n (u16_at p uc) (u16_at p po) (u32_at p ad)))
               else p)
      in patch (patch q ic (bytes_of_u16 (new_ip_check n (u16_at p ic) (u32_at p ad)))) ad
           (bytes_of_u32 (swap32 (nat_addr n))))"

text \<open>The fields lie in the packet and do not overlap.\<close>

definition rewrite_layout :: "nat \<Rightarrow> nat \<Rightarrow> nat \<Rightarrow> nat \<Rightarrow> bytes \<Rightarrow> bool" where
  "rewrite_layout ic uc ad po p \<longleftrightarrow>
     ic + 2 \<le> ad \<and> ad + 4 \<le> po \<and> po + 2 \<le> uc \<and> uc + 2 \<le> length p"

lemma patch_patch_same [simp]:
  "length cs = length bs \<Longrightarrow> off + length bs \<le> length p \<Longrightarrow>
     patch (patch p off cs) off bs = patch p off bs"
  by (intro nth_equalityI) (auto simp: nth_patch)

lemma patch_swap:
  "a + length bs \<le> length p \<Longrightarrow> b + length cs \<le> length p \<Longrightarrow>
     a + length bs \<le> b \<or> b + length cs \<le> a \<Longrightarrow>
     patch (patch p a bs) b cs = patch (patch p b cs) a bs"
  by (intro nth_equalityI) (auto simp: nth_patch)

lemma patch_again:
  "length zs = length xs \<Longrightarrow> a + length xs \<le> length p \<Longrightarrow> b + length ys \<le> a \<Longrightarrow>
     patch (patch (patch p a xs) b ys) a zs = patch (patch p b ys) a zs"
  by (intro nth_equalityI) (auto simp: nth_patch)

lemma length_nat_rewrite [simp]:
  "rewrite_layout ic uc ad po p \<Longrightarrow> length (nat_rewrite n ic uc ad po p) = length p"
  by (auto simp: nat_rewrite_def rewrite_layout_def Let_def)

lemma apply_ip_snat_rewrite:
  assumes "rewrite_layout ic uc ad po p"
  shows "apply_ip_snat n ic uc ad po p = Some (nat_rewrite n ic uc ad po p)"
  using assms
  by (simp add: apply_ip_snat_def nat_rewrite_def rewrite_layout_def new_udp_check_def
      new_ip_check_def Let_def mem_simps patch_again)

lemma apply_ip_dnat_rewrite:
  assumes "rewrite_layout ic uc ad po p"
  shows "apply_ip_dnat n ic uc ad po p = Some (nat_rewrite n ic uc ad po p)"
  using assms
  by (simp add: apply_ip_dnat_def nat_rewrite_def rewrite_layout_def new_udp_check_def
      new_ip_check_def Let_def mem_simps patch_again)

section \<open>Header layout\<close>

text \<open>
  Ethernet, IPv4 and UDP headers are contiguous: \<open>EthHdr::LEN\<close> is 14, \<open>Ipv4Hdr::LEN\<close> is 20 (the
  code passes on every header with options) and \<open>UdpHdr::LEN\<close> is 8. Field offsets follow.
\<close>

abbreviation "ETH_LEN \<equiv> 14 :: nat"
abbreviation "IPV4_LEN \<equiv> 20 :: nat"
abbreviation "UDP_LEN \<equiv> 8 :: nat"

abbreviation "ETH_DST \<equiv> 0 :: nat"
abbreviation "ETH_SRC \<equiv> 6 :: nat"
abbreviation "ETH_TYPE \<equiv> 12 :: nat"
abbreviation "IP_VIHL \<equiv> 14 :: nat"
abbreviation "IP_TOT_LEN \<equiv> 16 :: nat"
abbreviation "IP_FRAGS \<equiv> 20 :: nat"
abbreviation "IP_PROTO \<equiv> 23 :: nat"
abbreviation "IP_CHECK \<equiv> 24 :: nat"
abbreviation "IP_SRC \<equiv> 26 :: nat"
abbreviation "IP_DST \<equiv> 30 :: nat"
abbreviation "UDP_SRC \<equiv> 34 :: nat"
abbreviation "UDP_DST \<equiv> 36 :: nat"
abbreviation "UDP_TOT_LEN \<equiv> 38 :: nat"
abbreviation "UDP_CHECK \<equiv> 40 :: nat"
abbreviation "HEADERS_LEN \<equiv> 42 :: nat"

definition ip_header :: "bytes \<Rightarrow> bytes" where
  "ip_header p = slice p ETH_LEN IPV4_LEN"

definition udp_length :: "bytes \<Rightarrow> nat" where
  "udp_length p = unat (be16 (p ! UDP_TOT_LEN) (p ! (UDP_TOT_LEN + 1)))"

text \<open>RFC 768: source, destination, zero, protocol, UDP length, then the datagram.\<close>

definition udp_pseudo :: "bytes \<Rightarrow> bytes" where
  "udp_pseudo p = slice p IP_SRC 8 @ [0, IPPROTO_UDP] @ slice p UDP_TOT_LEN 2
     @ slice p UDP_SRC (udp_length p)"

definition udp_complete :: "bytes \<Rightarrow> bool" where
  "udp_complete p \<longleftrightarrow> UDP_LEN \<le> udp_length p \<and> UDP_SRC + udp_length p \<le> length p"

section \<open>Checksums under rewriting\<close>

locale address_rewriter =
  fixes apply_nat :: "nat_data \<Rightarrow> nat \<Rightarrow> nat \<Rightarrow> nat \<Rightarrow> nat \<Rightarrow> bytes \<Rightarrow> bytes option"
    and ad :: nat and po :: nat
  assumes apply_rewrites:
      "rewrite_layout ic uc a b p \<Longrightarrow> apply_nat n ic uc a b p = Some (nat_rewrite n ic uc a b p)"
    and fields: "ad = IP_SRC \<and> po = UDP_SRC \<or> ad = IP_DST \<and> po = UDP_DST"
begin

lemma layout: "HEADERS_LEN \<le> length p \<Longrightarrow> rewrite_layout IP_CHECK UDP_CHECK ad po p"
  using fields by (auto simp: rewrite_layout_def)

lemma apply_total:
  "HEADERS_LEN \<le> length p \<Longrightarrow> \<exists>q. apply_nat n IP_CHECK UDP_CHECK ad po p = Some q \<and> length q = length p"
  using apply_rewrites [OF layout] layout by simp

lemma apply_eq:
  assumes "HEADERS_LEN \<le> length p" "apply_nat n IP_CHECK UDP_CHECK ad po p = Some q"
  shows "q = nat_rewrite n IP_CHECK UDP_CHECK ad po p"
  using assms apply_rewrites [OF layout] by simp

lemma ip_header_sum:
  assumes "HEADERS_LEN \<le> length p" "apply_nat n IP_CHECK UDP_CHECK ad po p = Some q"
  shows "le_sum (ip_header q) = le_sum (ip_header p)
    - uint (u16_at p IP_CHECK) + uint (new_ip_check n (u16_at p IP_CHECK) (u32_at p ad))
    - le_sum (bytes_of_u32 (u32_at p ad)) + le_sum (bytes_of_u32 (swap32 (nat_addr n)))"
proof -
  have u16: "le_sum (slice p IP_CHECK 2) = uint (u16_at p IP_CHECK)"
    using assms(1) by (simp add: bytes_of_u16_at [symmetric])
  have u32: "le_sum (slice p ad 4) = le_sum (bytes_of_u32 (u32_at p ad))"
    using assms(1) fields by (auto simp: bytes_of_u32_at)
  show ?thesis
    unfolding apply_eq [OF assms] ip_header_def nat_rewrite_def Let_def
    using assms(1) fields u16 u32
    by (auto simp: le_sum_slice_patch slice_patch_outside)
qed

lemma ip_header_sum_mod:
  assumes "HEADERS_LEN \<le> length p" "apply_nat n IP_CHECK UDP_CHECK ad po p = Some q"
  shows "le_sum (ip_header q) mod 65535 = le_sum (ip_header p) mod 65535"
proof -
  let ?c = "u16_at p IP_CHECK" and ?a = "u32_at p ad" and ?b = "swap32 (nat_addr n)"
  let ?S = "le_sum (ip_header p)"
  have c: "uint (new_ip_check n ?c ?a) mod 65535 = (uint ?c + uint ?a - uint ?b) mod 65535"
    by (simp add: new_ip_check_def uint_csum_replace4_field)
  have "le_sum (ip_header q) mod 65535
      = ((?S - uint ?c - le_sum (bytes_of_u32 ?a)) + uint (new_ip_check n ?c ?a)
          + le_sum (bytes_of_u32 ?b)) mod 65535"
    by (simp add: ip_header_sum [OF assms] algebra_simps)
  also have "\<dots> = ((?S - uint ?c - uint ?a) + (uint ?c + uint ?a - uint ?b) + uint ?b) mod 65535"
    by (intro mod_add_cong mod_diff_cong c le_sum_bytes_of_u32 refl)
  finally show ?thesis by simp
qed

lemma header_byte_kept:
  assumes "HEADERS_LEN \<le> length p" "apply_nat n IP_CHECK UDP_CHECK ad po p = Some q"
    and "i < length p" "i < IP_CHECK \<or> HEADERS_LEN \<le> i"
  shows "q ! i = p ! i"
  unfolding apply_eq [OF assms(1,2)] nat_rewrite_def Let_def
  using assms(1,3,4) fields by (auto simp: nth_patch)

lemma ip_header_valid:
  assumes "HEADERS_LEN \<le> length p" "apply_nat n IP_CHECK UDP_CHECK ad po p = Some q"
    and "p ! IP_VIHL \<noteq> 0"
  shows "inet_valid (ip_header q) \<longleftrightarrow> inet_valid (ip_header p)"
proof -
  have len: "length q = length p"
    using apply_total [OF assms(1), of n] assms(2) by simp
  have "p ! IP_VIHL \<in> set (ip_header p)"
    using assms(1) nth_mem [of 0 "ip_header p"] by (simp add: ip_header_def nth_slice)
  moreover have "q ! IP_VIHL = p ! IP_VIHL"
    using header_byte_kept [OF assms(1,2)] assms(1) by simp
  then have "p ! IP_VIHL \<in> set (ip_header q)"
    using assms(1) len nth_mem [of 0 "ip_header q"] by (simp add: ip_header_def nth_slice)
  ultimately show ?thesis
    using assms(3) ip_header_sum_mod [OF assms(1,2)] by (simp add: inet_valid_iff)
qed

lemma udp_length_kept:
  assumes "HEADERS_LEN \<le> length p" "apply_nat n IP_CHECK UDP_CHECK ad po p = Some q"
  shows "udp_length q = udp_length p" "slice q UDP_TOT_LEN 2 = slice p UDP_TOT_LEN 2"
  unfolding apply_eq [OF assms] nat_rewrite_def Let_def udp_length_def
  using assms(1) fields by (auto simp: nth_patch slice_patch_outside)

lemma udp_sum:
  assumes "HEADERS_LEN \<le> length p" "apply_nat n IP_CHECK UDP_CHECK ad po p = Some q"
    and "udp_complete p" "u16_at p UDP_CHECK \<noteq> 0"
  shows "le_sum (udp_pseudo q) = le_sum (udp_pseudo p)
    - uint (u16_at p UDP_CHECK)
    + uint (new_udp_check n (u16_at p UDP_CHECK) (u16_at p po) (u32_at p ad))
    - uint (u16_at p po) + uint (swap16 (nat_port n))
    - le_sum (bytes_of_u32 (u32_at p ad)) + le_sum (bytes_of_u32 (swap32 (nat_addr n)))"
proof -
  have u16: "le_sum (slice p UDP_CHECK 2) = uint (u16_at p UDP_CHECK)"
    "le_sum (slice p po 2) = uint (u16_at p po)"
    using assms(1) fields by (auto simp: bytes_of_u16_at [symmetric])
  have u32: "le_sum (slice p ad 4) = le_sum (bytes_of_u32 (u32_at p ad))"
    using assms(1) fields by (auto simp: bytes_of_u32_at)
  have addrs: "le_sum (slice q IP_SRC 8) = le_sum (slice p IP_SRC 8)
      - le_sum (slice p ad 4) + le_sum (bytes_of_u32 (swap32 (nat_addr n)))"
    unfolding apply_eq [OF assms(1,2)] nat_rewrite_def Let_def
    using assms(1) fields by (auto simp: le_sum_slice_patch slice_patch_outside)
  have datagram: "le_sum (slice q UDP_SRC (udp_length p)) = le_sum (slice p UDP_SRC (udp_length p))
      - le_sum (slice p UDP_CHECK 2)
      + uint (new_udp_check n (u16_at p UDP_CHECK) (u16_at p po) (u32_at p ad))
      - le_sum (slice p po 2) + uint (swap16 (nat_port n))"
    unfolding apply_eq [OF assms(1,2)] nat_rewrite_def Let_def
    using assms fields
    by (auto simp: le_sum_slice_patch slice_patch_outside udp_complete_def)
  have split: "le_sum (udp_pseudo r) = le_sum (slice r IP_SRC 8) + le_sum [0, IPPROTO_UDP]
      + le_sum (slice r UDP_TOT_LEN 2) + le_sum (slice r UDP_SRC (udp_length r))"
    if "HEADERS_LEN \<le> length r" for r
    using that by (simp add: udp_pseudo_def le_sum_append)
  have "length q = length p"
    using apply_total [OF assms(1), of n] assms(2) by simp
  then show ?thesis
    using assms(1) by (simp add: split udp_length_kept [OF assms(1,2)] addrs datagram u16 u32)
qed

lemma new_udp_check_mod:
  "uint (new_udp_check n uc port addr) mod 65535 =
     (uint uc + uint port - uint (swap16 (nat_port n)) + uint addr - uint (swap32 (nat_addr n)))
       mod 65535"
proof -
  have port: "uint (ucast w :: u32) = uint w" for w :: u16
    using uint_word_less(2) [of w] by (simp add: unsigned_ucast_eq take_bit_eq_mod)
  define c1 where "c1 = csum_replace4 (ucast uc) (ucast port) (ucast (swap16 (nat_port n)))"
  define c2 where "c2 = csum_replace4 (ucast c1) addr (swap32 (nat_addr n))"
  have c1: "uint c1 mod 65535 = (uint uc + uint port - uint (swap16 (nat_port n))) mod 65535"
    by (simp add: c1_def uint_csum_replace4_field port)
  have "uint (new_udp_check n uc port addr) mod 65535 = uint c2 mod 65535"
    by (auto simp: new_udp_check_def Let_def c1_def c2_def)
  also have "\<dots> = (uint c1 + uint addr - uint (swap32 (nat_addr n))) mod 65535"
    by (simp add: c2_def uint_csum_replace4_field)
  also have "\<dots> = ((uint uc + uint port - uint (swap16 (nat_port n))) + uint addr
      - uint (swap32 (nat_addr n))) mod 65535"
    by (intro mod_diff_cong mod_add_cong c1 refl)
  finally show ?thesis by simp
qed

lemma udp_sum_mod:
  assumes "HEADERS_LEN \<le> length p" "apply_nat n IP_CHECK UDP_CHECK ad po p = Some q"
    and "udp_complete p" "u16_at p UDP_CHECK \<noteq> 0"
  shows "le_sum (udp_pseudo q) mod 65535 = le_sum (udp_pseudo p) mod 65535"
proof -
  let ?u = "u16_at p UDP_CHECK" and ?o = "u16_at p po" and ?a = "u32_at p ad"
  let ?b = "swap32 (nat_addr n)" and ?t = "swap16 (nat_port n)"
  let ?S = "le_sum (udp_pseudo p)"
  have "le_sum (udp_pseudo q) mod 65535
      = ((?S - uint ?u - uint ?o + uint ?t - le_sum (bytes_of_u32 ?a))
          + uint (new_udp_check n ?u ?o ?a) + le_sum (bytes_of_u32 ?b)) mod 65535"
    by (simp add: udp_sum [OF assms] algebra_simps)
  also have "\<dots> = ((?S - uint ?u - uint ?o + uint ?t - uint ?a)
      + (uint ?u + uint ?o - uint ?t + uint ?a - uint ?b) + uint ?b) mod 65535"
    by (intro mod_add_cong mod_diff_cong new_udp_check_mod le_sum_bytes_of_u32 refl)
  finally show ?thesis by simp
qed

lemma udp_valid:
  assumes "HEADERS_LEN \<le> length p" "apply_nat n IP_CHECK UDP_CHECK ad po p = Some q"
    and "udp_complete p" "u16_at p UDP_CHECK \<noteq> 0"
  shows "inet_valid (udp_pseudo q) \<longleftrightarrow> inet_valid (udp_pseudo p)"
proof -
  have "IPPROTO_UDP \<in> set (udp_pseudo r)" for r
    by (simp add: udp_pseudo_def)
  moreover have "IPPROTO_UDP \<noteq> 0"
    by (simp add: IPPROTO_UDP_def)
  ultimately show ?thesis
    using udp_sum_mod [OF assms] by (simp add: inet_valid_iff [of IPPROTO_UDP])
qed

lemma udp_check_nonzero:
  assumes "HEADERS_LEN \<le> length p" "apply_nat n IP_CHECK UDP_CHECK ad po p = Some q"
  shows "u16_at q UDP_CHECK = 0 \<longleftrightarrow> u16_at p UDP_CHECK = 0"
  unfolding apply_eq [OF assms] nat_rewrite_def Let_def
  using assms(1) fields by (auto simp: mem_simps new_udp_check_def Let_def)

text \<open>
  On a valid header the incremental update is the checksum recomputed from scratch: the
  updated field is in canonical form, never \<open>0xffff\<close>.
\<close>

lemma ip_check_recomputed:
  assumes "HEADERS_LEN \<le> length p" "apply_nat n IP_CHECK UDP_CHECK ad po p = Some q"
    and "p ! IP_VIHL \<noteq> 0" "inet_valid (ip_header p)"
  shows "swap16 (u16_at q IP_CHECK) = inet_checksum (patch (ip_header q) 10 (bytes_of_u16 0))"
proof -
  let ?c = "u16_at q IP_CHECK" and ?h = "ip_header q"
  have len: "length q = length p"
    using apply_total [OF assms(1), of n] assms(2) by simp
  have q0: "q ! IP_VIHL \<noteq> 0"
    using header_byte_kept [OF assms(1,2)] assms(1,3) by simp
  have hd: "?h ! 0 = q ! IP_VIHL" "length ?h = 20"
    using assms(1) len by (simp_all add: ip_header_def nth_slice)
  have "q ! IP_VIHL \<in> set (patch ?h 10 (bytes_of_u16 0))"
    using hd nth_mem [of 0 "patch ?h 10 (bytes_of_u16 0)"] by (simp add: nth_patch)
  moreover have "q ! IP_VIHL \<in> set ?h"
    using hd nth_mem [of 0 ?h] by simp
  moreover have "inet_valid ?h"
    using ip_header_valid [OF assms(1-3)] assms(4) by simp
  ultimately have sum: "le_sum ?h mod 65535 = 0" and S: "inet_sum (patch ?h 10 (bytes_of_u16 0)) \<noteq> 0"
    using q0 by (auto simp: inet_valid_iff inet_sum_eq_0)
  have "slice ?h 10 2 = slice q IP_CHECK 2"
    using assms(1) len by (simp add: ip_header_def slice_nths nth_slice)
  then have "le_sum (patch ?h 10 (bytes_of_u16 0)) = le_sum ?h - uint ?c"
    using assms(1) len hd(2) bytes_of_u16_at [of IP_CHECK q, symmetric]
    by (simp add: le_sum_patch)
  moreover have "?c \<noteq> 0xFFFF"
  proof -
    have "?c = new_ip_check n (u16_at p IP_CHECK) (u32_at p ad)"
      unfolding apply_eq [OF assms(1,2)] nat_rewrite_def Let_def
      using assms(1) fields by (auto simp: mem_simps)
    then have "uint ?c < 65535"
      by (simp add: new_ip_check_def uint_csum_replace4_field)
    then show ?thesis by auto
  qed
  ultimately show ?thesis
    using recomputed_checksum [OF S, of ?c] sum by simp
qed

lemma rewritten_address:
  assumes "HEADERS_LEN \<le> length p" "apply_nat n IP_CHECK UDP_CHECK ad po p = Some q"
  shows "u32_at q ad = swap32 (nat_addr n)"
  unfolding apply_eq [OF assms] nat_rewrite_def Let_def
  using assms(1) fields by (auto simp: mem_simps)

lemma rewritten_port:
  assumes "HEADERS_LEN \<le> length p" "apply_nat n IP_CHECK UDP_CHECK ad po p = Some q"
  shows "u16_at q po = (if u16_at p UDP_CHECK = 0 then u16_at p po else swap16 (nat_port n))"
  unfolding apply_eq [OF assms] nat_rewrite_def Let_def
  using assms(1) fields by (auto simp: mem_simps)

end

text \<open>Both routines of the code satisfy the contract, each at the offsets its callers pass.\<close>

interpretation snat: address_rewriter apply_ip_snat IP_SRC UDP_SRC
  by unfold_locales (simp_all add: apply_ip_snat_rewrite)

interpretation dnat: address_rewriter apply_ip_dnat IP_DST UDP_DST
  by unfold_locales (simp_all add: apply_ip_dnat_rewrite)

end
