(* ===== verification/Conntrack.thy ===== *)
theory Conntrack
  imports Bpf_Maps Nat_Helpers
begin

text \<open>
  Connection tracking: the two handlers \<open>process_udp_snat\<close> and \<open>process_udp_dnat\<close> of
  \<open>xdp-natd-ebpf/src/main.rs\<close>, with the lazy timeout refresh they both contain. A handler takes
  the operations of the conntrack map, the kernel environment of this run, the addresses its
  caller decoded, the packet and the map. Its value is \<open>None\<close> when it would touch memory outside
  the packet, else the Rust result (\<open>Inl ()\<close> for \<open>Err(())\<close>) with the packet and the map after it.
\<close>

definition THRESHOLD_NS :: u64 where
  "THRESHOLD_NS = 1000000000"

text \<open>
  What one run of a program sees of the kernel: the coarse monotonic clock, the FIB helper, slot 0
  of \<open>PNIC_ARRAY\<close>, \<open>EXPOSE_MAP\<close>, the ingress interface, and the outcome of a redirect through
  \<open>REDIRECT_MAP\<close> with the flags given (\<open>Inr\<close> for \<open>Ok\<close>, \<open>Inl\<close> for \<open>Err\<close>).
\<close>

record kernel_env =
  ke_time :: u64
  ke_fib :: fib_helper
  ke_pnic :: "nic_info option"
  ke_expose :: "u16 \<Rightarrow> container_info option"
  ke_ifindex :: u32
  ke_redirect :: "u32 \<Rightarrow> u64 \<Rightarrow> u32 + u32"

type_synonym 'm conntrack_ops = "('m, connection_tuple, flow_state) bpf_map_ops"
type_synonym ('a, 'm) xdp_run = "((unit + 'a) \<times> bytes \<times> 'm) option"

section \<open>Timeout refresh\<close>

definition refresh_flow :: "u64 \<Rightarrow> flow_state \<Rightarrow> flow_state \<times> bool" where
  "refresh_flow time st =
     (case flow_direction st of
        Original \<Rightarrow>
          (let expected_timeout = time + (if seen_reply st then TIMEOUT_EST else TIMEOUT_NEW) in
           if expected_timeout > timeout st \<and> expected_timeout - timeout st > THRESHOLD_NS
           then (st\<lparr>timeout := expected_timeout\<rparr>, True)
           else (st, False))
      | Reply \<Rightarrow>
          (let expected_timeout = time + TIMEOUT_EST in
           if \<not> seen_reply st \<or>
              (expected_timeout > timeout st \<and> expected_timeout - timeout st > THRESHOLD_NS)
           then (st\<lparr>seen_reply := True, timeout := expected_timeout\<rparr>, True)
           else (st, False)))"

text \<open>The flow's own entry is written in place; then, if anything changed, the reverse entry.\<close>

definition touch_flow :: "'m conntrack_ops \<Rightarrow> u64 \<Rightarrow> 'm \<Rightarrow> connection_tuple \<Rightarrow> flow_state \<Rightarrow> 'm" where
  "touch_flow K time ct key st =
     (let (st', update) = refresh_flow time st in if update then bm_write K ct key st' else ct)"

definition sync_reverse :: "'m conntrack_ops \<Rightarrow> 'm \<Rightarrow> connection_tuple \<Rightarrow> flow_state \<Rightarrow> 'm" where
  "sync_reverse K ct rkey st =
     (case bm_lookup K ct rkey of
        None \<Rightarrow> ct
      | Some rev_conn \<Rightarrow>
          bm_write K ct rkey (rev_conn\<lparr>seen_reply := seen_reply st, timeout := timeout st\<rparr>))"

section \<open>Outgoing packets\<close>

definition process_udp_snat ::
    "'m conntrack_ops \<Rightarrow> kernel_env \<Rightarrow> u32 \<Rightarrow> u32 \<Rightarrow> bytes \<Rightarrow> 'm \<Rightarrow> (nat_data option, 'm) xdp_run"
where
  "process_udp_snat K E src_ip dst_ip p ct = do {
     sp \<leftarrow> load_u16 p UDP_SRC;
     dp \<leftarrow> load_u16 p UDP_DST;
     let src_port = swap16 sp;
     let dst_port = swap16 dp;
     let skey = connection_tuple_new src_ip dst_ip src_port dst_port;
     case bm_lookup K ct skey of
       Some st \<Rightarrow> do {
         let (st', update_reverse) = refresh_flow (ke_time E) st;
         let ct = touch_flow K (ke_time E) ct skey st;
         let snat = flow_nat st';
         p \<leftarrow> apply_ip_snat snat IP_CHECK UDP_CHECK IP_SRC UDP_SRC p;
         let dkey = connection_tuple_new dst_ip (nat_addr snat) dst_port (nat_port snat);
         let ct = (if update_reverse then sync_reverse K ct dkey st' else ct);
         Some (Inr (Some snat), p, ct)
       }
     | None \<Rightarrow> do {
         tl \<leftarrow> load_u16 p IP_TOT_LEN;
         let tot_len = swap16 tl;
         cont_mac \<leftarrow> load_mac p ETH_SRC;
         case ke_pnic E of
           None \<Rightarrow> Some (Inr None, p, ct)
         | Some info \<Rightarrow> do {
             let pnic_ip = nic_ip info;
             let pnic_ifindex = nic_ifindex info;
             let host_port = src_port;
             case get_fib_macs (ke_fib E) (swap32 pnic_ip) (swap32 dst_ip) IPPROTO_UDP tot_len
                    pnic_ifindex of
               None \<Rightarrow> Some (Inr None, p, ct)
             | Some macs \<Rightarrow> do {
                 let snat = nat_data_new pnic_ip host_port macs 0;
                 let dnat_macs = \<lparr>fib_smac = fib_smac macs, fib_dmac = cont_mac\<rparr>;
                 let dkey = connection_tuple_new dst_ip pnic_ip dst_port host_port;
                 let dnat = nat_data_new src_ip src_port dnat_macs src_ip;
                 let time = ke_time E;
                 let conn_orig = flow_state_new snat Original (time + TIMEOUT_NEW);
                 let conn_reply = flow_state_new dnat Reply (time + TIMEOUT_NEW);
                 let ct = snd (bm_insert K ct skey conn_orig BPF_NOEXIST);
                 let ct = snd (bm_insert K ct dkey conn_reply BPF_NOEXIST);
                 p \<leftarrow> apply_ip_snat snat IP_CHECK UDP_CHECK IP_SRC UDP_SRC p;
                 Some (Inr (Some snat), p, ct)
               }
           }
       }
   }"

section \<open>Incoming packets\<close>

definition process_udp_dnat ::
    "'m conntrack_ops \<Rightarrow> kernel_env \<Rightarrow> u32 \<Rightarrow> u32 \<Rightarrow> bytes \<Rightarrow> 'm \<Rightarrow> (nat_data option, 'm) xdp_run"
where
  "process_udp_dnat K E src_ip dst_ip p ct = do {
     sp \<leftarrow> load_u16 p UDP_SRC;
     dp \<leftarrow> load_u16 p UDP_DST;
     let src_port = swap16 sp;
     let dst_port = swap16 dp;
     let key = connection_tuple_new src_ip dst_ip src_port dst_port;
     case bm_lookup K ct key of
       Some st \<Rightarrow> do {
         let (st', update_reverse) = refresh_flow (ke_time E) st;
         let ct = touch_flow K (ke_time E) ct key st;
         let dnat = flow_nat st';
         p \<leftarrow> apply_ip_dnat dnat IP_CHECK UDP_CHECK IP_DST UDP_DST p;
         let skey = connection_tuple_new (nat_addr dnat) src_ip (nat_port dnat) src_port;
         let ct = (if update_reverse then sync_reverse K ct skey st' else ct);
         Some (Inr (Some dnat), p, ct)
       }
     | None \<Rightarrow>
         (case ke_expose E dst_port of
            None \<Rightarrow> Some (Inr None, p, ct)
          | Some info \<Rightarrow> do {
              let ifindex = ke_ifindex E;
              tl \<leftarrow> load_u16 p IP_TOT_LEN;
              let tot_len = swap16 tl;
              case get_fib_macs (ke_fib E) (swap32 dst_ip) (swap32 src_ip) IPPROTO_UDP tot_len
                     ifindex of
                None \<Rightarrow> Some (Inr None, p, ct)
              | Some macs \<Rightarrow> do {
                  host_mac \<leftarrow> load_mac p ETH_DST;
                  let dnat_macs = \<lparr>fib_smac = host_mac, fib_dmac = container_mac info\<rparr>;
                  let dkey = connection_tuple_new src_ip dst_ip src_port dst_port;
                  let dnat = nat_data_new (container_ip info) (container_port info) dnat_macs
                               (container_ip info);
                  let snat = nat_data_new dst_ip dst_port macs 0;
                  let skey = connection_tuple_new (container_ip info) src_ip
                               (container_port info) src_port;
                  let time = ke_time E;
                  let conn_orig = flow_state_new dnat Original (time + TIMEOUT_NEW);
                  let conn_reply = flow_state_new snat Reply (time + TIMEOUT_NEW);
                  let ct = snd (bm_insert K ct dkey conn_orig BPF_NOEXIST);
                  let ct = snd (bm_insert K ct skey conn_reply BPF_NOEXIST);
                  p \<leftarrow> apply_ip_dnat dnat IP_CHECK UDP_CHECK IP_DST UDP_DST p;
                  Some (Inr (Some dnat), p, ct)
                }
            })
   }"

section \<open>The refresh, as arithmetic\<close>

text \<open>The lifetime a packet of this flow is entitled to.\<close>

definition lifetime :: "bool \<Rightarrow> nat" where
  "lifetime seen = (if seen then 180000000000 else 30000000000)"

text \<open>The clock is far enough from wrapping (584 years of uptime) for a timeout to be added.\<close>

definition clock_ok :: "u64 \<Rightarrow> bool" where
  "clock_ok time \<longleftrightarrow> unat time + 180000000000 < 2 ^ 64"

lemma clock_ok_add:
  assumes "clock_ok time"
  shows "unat (time + TIMEOUT_EST) = unat time + 180000000000"
    and "unat (time + TIMEOUT_NEW) = unat time + 30000000000"
  using assms by (simp_all add: clock_ok_def TIMEOUT_EST_def TIMEOUT_NEW_def unat_word_ariths)

lemma threshold_exceeded:
  "e > t \<and> e - t > THRESHOLD_NS \<longleftrightarrow> unat e > unat t + 1000000000" for e t :: u64
proof (cases "e > t")
  case True
  then have "unat (e - t) = unat e - unat t"
    by (simp add: unat_sub less_imp_le)
  with True show ?thesis
    by (auto simp: THRESHOLD_NS_def word_less_nat_alt)
qed (auto simp: word_less_nat_alt)

lemma refresh_flow_unchanged: "\<not> snd (refresh_flow time st) \<Longrightarrow> fst (refresh_flow time st) = st"
  by (auto simp: refresh_flow_def Let_def split: direction.splits if_splits)

lemma refresh_flow_identity [simp]:
  "flow_nat (fst (refresh_flow time st)) = flow_nat st"
  "flow_direction (fst (refresh_flow time st)) = flow_direction st"
  by (auto simp: refresh_flow_def Let_def split: direction.splits)

lemma refresh_flow_seen:
  "seen_reply (fst (refresh_flow time st)) \<longleftrightarrow> seen_reply st \<or> flow_direction st = Reply"
  by (auto simp: refresh_flow_def Let_def split: direction.splits)

lemma refresh_flow_timeout:
  assumes "clock_ok time"
  shows "unat (timeout (fst (refresh_flow time st))) =
    (let expected = unat time + lifetime (seen_reply (fst (refresh_flow time st))) in
     if flow_direction st = Reply \<and> \<not> seen_reply st \<or> unat (timeout st) + 1000000000 < expected
     then expected else unat (timeout st))"
  by (auto simp: refresh_flow_def Let_def threshold_exceeded clock_ok_add [OF assms(1)]
      lifetime_def split: direction.splits)

text \<open>After a packet the flow lives at least its lifetime less the update threshold.\<close>

lemma refresh_flow_lower:
  assumes "clock_ok time"
  shows "unat time + lifetime (seen_reply (fst (refresh_flow time st)))
    \<le> unat (timeout (fst (refresh_flow time st))) + 1000000000"
  unfolding refresh_flow_timeout [OF assms] by (auto simp: Let_def)

lemma refresh_flow_upper:
  assumes "clock_ok time" and "unat (timeout st) \<le> unat time + 180000000000"
  shows "unat (timeout (fst (refresh_flow time st))) \<le> unat time + 180000000000"
  unfolding refresh_flow_timeout [OF assms(1)]
  using assms(2) by (auto simp: Let_def lifetime_def)

lemma refresh_flow_mono:
  assumes "clock_ok time" and "unat (timeout st) \<le> unat time + 180000000000"
  shows "unat (timeout st) \<le> unat (timeout (fst (refresh_flow time st)))"
  unfolding refresh_flow_timeout [OF assms(1)]
  using assms(2) by (auto simp: Let_def lifetime_def refresh_flow_seen)

section \<open>Effect of a hit on the map\<close>

definition hit_ct ::
    "'m conntrack_ops \<Rightarrow> u64 \<Rightarrow> 'm \<Rightarrow> connection_tuple \<Rightarrow> connection_tuple \<Rightarrow> flow_state \<Rightarrow> 'm" where
  "hit_ct K time ct key rkey st =
     (let (st', update) = refresh_flow time st in
      if update then sync_reverse K (bm_write K ct key st') rkey st' else ct)"

definition with_times :: "flow_state \<Rightarrow> flow_state \<Rightarrow> flow_state" where
  "with_times st r = r\<lparr>seen_reply := seen_reply st, timeout := timeout st\<rparr>"

lemma with_times_sel [simp]:
  "flow_nat (with_times st r) = flow_nat r" "flow_direction (with_times st r) = flow_direction r"
  "seen_reply (with_times st r) = seen_reply st" "timeout (with_times st r) = timeout st"
  by (simp_all add: with_times_def)

lemma with_times_self [simp]: "with_times st st = st"
  by (simp add: with_times_def)

text \<open>The two entries of a new flow, inserted in the order of the code.\<close>

definition create_ct ::
    "'m conntrack_ops \<Rightarrow> 'm \<Rightarrow> connection_tuple \<Rightarrow> flow_state \<Rightarrow> connection_tuple \<Rightarrow> flow_state \<Rightarrow> 'm"
where
  "create_ct K ct k1 e1 k2 e2 =
     snd (bm_insert K (snd (bm_insert K ct k1 e1 BPF_NOEXIST)) k2 e2 BPF_NOEXIST)"

locale conntrack_map = bpf_hash K
  for K :: "('m, connection_tuple, flow_state) bpf_map_ops"
begin

lemma lookup_sync_reverse:
  "bm_lookup K (sync_reverse K m rk st) =
     (case bm_lookup K m rk of None \<Rightarrow> bm_lookup K m
      | Some r \<Rightarrow> (bm_lookup K m)(rk \<mapsto> with_times st r))"
  by (auto simp: sync_reverse_def with_times_def write_present split: option.split)

lemma lookup_hit_ct:
  assumes "bm_lookup K m key = Some st"
  shows "bm_lookup K (hit_ct K time m key rkey st) k =
    (if \<not> snd (refresh_flow time st) then bm_lookup K m k
     else if k = key then Some (fst (refresh_flow time st))
     else if k = rkey then map_option (with_times (fst (refresh_flow time st))) (bm_lookup K m k)
     else bm_lookup K m k)"
  using assms
  by (auto simp: hit_ct_def split_beta lookup_sync_reverse write_present split: option.split)

lemma lookup_hit_ct_key:
  "bm_lookup K m key = Some st \<Longrightarrow>
     bm_lookup K (hit_ct K time m key rkey st) key = Some (fst (refresh_flow time st))"
  by (simp add: lookup_hit_ct refresh_flow_unchanged)

lemma lookup_hit_ct_dom:
  "bm_lookup K m key = Some st \<Longrightarrow>
     dom (bm_lookup K (hit_ct K time m key rkey st)) = dom (bm_lookup K m)"
  by (auto simp: lookup_hit_ct split: if_splits)

lemma create_keeps:
  "bm_lookup K m k = Some st \<Longrightarrow> bm_lookup K (create_ct K m a x b y) k = Some st"
  by (simp add: create_ct_def insert_noexist_keeps)

text \<open>Two inserts with \<open>BPF_NOEXIST\<close>, results ignored, as the handlers create a flow.\<close>

lemma lookup_insert_pair:
  assumes "bm_lookup K m a = None"
    and "m1 = snd (bm_insert K m a x BPF_NOEXIST)"
  shows "bm_lookup K (snd (bm_insert K m1 b y BPF_NOEXIST)) k =
    (if k = a \<and> insert_ok K m a x then Some x
     else if k = b \<and> insert_ok K m1 b y then Some y
     else bm_lookup K m k)"
  using insert_ok_fresh [of m1 b y] assms by (auto simp: lookup_insert_noexist)

end

text \<open>With room for two more keys both inserts of a new flow succeed.\<close>

locale conntrack_store = conntrack_map K + bpf_hash_bounded K max_entries
  for K :: "('m, connection_tuple, flow_state) bpf_map_ops" and max_entries :: nat
begin

lemma create_with_room:
  assumes "bm_lookup K m a = None" "bm_lookup K m b = None" "a \<noteq> b"
    and "card (dom (bm_lookup K m)) + 2 \<le> max_entries"
  shows "bm_lookup K (create_ct K m a x b y) = (bm_lookup K m)(a \<mapsto> x, b \<mapsto> y)"
proof -
  have a: "insert_ok K m a x"
    using assms by (simp add: insert_ok_iff)
  let ?m1 = "snd (bm_insert K m a x BPF_NOEXIST)"
  have m1: "bm_lookup K ?m1 = (bm_lookup K m)(a \<mapsto> x)"
    using a by (simp add: lookup_insert_noexist)
  then have "card (dom (bm_lookup K ?m1)) \<le> card (dom (bm_lookup K m)) + 1"
    by (simp add: card_insert_if finite_entries)
  then have "insert_ok K ?m1 b y"
    using assms m1 by (simp add: insert_ok_iff)
  with m1 show ?thesis
    by (simp add: create_ct_def lookup_insert_noexist)
qed

end

interpretation conntrack_ref: conntrack_store
    "table_ops UDP_CONNTRACK_ENTRIES" UDP_CONNTRACK_ENTRIES
  by (intro conntrack_store.intro conntrack_map.intro table_ops_hash table_ops_bounded)

section \<open>Every branch of the handlers\<close>

lemma bind_if: "Option.bind (if b then x else y) f = (if b then Option.bind x f else Option.bind y f)"
  by simp

lemma process_udp_snat_hit:
  assumes "HEADERS_LEN \<le> length p"
    and "bm_lookup K ct (connection_tuple_new s d (swap16 (u16_at p UDP_SRC))
           (swap16 (u16_at p UDP_DST))) = Some st"
  shows "process_udp_snat K E s d p ct =
    Some (Inr (Some (flow_nat st)),
      nat_rewrite (flow_nat st) IP_CHECK UDP_CHECK IP_SRC UDP_SRC p,
      hit_ct K (ke_time E) ct
        (connection_tuple_new s d (swap16 (u16_at p UDP_SRC)) (swap16 (u16_at p UDP_DST)))
        (connection_tuple_new d (nat_addr (flow_nat st)) (swap16 (u16_at p UDP_DST))
          (nat_port (flow_nat st))) st)"
  using assms
  by (simp add: process_udp_snat_def mem_simps Let_def split_beta touch_flow_def hit_ct_def
      snat.apply_rewrites [OF snat.layout])

lemma process_udp_dnat_hit:
  assumes "HEADERS_LEN \<le> length p"
    and "bm_lookup K ct (connection_tuple_new s d (swap16 (u16_at p UDP_SRC))
           (swap16 (u16_at p UDP_DST))) = Some st"
  shows "process_udp_dnat K E s d p ct =
    Some (Inr (Some (flow_nat st)),
      nat_rewrite (flow_nat st) IP_CHECK UDP_CHECK IP_DST UDP_DST p,
      hit_ct K (ke_time E) ct
        (connection_tuple_new s d (swap16 (u16_at p UDP_SRC)) (swap16 (u16_at p UDP_DST)))
        (connection_tuple_new (nat_addr (flow_nat st)) s (nat_port (flow_nat st))
          (swap16 (u16_at p UDP_SRC))) st)"
  using assms
  by (simp add: process_udp_dnat_def mem_simps Let_def split_beta touch_flow_def hit_ct_def
      dnat.apply_rewrites [OF dnat.layout])

definition snat_translation :: "nic_info \<Rightarrow> u16 \<Rightarrow> fib_macs \<Rightarrow> nat_data" where
  "snat_translation info sp macs = nat_data_new (nic_ip info) sp macs 0"

definition snat_reply_translation :: "u32 \<Rightarrow> u16 \<Rightarrow> fib_macs \<Rightarrow> mac \<Rightarrow> nat_data" where
  "snat_reply_translation s sp macs cmac =
     nat_data_new s sp \<lparr>fib_smac = fib_smac macs, fib_dmac = cmac\<rparr> s"

definition dnat_translation :: "container_info \<Rightarrow> mac \<Rightarrow> nat_data" where
  "dnat_translation info hmac =
     nat_data_new (container_ip info) (container_port info)
       \<lparr>fib_smac = hmac, fib_dmac = container_mac info\<rparr> (container_ip info)"

definition dnat_reply_translation :: "u32 \<Rightarrow> u16 \<Rightarrow> fib_macs \<Rightarrow> nat_data" where
  "dnat_reply_translation d dp macs = nat_data_new d dp macs 0"

lemmas translation_defs =
  snat_translation_def snat_reply_translation_def dnat_translation_def dnat_reply_translation_def

text \<open>The FIB question each handler asks about a new flow.\<close>

definition snat_route :: "kernel_env \<Rightarrow> nic_info \<Rightarrow> u32 \<Rightarrow> bytes \<Rightarrow> fib_macs option" where
  "snat_route E info d p = get_fib_macs (ke_fib E) (swap32 (nic_ip info)) (swap32 d) IPPROTO_UDP
     (swap16 (u16_at p IP_TOT_LEN)) (nic_ifindex info)"

definition dnat_route :: "kernel_env \<Rightarrow> u32 \<Rightarrow> u32 \<Rightarrow> bytes \<Rightarrow> fib_macs option" where
  "dnat_route E s d p = get_fib_macs (ke_fib E) (swap32 d) (swap32 s) IPPROTO_UDP
     (swap16 (u16_at p IP_TOT_LEN)) (ke_ifindex E)"

lemma process_udp_snat_miss:
  assumes "HEADERS_LEN \<le> length p"
    and "bm_lookup K ct (connection_tuple_new s d sp dp) = None"
    and "sp = swap16 (u16_at p UDP_SRC)" "dp = swap16 (u16_at p UDP_DST)"
  shows "process_udp_snat K E s d p ct =
    (case ke_pnic E of
       None \<Rightarrow> Some (Inr None, p, ct)
     | Some info \<Rightarrow>
         (case snat_route E info d p of
            None \<Rightarrow> Some (Inr None, p, ct)
          | Some macs \<Rightarrow>
              Some (Inr (Some (snat_translation info sp macs)),
                nat_rewrite (snat_translation info sp macs) IP_CHECK UDP_CHECK IP_SRC UDP_SRC p,
                create_ct K ct
                  (connection_tuple_new s d sp dp)
                  (flow_state_new (snat_translation info sp macs) Original
                     (ke_time E + TIMEOUT_NEW))
                  (connection_tuple_new d (nic_ip info) dp sp)
                  (flow_state_new (snat_reply_translation s sp macs (mac_at p ETH_SRC)) Reply
                     (ke_time E + TIMEOUT_NEW)))))"
  using assms
  by (simp add: process_udp_snat_def mem_simps Let_def create_ct_def translation_defs
      snat_route_def snat.apply_rewrites [OF snat.layout] split: option.split)

lemma process_udp_dnat_miss:
  assumes "HEADERS_LEN \<le> length p"
    and "bm_lookup K ct (connection_tuple_new s d sp dp) = None"
    and "sp = swap16 (u16_at p UDP_SRC)" "dp = swap16 (u16_at p UDP_DST)"
  shows "process_udp_dnat K E s d p ct =
    (case ke_expose E dp of
       None \<Rightarrow> Some (Inr None, p, ct)
     | Some info \<Rightarrow>
         (case dnat_route E s d p of
            None \<Rightarrow> Some (Inr None, p, ct)
          | Some macs \<Rightarrow>
              Some (Inr (Some (dnat_translation info (mac_at p ETH_DST))),
                nat_rewrite (dnat_translation info (mac_at p ETH_DST))
                  IP_CHECK UDP_CHECK IP_DST UDP_DST p,
                create_ct K ct
                  (connection_tuple_new s d sp dp)
                  (flow_state_new (dnat_translation info (mac_at p ETH_DST)) Original
                     (ke_time E + TIMEOUT_NEW))
                  (connection_tuple_new (container_ip info) s (container_port info) sp)
                  (flow_state_new (dnat_reply_translation d dp macs) Reply
                     (ke_time E + TIMEOUT_NEW)))))"
  using assms
  by (simp add: process_udp_dnat_def mem_simps Let_def create_ct_def translation_defs
      dnat_route_def dnat.apply_rewrites [OF dnat.layout] split: option.split)

section \<open>The contract of a handler\<close>

text \<open>
  What \<open>try_xdp_redirect\<close> needs of either handler on a packet with all its headers: it returns,
  without an error; without a translation nothing has changed; with one the packet has been
  rewritten for it; and the map differs by a refresh of the packet's flow or by a new flow.
\<close>

text \<open>A translation leaves through the NIC (key 0) or through the container it is addressed to.\<close>

definition nat_wf :: "nat_data \<Rightarrow> bool" where
  "nat_wf n \<longleftrightarrow> devmap_key n = 0 \<or> devmap_key n = nat_addr n"

lemma translations_wf [simp]:
  "nat_wf (snat_translation info sp macs)" "nat_wf (snat_reply_translation s sp macs m)"
  "nat_wf (dnat_translation ci m)" "nat_wf (dnat_reply_translation d dp macs)"
  by (simp_all add: nat_wf_def translation_defs)

definition ct_evolves :: "'m conntrack_ops \<Rightarrow> u64 \<Rightarrow> 'm \<Rightarrow> connection_tuple \<Rightarrow> 'm \<Rightarrow> bool" where
  "ct_evolves K time ct key ct' \<longleftrightarrow>
     (\<exists>st rkey. bm_lookup K ct key = Some st \<and> ct' = hit_ct K time ct key rkey st) \<or>
     (bm_lookup K ct key = None \<and> (\<exists>n rkey rn. nat_wf n \<and> nat_wf rn \<and> ct' = create_ct K ct
        key (flow_state_new n Original (time + TIMEOUT_NEW))
        rkey (flow_state_new rn Reply (time + TIMEOUT_NEW))))"

lemma ct_evolves_hit [intro]:
  "bm_lookup K ct key = Some st \<Longrightarrow> ct_evolves K time ct key (hit_ct K time ct key rkey st)"
  by (auto simp: ct_evolves_def)

lemma ct_evolves_create [intro]:
  "bm_lookup K ct key = None \<Longrightarrow> nat_wf n \<Longrightarrow> nat_wf rn \<Longrightarrow>
     ct_evolves K time ct key (create_ct K ct key (flow_state_new n Original (time + TIMEOUT_NEW))
       rkey (flow_state_new rn Reply (time + TIMEOUT_NEW)))"
  by (auto simp: ct_evolves_def)

definition pkt_key :: "u32 \<Rightarrow> u32 \<Rightarrow> bytes \<Rightarrow> connection_tuple" where
  "pkt_key s d p = connection_tuple_new s d (swap16 (u16_at p UDP_SRC)) (swap16 (u16_at p UDP_DST))"

locale nat_handler =
  fixes process ::
      "'m conntrack_ops \<Rightarrow> kernel_env \<Rightarrow> u32 \<Rightarrow> u32 \<Rightarrow> bytes \<Rightarrow> 'm \<Rightarrow> (nat_data option, 'm) xdp_run"
    and ad :: nat and po :: nat
  assumes outcome:
    "HEADERS_LEN \<le> length p \<Longrightarrow>
      process K E s d p ct = Some (Inr None, p, ct) \<or>
      (\<exists>n ct'. process K E s d p ct = Some (Inr (Some n), nat_rewrite n IP_CHECK UDP_CHECK ad po p, ct')
         \<and> ct_evolves K (ke_time E) ct (pkt_key s d p) ct')"
    and fields: "ad = IP_SRC \<and> po = UDP_SRC \<or> ad = IP_DST \<and> po = UDP_DST"
begin

lemma result:
  assumes "HEADERS_LEN \<le> length p"
  obtains "process K E s d p ct = Some (Inr None, p, ct)"
  | n ct' where "process K E s d p ct =
        Some (Inr (Some n), nat_rewrite n IP_CHECK UDP_CHECK ad po p, ct')"
      "ct_evolves K (ke_time E) ct (pkt_key s d p) ct'"
  using outcome [OF assms] by blast

lemma process_total: "HEADERS_LEN \<le> length p \<Longrightarrow>
    \<exists>r q ct'. process K E s d p ct = Some (Inr r, q, ct') \<and> length q = length p"
  using outcome [of p K E s d ct] fields by (auto simp: rewrite_layout_def)

end

interpretation snat_handler: nat_handler process_udp_snat IP_SRC UDP_SRC
proof
  fix p :: bytes and K :: "'m conntrack_ops" and E s d ct
  assume len: "HEADERS_LEN \<le> length p"
  show "process_udp_snat K E s d p ct = Some (Inr None, p, ct) \<or>
      (\<exists>n ct'. process_udp_snat K E s d p ct =
           Some (Inr (Some n), nat_rewrite n IP_CHECK UDP_CHECK IP_SRC UDP_SRC p, ct')
         \<and> ct_evolves K (ke_time E) ct (pkt_key s d p) ct')"
  proof (cases "bm_lookup K ct (pkt_key s d p)")
    case None
    then show ?thesis
      using process_udp_snat_miss [OF len None [unfolded pkt_key_def] refl refl, of E]
      by (auto simp: pkt_key_def split: option.splits)
  next
    case (Some st)
    then show ?thesis
      using process_udp_snat_hit [OF len Some [unfolded pkt_key_def], of E]
      by (auto simp: pkt_key_def)
  qed
qed simp

interpretation dnat_handler: nat_handler process_udp_dnat IP_DST UDP_DST
proof
  fix p :: bytes and K :: "'m conntrack_ops" and E s d ct
  assume len: "HEADERS_LEN \<le> length p"
  show "process_udp_dnat K E s d p ct = Some (Inr None, p, ct) \<or>
      (\<exists>n ct'. process_udp_dnat K E s d p ct =
           Some (Inr (Some n), nat_rewrite n IP_CHECK UDP_CHECK IP_DST UDP_DST p, ct')
         \<and> ct_evolves K (ke_time E) ct (pkt_key s d p) ct')"
  proof (cases "bm_lookup K ct (pkt_key s d p)")
    case None
    then show ?thesis
      using process_udp_dnat_miss [OF len None [unfolded pkt_key_def] refl refl, of E]
      by (auto simp: pkt_key_def split: option.splits)
  next
    case (Some st)
    then show ?thesis
      using process_udp_dnat_hit [OF len Some [unfolded pkt_key_def], of E]
      by (auto simp: pkt_key_def)
  qed
qed simp

end
