(* ===== verification/Xdp_Datapath.thy ===== *)
theory Xdp_Datapath
  imports Conntrack
begin

text \<open>
  The XDP programs of \<open>xdp-natd-ebpf/src/main.rs\<close>: header validation, the choice of the handler,
  MAC rewriting and the redirect in \<open>try_xdp_redirect\<close>, and the entry points
  \<open>xdp_redirect_containers\<close>, \<open>xdp_redirect_host\<close> and \<open>xdp_stub\<close>.
\<close>

definition XDP_ABORTED :: u32 where
  "XDP_ABORTED = 0"

definition XDP_PASS :: u32 where
  "XDP_PASS = 2"

definition XDP_REDIRECT :: u32 where
  "XDP_REDIRECT = 4"

definition IP_MF :: u16 where
  "IP_MF = 0x2000"

definition IP_OFFSET :: u16 where
  "IP_OFFSET = 0x1FFF"

definition IPPROTO_ICMP :: u8 where
  "IPPROTO_ICMP = 1"

definition IPPROTO_TCP :: u8 where
  "IPPROTO_TCP = 6"

text \<open>\<open>EtherType::Ipv4\<close> as it is stored in the header, compared without a byte swap.\<close>

definition ETHERTYPE_IPV4 :: u16 where
  "ETHERTYPE_IPV4 = swap16 0x0800"

section \<open>The programs\<close>

definition try_xdp_redirect ::
    "'m conntrack_ops \<Rightarrow> kernel_env \<Rightarrow> nat_flag \<Rightarrow> bytes \<Rightarrow> 'm \<Rightarrow> (u32, 'm) xdp_run" where
  "try_xdp_redirect K E flag p ct =
     (if length p < ETH_LEN + IPV4_LEN then Some (Inr XDP_PASS, p, ct) else do {
        ether_type \<leftarrow> load_u16 p ETH_TYPE;
        if ether_type \<noteq> ETHERTYPE_IPV4 then Some (Inr XDP_PASS, p, ct) else do {
          proto \<leftarrow> load_u8 p IP_PROTO;
          if \<not> (proto = IPPROTO_UDP \<or> proto = IPPROTO_TCP \<or> proto = IPPROTO_ICMP)
          then Some (Inr XDP_PASS, p, ct) else do {
            vihl \<leftarrow> load_u8 p IP_VIHL;
            if vihl AND 0x0F \<noteq> 5 then Some (Inr XDP_PASS, p, ct) else do {
              frags \<leftarrow> load_u16 p IP_FRAGS;
              let frag_off = swap16 frags;
              if frag_off AND (IP_MF OR IP_OFFSET) \<noteq> 0 then Some (Inr XDP_PASS, p, ct) else do {
                dst \<leftarrow> load_u32 p IP_DST;
                src \<leftarrow> load_u32 p IP_SRC;
                let dst_ip = swap32 dst;
                let src_ip = swap32 src;
                if proto \<noteq> IPPROTO_UDP then Some (Inr XDP_PASS, p, ct)
                else if length p < ETH_LEN + IPV4_LEN + UDP_LEN then Some (Inr XDP_PASS, p, ct)
                else do {
                  (r, p, ct) \<leftarrow> (if flag = Snat
                                 then process_udp_snat K E src_ip dst_ip p ct
                                 else process_udp_dnat K E src_ip dst_ip p ct);
                  case r of
                    Inl e \<Rightarrow> Some (Inl e, p, ct)
                  | Inr None \<Rightarrow> Some (Inr XDP_PASS, p, ct)
                  | Inr (Some n) \<Rightarrow> do {
                      p \<leftarrow> rewrite_macs ETH_SRC ETH_DST (nat_fib_macs n) p;
                      case ke_redirect E (devmap_key n) (ucast XDP_PASS) of
                        Inr code \<Rightarrow> Some (Inr code, p, ct)
                      | Inl code \<Rightarrow> Some (Inr code, p, ct)
                    }
                }
              }
            }
          }
        }
      })"

text \<open>The entry points turn an error into \<open>XDP_ABORTED\<close>.\<close>

definition unwrap_or :: "unit + u32 \<Rightarrow> u32 \<Rightarrow> u32" where
  "unwrap_or r d = (case r of Inl e \<Rightarrow> d | Inr code \<Rightarrow> code)"

definition xdp_stub :: "bytes \<Rightarrow> u32 \<times> bytes" where
  "xdp_stub p = (XDP_PASS, p)"

definition xdp_redirect_containers ::
    "'m conntrack_ops \<Rightarrow> kernel_env \<Rightarrow> bytes \<Rightarrow> 'm \<Rightarrow> (u32 \<times> bytes \<times> 'm) option" where
  "xdp_redirect_containers K E p ct = do {
     (r, p, ct) \<leftarrow> try_xdp_redirect K E Snat p ct;
     Some (unwrap_or r XDP_ABORTED, p, ct)
   }"

definition xdp_redirect_host ::
    "'m conntrack_ops \<Rightarrow> kernel_env \<Rightarrow> bytes \<Rightarrow> 'm \<Rightarrow> (u32 \<times> bytes \<times> 'm) option" where
  "xdp_redirect_host K E p ct = do {
     (r, p, ct) \<leftarrow> try_xdp_redirect K E Dnat p ct;
     Some (unwrap_or r XDP_ABORTED, p, ct)
   }"

section \<open>Which packets are handled\<close>

definition pkt_src :: "bytes \<Rightarrow> u32" where
  "pkt_src p = swap32 (u32_at p IP_SRC)"

definition pkt_dst :: "bytes \<Rightarrow> u32" where
  "pkt_dst p = swap32 (u32_at p IP_DST)"

definition pkt_sport :: "bytes \<Rightarrow> u16" where
  "pkt_sport p = swap16 (u16_at p UDP_SRC)"

definition pkt_dport :: "bytes \<Rightarrow> u16" where
  "pkt_dport p = swap16 (u16_at p UDP_DST)"

definition flow_key :: "bytes \<Rightarrow> connection_tuple" where
  "flow_key p = connection_tuple_new (pkt_src p) (pkt_dst p) (pkt_sport p) (pkt_dport p)"

text \<open>
  An unfragmented UDP datagram over IPv4 without options, with all three headers present.
\<close>

definition nat_candidate :: "bytes \<Rightarrow> bool" where
  "nat_candidate p \<longleftrightarrow> HEADERS_LEN \<le> length p \<and> u16_at p ETH_TYPE = ETHERTYPE_IPV4
     \<and> p ! IP_PROTO = IPPROTO_UDP \<and> p ! IP_VIHL AND 0x0F = 5
     \<and> swap16 (u16_at p IP_FRAGS) AND (IP_MF OR IP_OFFSET) = 0"

definition handler ::
    "nat_flag \<Rightarrow> 'm conntrack_ops \<Rightarrow> kernel_env \<Rightarrow> u32 \<Rightarrow> u32 \<Rightarrow> bytes \<Rightarrow> 'm
       \<Rightarrow> (nat_data option, 'm) xdp_run" where
  "handler flag = (if flag = Snat then process_udp_snat else process_udp_dnat)"

lemma not_candidate_passes:
  assumes "\<not> nat_candidate p"
  shows "try_xdp_redirect K E flag p ct = Some (Inr XDP_PASS, p, ct)"
  using assms
  by (auto simp: try_xdp_redirect_def nat_candidate_def mem_simps Let_def)

definition set_macs :: "fib_macs \<Rightarrow> bytes \<Rightarrow> bytes" where
  "set_macs m p = patch (patch p ETH_SRC (mac_bytes (fib_smac m))) ETH_DST (mac_bytes (fib_dmac m))"

definition redirect_code :: "kernel_env \<Rightarrow> u32 \<Rightarrow> u32" where
  "redirect_code E key = (case ke_redirect E key (ucast XDP_PASS) of Inr c \<Rightarrow> c | Inl c \<Rightarrow> c)"

lemma rewrite_macs_set:
  "12 \<le> length p \<Longrightarrow> rewrite_macs ETH_SRC ETH_DST m p = Some (set_macs m p)"
  by (simp add: rewrite_macs_def set_macs_def mem_simps)

lemma candidate_runs_handler:
  assumes "nat_candidate p"
  shows "try_xdp_redirect K E flag p ct =
    (case handler flag K E (pkt_src p) (pkt_dst p) p ct of
       None \<Rightarrow> None
     | Some (Inl e, q, ct') \<Rightarrow> Some (Inl e, q, ct')
     | Some (Inr None, q, ct') \<Rightarrow> Some (Inr XDP_PASS, q, ct')
     | Some (Inr (Some n), q, ct') \<Rightarrow>
         (case rewrite_macs ETH_SRC ETH_DST (nat_fib_macs n) q of
            None \<Rightarrow> None
          | Some q' \<Rightarrow> Some (Inr (redirect_code E (devmap_key n)), q', ct')))"
proof -
  have "\<not> length p < ETH_LEN + IPV4_LEN" "\<not> length p < ETH_LEN + IPV4_LEN + UDP_LEN"
    using assms by (auto simp: nat_candidate_def)
  then show ?thesis
    using assms
    by (auto simp: try_xdp_redirect_def nat_candidate_def handler_def redirect_code_def
        pkt_src_def pkt_dst_def mem_simps Let_def
        split: option.splits sum.splits prod.splits)
qed

text \<open>Each program rewrites one side of the packet.\<close>

definition addr_field :: "nat_flag \<Rightarrow> nat" where
  "addr_field flag = (case flag of Snat \<Rightarrow> IP_SRC | Dnat \<Rightarrow> IP_DST)"

definition port_field :: "nat_flag \<Rightarrow> nat" where
  "port_field flag = (case flag of Snat \<Rightarrow> UDP_SRC | Dnat \<Rightarrow> UDP_DST)"

definition translated :: "nat_flag \<Rightarrow> nat_data \<Rightarrow> bytes \<Rightarrow> bytes" where
  "translated flag n p =
     set_macs (nat_fib_macs n)
       (nat_rewrite n IP_CHECK UDP_CHECK (addr_field flag) (port_field flag) p)"

lemma flow_key_pkt_key: "flow_key p = pkt_key (pkt_src p) (pkt_dst p) p"
  by (simp add: flow_key_def pkt_key_def pkt_sport_def pkt_dport_def)

lemma candidate_length: "nat_candidate p \<Longrightarrow> HEADERS_LEN \<le> length p"
  by (simp add: nat_candidate_def)

lemma layout_of_flag:
  "HEADERS_LEN \<le> length p \<Longrightarrow> rewrite_layout IP_CHECK UDP_CHECK (addr_field flag) (port_field flag) p"
  by (cases flag) (simp_all add: rewrite_layout_def addr_field_def port_field_def)

lemma length_set_macs [simp]: "12 \<le> length p \<Longrightarrow> length (set_macs m p) = length p"
  by (simp add: set_macs_def)

lemma length_translated [simp]:
  "HEADERS_LEN \<le> length p \<Longrightarrow> length (translated flag n p) = length p"
  by (simp add: translated_def layout_of_flag)

lemma handler_cases:
  assumes "HEADERS_LEN \<le> length p"
  obtains "handler flag K E (pkt_src p) (pkt_dst p) p ct = Some (Inr None, p, ct)"
  | n ct' where "handler flag K E (pkt_src p) (pkt_dst p) p ct =
        Some (Inr (Some n),
          nat_rewrite n IP_CHECK UDP_CHECK (addr_field flag) (port_field flag) p, ct')"
      "ct_evolves K (ke_time E) ct (flow_key p) ct'"
proof (cases flag)
  case Snat
  then show thesis
    using snat_handler.result [OF assms, of K E "pkt_src p" "pkt_dst p" ct] that
    by (simp add: handler_def addr_field_def port_field_def flow_key_pkt_key) metis
next
  case Dnat
  then show thesis
    using dnat_handler.result [OF assms, of K E "pkt_src p" "pkt_dst p" ct] that
    by (simp add: handler_def addr_field_def port_field_def flow_key_pkt_key) metis
qed

lemma translation_result:
  assumes "nat_candidate p"
    and "handler flag K E (pkt_src p) (pkt_dst p) p ct =
      Some (Inr (Some n),
        nat_rewrite n IP_CHECK UDP_CHECK (addr_field flag) (port_field flag) p, ct')"
  shows "try_xdp_redirect K E flag p ct =
    Some (Inr (redirect_code E (devmap_key n)), translated flag n p, ct')"
  using assms(2) candidate_length [OF assms(1)]
  by (simp add: candidate_runs_handler [OF assms(1)] rewrite_macs_set translated_def layout_of_flag)

text \<open>Every run: the packet passes untouched, or it is translated and redirected.\<close>

lemma try_xdp_redirect_cases:
  obtains (pass) "try_xdp_redirect K E flag p ct = Some (Inr XDP_PASS, p, ct)"
  | (nat) n ct' where
      "nat_candidate p"
      "handler flag K E (pkt_src p) (pkt_dst p) p ct = Some (Inr (Some n),
         nat_rewrite n IP_CHECK UDP_CHECK (addr_field flag) (port_field flag) p, ct')"
      "try_xdp_redirect K E flag p ct =
         Some (Inr (redirect_code E (devmap_key n)), translated flag n p, ct')"
      "ct_evolves K (ke_time E) ct (flow_key p) ct'"
proof (cases "nat_candidate p")
  case False
  then show thesis
    by (intro pass not_candidate_passes)
next
  case True
  show thesis
  proof (rule handler_cases [OF candidate_length [OF True], of flag K E ct])
    assume "handler flag K E (pkt_src p) (pkt_dst p) p ct = Some (Inr None, p, ct)"
    then show thesis
      by (intro pass) (simp add: candidate_runs_handler [OF True])
  next
    fix n ct'
    assume h: "handler flag K E (pkt_src p) (pkt_dst p) p ct =
        Some (Inr (Some n),
          nat_rewrite n IP_CHECK UDP_CHECK (addr_field flag) (port_field flag) p, ct')"
      and "ct_evolves K (ke_time E) ct (flow_key p) ct'"
    then show thesis
      using True translation_result [OF True h] by (intro nat)
  qed
qed

text \<open>So the entry points always return.\<close>

lemma entry_points_run:
  "\<exists>c1 c2 r1 r2. xdp_redirect_containers K E p ct = Some (c1, r1)
     \<and> try_xdp_redirect K E Snat p ct = Some (Inr c1, r1)
     \<and> xdp_redirect_host K E p ct = Some (c2, r2)
     \<and> try_xdp_redirect K E Dnat p ct = Some (Inr c2, r2)"
proof -
  have "\<exists>code r. try_xdp_redirect K E flag p ct = Some (Inr code, r)" for flag
    by (rule try_xdp_redirect_cases [of K E flag p ct]) auto
  from this [of Snat] this [of Dnat] show ?thesis
    by (auto simp: xdp_redirect_containers_def xdp_redirect_host_def unwrap_or_def)
qed

section \<open>Effect on the packet\<close>

lemma set_macs_other:
  "12 \<le> i \<Longrightarrow> i < length p \<Longrightarrow> set_macs m p ! i = p ! i"
  by (simp add: set_macs_def nth_patch)

lemma at_set_macs [mem_simps]:
  "12 \<le> i \<Longrightarrow> i + 2 \<le> length p \<Longrightarrow> u16_at (set_macs m p) i = u16_at p i"
  "12 \<le> i \<Longrightarrow> i + 4 \<le> length p \<Longrightarrow> u32_at (set_macs m p) i = u32_at p i"
  "12 \<le> length p \<Longrightarrow> mac_at (set_macs m p) ETH_SRC = fib_smac m"
  "12 \<le> length p \<Longrightarrow> mac_at (set_macs m p) ETH_DST = fib_dmac m"
  by (simp_all add: set_macs_def mem_simps)

lemma slice_set_macs [mem_simps]:
  "12 \<le> s \<Longrightarrow> s + n \<le> length p \<Longrightarrow> slice (set_macs m p) s n = slice p s n"
  by (simp add: set_macs_def slice_patch_outside)

text \<open>The rewriting routine each program calls, by its flag.\<close>

definition apply_ip_nat ::
    "nat_flag \<Rightarrow> nat_data \<Rightarrow> nat \<Rightarrow> nat \<Rightarrow> nat \<Rightarrow> nat \<Rightarrow> bytes \<Rightarrow> bytes option" where
  "apply_ip_nat flag = (case flag of Snat \<Rightarrow> apply_ip_snat | Dnat \<Rightarrow> apply_ip_dnat)"

interpretation of_flag: address_rewriter "apply_ip_nat flag" "addr_field flag" "port_field flag"
  for flag
  by (cases flag)
    (simp_all add: apply_ip_nat_def addr_field_def port_field_def
      snat.address_rewriter_axioms dnat.address_rewriter_axioms)

lemma apply_of_flag:
  "HEADERS_LEN \<le> length p \<Longrightarrow>
     apply_ip_nat flag n IP_CHECK UDP_CHECK (addr_field flag) (port_field flag) p =
       Some (nat_rewrite n IP_CHECK UDP_CHECK (addr_field flag) (port_field flag) p)"
  by (rule of_flag.apply_rewrites) (rule layout_of_flag)

lemma translated_ip_header:
  "HEADERS_LEN \<le> length p \<Longrightarrow> ip_header (translated flag n p) =
     ip_header (nat_rewrite n IP_CHECK UDP_CHECK (addr_field flag) (port_field flag) p)"
  by (simp add: ip_header_def translated_def mem_simps layout_of_flag)

lemma translated_udp_pseudo:
  assumes "HEADERS_LEN \<le> length p" "udp_complete p"
  shows "udp_pseudo (translated flag n p) =
    udp_pseudo (nat_rewrite n IP_CHECK UDP_CHECK (addr_field flag) (port_field flag) p)"
    (is "_ = udp_pseudo ?q")
proof -
  have len: "length ?q = length p"
    using assms(1) by (simp add: layout_of_flag)
  have L: "udp_length ?q = udp_length p"
    using of_flag.udp_length_kept(1) [OF assms(1) apply_of_flag [OF assms(1)]] .
  have M: "udp_length (set_macs m ?q) = udp_length ?q" for m
    using assms(1) len by (simp add: udp_length_def set_macs_other)
  have "slice (set_macs m ?q) UDP_SRC (udp_length p) = slice ?q UDP_SRC (udp_length p)" for m
    using assms(2) len by (intro slice_set_macs) (auto simp: udp_complete_def)
  moreover have "slice (set_macs m ?q) IP_SRC 8 = slice ?q IP_SRC 8"
      "slice (set_macs m ?q) UDP_TOT_LEN 2 = slice ?q UDP_TOT_LEN 2" for m
    using assms(1) len by (intro slice_set_macs; linarith)+
  ultimately show ?thesis
    by (simp only: udp_pseudo_def translated_def M L)
qed

lemma candidate_vihl: "nat_candidate p \<Longrightarrow> p ! IP_VIHL \<noteq> 0"
  by (auto simp: nat_candidate_def)

lemma at_translated:
  assumes "HEADERS_LEN \<le> length p" "12 \<le> i"
  defines "q \<equiv> \<lambda>flag n. nat_rewrite n IP_CHECK UDP_CHECK (addr_field flag) (port_field flag) p"
  shows "i + 2 \<le> length p \<Longrightarrow> u16_at (translated flag n p) i = u16_at (q flag n) i"
    and "i + 4 \<le> length p \<Longrightarrow> u32_at (translated flag n p) i = u32_at (q flag n) i"
    and "i < length p \<Longrightarrow> translated flag n p ! i = q flag n ! i"
  using assms(1,2)
  by (simp_all add: translated_def q_def at_set_macs set_macs_other layout_of_flag)

lemma field_bounds:
  assumes "HEADERS_LEN \<le> length p"
  shows "12 \<le> addr_field flag" "addr_field flag + 4 \<le> length p"
    "12 \<le> port_field flag" "port_field flag + 2 \<le> length p"
  using assms by (cases flag; simp add: addr_field_def port_field_def)+

lemma translated_address:
  assumes "HEADERS_LEN \<le> length p"
  shows "u32_at (translated flag n p) (addr_field flag) = swap32 (nat_addr n)"
  unfolding at_translated(2) [OF assms field_bounds(1) [OF assms] field_bounds(2) [OF assms]]
  by (rule of_flag.rewritten_address [OF assms apply_of_flag [OF assms]])

lemma translated_port:
  assumes "HEADERS_LEN \<le> length p"
  shows "u16_at (translated flag n p) (port_field flag) =
    (if u16_at p UDP_CHECK = 0 then u16_at p (port_field flag) else swap16 (nat_port n))"
  unfolding at_translated(1) [OF assms field_bounds(3) [OF assms] field_bounds(4) [OF assms]]
  by (rule of_flag.rewritten_port [OF assms apply_of_flag [OF assms]])

lemma translated_udp_check:
  assumes "HEADERS_LEN \<le> length p"
  shows "u16_at (translated flag n p) UDP_CHECK = 0 \<longleftrightarrow> u16_at p UDP_CHECK = 0"
proof -
  have "u16_at (translated flag n p) UDP_CHECK =
      u16_at (nat_rewrite n IP_CHECK UDP_CHECK (addr_field flag) (port_field flag) p) UDP_CHECK"
    using assms by (intro at_translated(1)) simp_all
  then show ?thesis
    by (simp only: of_flag.udp_check_nonzero [OF assms apply_of_flag [OF assms]])
qed

lemma translated_macs:
  assumes "HEADERS_LEN \<le> length p"
  shows "mac_at (translated flag n p) ETH_SRC = fib_smac (nat_fib_macs n)"
    and "mac_at (translated flag n p) ETH_DST = fib_dmac (nat_fib_macs n)"
  using assms by (simp_all add: translated_def at_set_macs layout_of_flag)

text \<open>The bytes a translation may change, and that it changes no other.\<close>

definition nat_bytes :: "nat_flag \<Rightarrow> nat set" where
  "nat_bytes flag = {0..<12} \<union> {IP_CHECK..<IP_CHECK + 2}
     \<union> {addr_field flag..<addr_field flag + 4} \<union> {port_field flag..<port_field flag + 2}
     \<union> {UDP_CHECK..<UDP_CHECK + 2}"

lemma nat_rewrite_other:
  assumes "rewrite_layout ic uc ad po p" "i < length p"
    and "i < ic \<or> ic + 2 \<le> i" "i < ad \<or> ad + 4 \<le> i" "i < po \<or> po + 2 \<le> i" "i < uc \<or> uc + 2 \<le> i"
  shows "nat_rewrite n ic uc ad po p ! i = p ! i"
  using assms by (simp add: nat_rewrite_def Let_def rewrite_layout_def nth_patch_other)

lemma translated_other:
  assumes "HEADERS_LEN \<le> length p" "i < length p" "i \<notin> nat_bytes flag"
  shows "translated flag n p ! i = p ! i"
proof -
  have "12 \<le> i"
    using assms(3) by (auto simp: nat_bytes_def)
  then have "translated flag n p ! i
      = nat_rewrite n IP_CHECK UDP_CHECK (addr_field flag) (port_field flag) p ! i"
    using assms by (simp add: at_translated(3))
  also have "\<dots> = p ! i"
    using assms by (intro nat_rewrite_other layout_of_flag) (auto simp: nat_bytes_def)
  finally show ?thesis .
qed

section \<open>Every branch of the whole program\<close>

text \<open>The key under which replies to a translated packet arrive.\<close>

definition reverse_key :: "nat_flag \<Rightarrow> connection_tuple \<Rightarrow> nat_data \<Rightarrow> connection_tuple" where
  "reverse_key flag k n =
     (case flag of
        Snat \<Rightarrow> connection_tuple_new (dst_addr k) (nat_addr n) (dst_port k) (nat_port n)
      | Dnat \<Rightarrow> connection_tuple_new (nat_addr n) (src_addr k) (nat_port n) (src_port k))"

lemma reverse_key_flow_key:
  "reverse_key Snat (flow_key p) n =
     connection_tuple_new (pkt_dst p) (nat_addr n) (pkt_dport p) (nat_port n)"
  "reverse_key Dnat (flow_key p) n =
     connection_tuple_new (nat_addr n) (pkt_src p) (nat_port n) (pkt_sport p)"
  by (simp_all add: reverse_key_def flow_key_def)

lemma try_hit:
  assumes "nat_candidate p" "bm_lookup K ct (flow_key p) = Some st"
  shows "try_xdp_redirect K E flag p ct =
    Some (Inr (redirect_code E (devmap_key (flow_nat st))), translated flag (flow_nat st) p,
      hit_ct K (ke_time E) ct (flow_key p) (reverse_key flag (flow_key p) (flow_nat st)) st)"
proof -
  note len = candidate_length [OF assms(1)]
  have key: "connection_tuple_new (pkt_src p) (pkt_dst p) (swap16 (u16_at p UDP_SRC))
      (swap16 (u16_at p UDP_DST)) = flow_key p"
    by (simp add: flow_key_def pkt_sport_def pkt_dport_def)
  show ?thesis
  proof (cases flag)
    case Snat
    then show ?thesis
      using process_udp_snat_hit [OF len, of K ct "pkt_src p" "pkt_dst p" st E, unfolded key] assms(2)
      by (intro translation_result [OF assms(1)])
        (simp add: handler_def addr_field_def port_field_def reverse_key_flow_key pkt_dport_def)
  next
    case Dnat
    then show ?thesis
      using process_udp_dnat_hit [OF len, of K ct "pkt_src p" "pkt_dst p" st E, unfolded key] assms(2)
      by (intro translation_result [OF assms(1)])
        (simp add: handler_def addr_field_def port_field_def reverse_key_flow_key pkt_sport_def)
  qed
qed

lemma try_snat_new:
  assumes "nat_candidate p" "bm_lookup K ct (flow_key p) = None"
    and "ke_pnic E = Some info" "snat_route E info (pkt_dst p) p = Some macs"
  defines "n \<equiv> snat_translation info (pkt_sport p) macs"
    and "rn \<equiv> snat_reply_translation (pkt_src p) (pkt_sport p) macs (mac_at p ETH_SRC)"
  shows "try_xdp_redirect K E Snat p ct =
    Some (Inr (redirect_code E 0), translated Snat n p,
      create_ct K ct (flow_key p) (flow_state_new n Original (ke_time E + TIMEOUT_NEW))
        (reverse_key Snat (flow_key p) n) (flow_state_new rn Reply (ke_time E + TIMEOUT_NEW)))"
proof -
  have n: "devmap_key n = 0" "nat_addr n = nic_ip info" "nat_port n = pkt_sport p"
    by (simp_all add: n_def snat_translation_def)
  have "process_udp_snat K E (pkt_src p) (pkt_dst p) p ct =
    Some (Inr (Some n), nat_rewrite n IP_CHECK UDP_CHECK IP_SRC UDP_SRC p,
      create_ct K ct (flow_key p) (flow_state_new n Original (ke_time E + TIMEOUT_NEW))
        (reverse_key Snat (flow_key p) n) (flow_state_new rn Reply (ke_time E + TIMEOUT_NEW)))"
    using process_udp_snat_miss [OF candidate_length [OF assms(1)]
        assms(2) [unfolded flow_key_def] pkt_sport_def pkt_dport_def, of E] assms(3,4)
    by (simp add: reverse_key_flow_key n) (simp add: n_def rn_def flow_key_def)
  then show ?thesis
    using translation_result [OF assms(1), of Snat K E ct n] n
    by (simp add: handler_def addr_field_def port_field_def)
qed

lemma try_dnat_new:
  assumes "nat_candidate p" "bm_lookup K ct (flow_key p) = None"
    and "ke_expose E (pkt_dport p) = Some info" "dnat_route E (pkt_src p) (pkt_dst p) p = Some macs"
  defines "n \<equiv> dnat_translation info (mac_at p ETH_DST)"
    and "rn \<equiv> dnat_reply_translation (pkt_dst p) (pkt_dport p) macs"
  shows "try_xdp_redirect K E Dnat p ct =
    Some (Inr (redirect_code E (container_ip info)), translated Dnat n p,
      create_ct K ct (flow_key p) (flow_state_new n Original (ke_time E + TIMEOUT_NEW))
        (reverse_key Dnat (flow_key p) n) (flow_state_new rn Reply (ke_time E + TIMEOUT_NEW)))"
proof -
  have n: "devmap_key n = container_ip info" "nat_addr n = container_ip info"
      "nat_port n = container_port info"
    by (simp_all add: n_def dnat_translation_def)
  have "process_udp_dnat K E (pkt_src p) (pkt_dst p) p ct =
    Some (Inr (Some n), nat_rewrite n IP_CHECK UDP_CHECK IP_DST UDP_DST p,
      create_ct K ct (flow_key p) (flow_state_new n Original (ke_time E + TIMEOUT_NEW))
        (reverse_key Dnat (flow_key p) n) (flow_state_new rn Reply (ke_time E + TIMEOUT_NEW)))"
    using process_udp_dnat_miss [OF candidate_length [OF assms(1)]
        assms(2) [unfolded flow_key_def] pkt_sport_def pkt_dport_def, of E] assms(3,4)
    by (simp add: reverse_key_flow_key n) (simp add: n_def rn_def flow_key_def)
  then show ?thesis
    using translation_result [OF assms(1), of Dnat K E ct n] n
    by (simp add: handler_def addr_field_def port_field_def)
qed

text \<open>No translation: no NIC or exposed port, or no route.\<close>

lemma try_snat_pass:
  assumes "bm_lookup K ct (flow_key p) = None"
    and "\<And>info. ke_pnic E = Some info \<Longrightarrow> snat_route E info (pkt_dst p) p = None"
  shows "try_xdp_redirect K E Snat p ct = Some (Inr XDP_PASS, p, ct)"
proof (cases "nat_candidate p")
  case True
  then show ?thesis
    using process_udp_snat_miss [OF candidate_length [OF True]
        assms(1) [unfolded flow_key_def] pkt_sport_def pkt_dport_def, of E] assms(2)
    by (simp add: candidate_runs_handler handler_def split: option.splits)
qed (rule not_candidate_passes)

lemma try_dnat_pass:
  assumes "bm_lookup K ct (flow_key p) = None"
    and "ke_expose E (pkt_dport p) = None \<or> dnat_route E (pkt_src p) (pkt_dst p) p = None"
  shows "try_xdp_redirect K E Dnat p ct = Some (Inr XDP_PASS, p, ct)"
proof (cases "nat_candidate p")
  case True
  then show ?thesis
    using process_udp_dnat_miss [OF candidate_length [OF True]
        assms(1) [unfolded flow_key_def] pkt_sport_def pkt_dport_def, of E] assms(2)
    by (auto simp: candidate_runs_handler handler_def split: option.splits)
qed (rule not_candidate_passes)

section \<open>Fields of a translated packet\<close>

lemma untouched_field:
  assumes "HEADERS_LEN \<le> length p"
  shows "pkt_dst (translated Snat n p) = pkt_dst p" "pkt_dport (translated Snat n p) = pkt_dport p"
    "pkt_src (translated Dnat n p) = pkt_src p" "pkt_sport (translated Dnat n p) = pkt_sport p"
  using assms translated_other [OF assms]
  by (simp_all add: pkt_dst_def pkt_dport_def pkt_src_def pkt_sport_def u32_at_def u16_at_def
      nat_bytes_def addr_field_def port_field_def)

lemma snat_fields:
  assumes "HEADERS_LEN \<le> length p"
  shows "pkt_src (translated Snat n p) = nat_addr n"
    and "pkt_sport (translated Snat n p) =
      (if u16_at p UDP_CHECK = 0 then pkt_sport p else nat_port n)"
  using translated_address [OF assms, of Snat n] translated_port [OF assms, of Snat n]
  by (simp_all add: pkt_src_def pkt_sport_def addr_field_def port_field_def)

lemma dnat_fields:
  assumes "HEADERS_LEN \<le> length p"
  shows "pkt_dst (translated Dnat n p) = nat_addr n"
    and "pkt_dport (translated Dnat n p) =
      (if u16_at p UDP_CHECK = 0 then pkt_dport p else nat_port n)"
  using translated_address [OF assms, of Dnat n] translated_port [OF assms, of Dnat n]
  by (simp_all add: pkt_dst_def pkt_dport_def addr_field_def port_field_def)

lemmas translated_pkt = untouched_field snat_fields dnat_fields translated_macs

section \<open>New flows and their replies\<close>

lemma translation_sel [simp]:
  "nat_addr (snat_translation info sp macs) = nic_ip info"
  "nat_port (snat_translation info sp macs) = sp"
  "nat_fib_macs (snat_translation info sp macs) = macs"
  "nat_addr (snat_reply_translation s sp macs m) = s"
  "nat_port (snat_reply_translation s sp macs m) = sp"
  "devmap_key (snat_reply_translation s sp macs m) = s"
  "nat_fib_macs (snat_reply_translation s sp macs m) = \<lparr>fib_smac = fib_smac macs, fib_dmac = m\<rparr>"
  "nat_addr (dnat_translation ci m) = container_ip ci"
  "nat_port (dnat_translation ci m) = container_port ci"
  "nat_fib_macs (dnat_translation ci m) = \<lparr>fib_smac = m, fib_dmac = container_mac ci\<rparr>"
  "nat_addr (dnat_reply_translation d dp macs) = d"
  "nat_port (dnat_reply_translation d dp macs) = dp"
  "devmap_key (dnat_reply_translation d dp macs) = 0"
  "nat_fib_macs (dnat_reply_translation d dp macs) = macs"
  by (simp_all add: translation_defs)

text \<open>A packet answers another when addresses and ports are exchanged.\<close>

definition answers :: "bytes \<Rightarrow> bytes \<Rightarrow> bool" where
  "answers r q \<longleftrightarrow>
     flow_key r = connection_tuple_new (pkt_dst q) (pkt_src q) (pkt_dport q) (pkt_sport q)"

lemma flow_key_eq:
  "flow_key p = connection_tuple_new s d sp dp \<longleftrightarrow>
     pkt_src p = s \<and> pkt_dst p = d \<and> pkt_sport p = sp \<and> pkt_dport p = dp"
  by (simp add: flow_key_def)

context conntrack_store
begin

lemma snat_creates:
  assumes "nat_candidate p"
    and "ke_pnic E = Some info" "snat_route E info (pkt_dst p) p = Some macs"
    and "bm_lookup K ct (flow_key p) = None"
    and "rkey = connection_tuple_new (pkt_dst p) (nic_ip info) (pkt_dport p) (pkt_sport p)"
    and "bm_lookup K ct rkey = None" "pkt_src p \<noteq> pkt_dst p"
    and "card (dom (bm_lookup K ct)) + 2 \<le> max_entries"
  shows "\<exists>q ct'. try_xdp_redirect K E Snat p ct = Some (Inr (redirect_code E 0), q, ct')
     \<and> flow_key q = connection_tuple_new (nic_ip info) (pkt_dst p) (pkt_sport p) (pkt_dport p)
     \<and> mac_at q ETH_SRC = fib_smac macs \<and> mac_at q ETH_DST = fib_dmac macs
     \<and> bm_lookup K ct' = (bm_lookup K ct)
         (flow_key p \<mapsto> flow_state_new (snat_translation info (pkt_sport p) macs) Original
            (ke_time E + TIMEOUT_NEW),
          rkey \<mapsto> flow_state_new (snat_reply_translation (pkt_src p) (pkt_sport p) macs
            (mac_at p ETH_SRC)) Reply (ke_time E + TIMEOUT_NEW))"
proof -
  let ?n = "snat_translation info (pkt_sport p) macs"
  have rkey: "reverse_key Snat (flow_key p) ?n = rkey"
    by (simp add: reverse_key_flow_key assms(5))
  have "flow_key p \<noteq> rkey"
    using assms(7) by (simp add: flow_key_def assms(5))
  note created = create_with_room [OF assms(4,6) this assms(8)]
  show ?thesis
    unfolding try_snat_new [OF assms(1,4,2,3)] rkey
    by (simp add: created flow_key_eq translated_pkt [OF candidate_length [OF assms(1)]])
qed

lemma dnat_creates:
  assumes "nat_candidate p" "u16_at p UDP_CHECK \<noteq> 0"
    and "ke_expose E (pkt_dport p) = Some info" "dnat_route E (pkt_src p) (pkt_dst p) p = Some macs"
    and "bm_lookup K ct (flow_key p) = None"
    and "rkey = connection_tuple_new (container_ip info) (pkt_src p) (container_port info) (pkt_sport p)"
    and "bm_lookup K ct rkey = None" "pkt_src p \<noteq> container_ip info"
    and "card (dom (bm_lookup K ct)) + 2 \<le> max_entries"
  shows "\<exists>q ct'. try_xdp_redirect K E Dnat p ct =
       Some (Inr (redirect_code E (container_ip info)), q, ct')
     \<and> flow_key q = connection_tuple_new (pkt_src p) (container_ip info) (pkt_sport p)
         (container_port info)
     \<and> mac_at q ETH_SRC = mac_at p ETH_DST \<and> mac_at q ETH_DST = container_mac info
     \<and> bm_lookup K ct' = (bm_lookup K ct)
         (flow_key p \<mapsto> flow_state_new (dnat_translation info (mac_at p ETH_DST)) Original
            (ke_time E + TIMEOUT_NEW),
          rkey \<mapsto> flow_state_new (dnat_reply_translation (pkt_dst p) (pkt_dport p) macs) Reply
            (ke_time E + TIMEOUT_NEW))"
proof -
  let ?n = "dnat_translation info (mac_at p ETH_DST)"
  have rkey: "reverse_key Dnat (flow_key p) ?n = rkey"
    by (simp add: reverse_key_flow_key assms(6))
  have "flow_key p \<noteq> rkey"
    using assms(8) by (simp add: flow_key_def assms(6))
  note created = create_with_room [OF assms(5,7) this assms(9)]
  show ?thesis
    unfolding try_dnat_new [OF assms(1,5,3,4)] rkey
    using assms(2)
    by (simp add: created flow_key_eq translated_pkt [OF candidate_length [OF assms(1)]])
qed

text \<open>The answer to the first packet of a new flow finds the entry the packet left.\<close>

lemma snat_answered:
  assumes "nat_candidate p"
    and "ke_pnic E = Some info" "snat_route E info (pkt_dst p) p = Some macs"
    and "bm_lookup K ct (flow_key p) = None"
    and "bm_lookup K ct (connection_tuple_new (pkt_dst p) (nic_ip info) (pkt_dport p) (pkt_sport p))
           = None"
    and "pkt_src p \<noteq> pkt_dst p" "card (dom (bm_lookup K ct)) + 2 \<le> max_entries"
    and "try_xdp_redirect K E Snat p ct = Some (Inr c, q, ct1)"
    and "nat_candidate r" "answers r q"
  shows "\<exists>r' ct2. try_xdp_redirect K E' Dnat r ct1 = Some (Inr (redirect_code E' (pkt_src p)), r', ct2)
     \<and> answers r' p \<and> mac_at r' ETH_DST = mac_at p ETH_SRC"
proof -
  have created: "flow_key q = connection_tuple_new (nic_ip info) (pkt_dst p) (pkt_sport p) (pkt_dport p)"
    and look: "bm_lookup K ct1 (connection_tuple_new (pkt_dst p) (nic_ip info) (pkt_dport p)
      (pkt_sport p)) = Some (flow_state_new (snat_reply_translation (pkt_src p) (pkt_sport p) macs
        (mac_at p ETH_SRC)) Reply (ke_time E + TIMEOUT_NEW))"
    using snat_creates [OF assms(1-4) refl assms(5-7)] assms(8) by auto
  then have r: "pkt_src r = pkt_dst p" "pkt_dst r = nic_ip info" "pkt_sport r = pkt_dport p"
      "pkt_dport r = pkt_sport p"
    using assms(10) by (simp_all add: answers_def flow_key_eq)
  then have "bm_lookup K ct1 (flow_key r) = Some (flow_state_new (snat_reply_translation (pkt_src p)
      (pkt_sport p) macs (mac_at p ETH_SRC)) Reply (ke_time E + TIMEOUT_NEW))"
    using look by (simp add: flow_key_def)
  from try_hit [OF assms(9) this] show ?thesis
    by (simp add: answers_def flow_key_eq translated_pkt [OF candidate_length [OF assms(9)]] r)
qed

end

end
