(* ===== verification/Sample_Traffic.thy ===== *)
theory Sample_Traffic
  imports Xdp_Datapath
begin

text \<open>
  Concrete packets and a concrete kernel environment, on which the properties of the data path
  are applied: a container 172.20.0.20 on a host 192.168.1.5, a remote 192.168.1.9, and host port
  10000 exposed for container port 11111. Each packet is the bytes from the Ethernet header on.
\<close>

text \<open>Container 172.20.0.20:40000 to 192.168.1.9:5201.\<close>

definition out_packet :: bytes where
  "out_packet = [2, 66, 1, 1, 1, 1, 2, 66, 172, 20, 0, 20, 8, 0,
     69, 0, 0, 30, 18, 52, 64, 0, 64, 17, 186, 193, 172, 20, 0, 20, 192, 168, 1, 9,
     156, 64, 20, 81, 0, 10, 121, 5, 104, 105]"

text \<open>Its reply, 192.168.1.9:5201 to the nic 192.168.1.5:40000.\<close>

definition reply_packet :: bytes where
  "reply_packet = [82, 84, 0, 0, 0, 5, 82, 84, 0, 0, 0, 1, 8, 0,
     69, 0, 0, 30, 18, 52, 64, 0, 64, 17, 165, 60, 192, 168, 1, 9, 192, 168, 1, 5,
     20, 81, 156, 64, 0, 10, 92, 126, 111, 107]"

text \<open>Another container, 172.20.0.30:40000, to the same 192.168.1.9:5201.\<close>

definition other_out_packet :: bytes where
  "other_out_packet = [2, 66, 1, 1, 1, 1, 2, 66, 172, 20, 0, 30, 8, 0,
     69, 0, 0, 30, 18, 52, 64, 0, 64, 17, 186, 183, 172, 20, 0, 30, 192, 168, 1, 9,
     156, 64, 20, 81, 0, 10, 120, 251, 104, 105]"

text \<open>192.168.1.9:33000 to the exposed port 192.168.1.5:10000.\<close>

definition in_packet :: bytes where
  "in_packet = [82, 84, 0, 0, 0, 5, 82, 84, 0, 0, 0, 1, 8, 0,
     69, 0, 0, 30, 18, 52, 64, 0, 64, 17, 165, 60, 192, 168, 1, 9, 192, 168, 1, 5,
     128, 232, 39, 16, 0, 10, 108, 25, 104, 105]"

text \<open>The container answers, 172.20.0.20:11111 to 192.168.1.9:33000.\<close>

definition answer_packet :: bytes where
  "answer_packet = [2, 66, 1, 1, 1, 1, 2, 66, 172, 20, 0, 20, 8, 0,
     69, 0, 0, 30, 18, 52, 64, 0, 64, 17, 186, 193, 172, 20, 0, 20, 192, 168, 1, 9,
     43, 103, 128, 232, 0, 10, 118, 69, 111, 107]"

text \<open>192.168.1.9:33000 to 192.168.1.5:10000 without a udp checksum.\<close>

definition zero_packet :: bytes where
  "zero_packet = [82, 84, 0, 0, 0, 5, 82, 84, 0, 0, 0, 1, 8, 0,
     69, 0, 0, 30, 18, 52, 64, 0, 64, 17, 165, 60, 192, 168, 1, 9, 192, 168, 1, 5,
     128, 232, 39, 16, 0, 10, 0, 0, 104, 105]"

definition sample_nic :: nic_info where
  "sample_nic = nic_info_new 3232235781 2"

definition sample_container :: container_info where
  "sample_container = \<lparr>container_ip = 2886991892, container_mac = Mac 2 66 172 20 0 20,
     container_port = 11111, ci_ifindex = 7\<rparr>"

definition sample_fib :: fib_helper where
  "sample_fib fib sz flags = (0, fib\<lparr>smac := Mac 82 84 0 0 0 5, dmac := Mac 82 84 0 0 0 1\<rparr>)"

definition sample_env :: "u64 \<Rightarrow> kernel_env" where
  "sample_env time = \<lparr>ke_time = time, ke_fib = sample_fib, ke_pnic = Some sample_nic,
     ke_expose = (\<lambda>port. if port = 10000 then Some sample_container else None),
     ke_ifindex = 2, ke_redirect = (\<lambda>key flags. Inr XDP_REDIRECT)\<rparr>"

text \<open>A conntrack map of four entries, large enough for two flows.\<close>

abbreviation "sample_ops \<equiv>
  table_ops 4 :: ((connection_tuple \<times> flow_state) list, connection_tuple, flow_state) bpf_map_ops"

lemma sample_store: "conntrack_store sample_ops 4"
  by (intro conntrack_store.intro conntrack_map.intro table_ops_hash table_ops_bounded)

lemma sample_map: "conntrack_map sample_ops"
  by (rule conntrack_map.intro) (rule table_ops_hash)

lemma sample_lookup_empty [simp]: "table_lookup n [] k = None"
  by (simp add: table_lookup_def table_norm_def)

lemma sample_dom_empty [simp]: "dom (table_lookup n []) = {}"
  by auto

lemma sample_lookup_single [simp]:
  "0 < n \<Longrightarrow> table_lookup n [(j, x)] k = (if k = j then Some x else None)"
  by (cases n) (simp_all add: table_lookup_def table_norm_def)

definition sample_macs :: fib_macs where
  "sample_macs = \<lparr>fib_smac = Mac 82 84 0 0 0 5, fib_dmac = Mac 82 84 0 0 0 1\<rparr>"

lemma sample_env_sel [simp]:
  "ke_time (sample_env t) = t" "ke_pnic (sample_env t) = Some sample_nic"
  "ke_expose (sample_env t) 10000 = Some sample_container"
  by (simp_all add: sample_env_def)

lemma sample_get_fib_macs:
  "get_fib_macs (ke_fib (sample_env t)) a b c d e = Some sample_macs"
  by (simp add: sample_env_def get_fib_macs_def do_fib_lookup_def sample_fib_def sample_macs_def)

lemma sample_routes [simp]:
  "snat_route (sample_env t) info d p = Some sample_macs"
  "dnat_route (sample_env t) s d p = Some sample_macs"
  by (simp_all add: snat_route_def dnat_route_def sample_get_fib_macs)

lemma sample_candidates [simp]:
  "nat_candidate out_packet" "nat_candidate reply_packet" "nat_candidate in_packet"
  "nat_candidate zero_packet" "nat_candidate answer_packet" "nat_candidate other_out_packet"
  by code_simp+

lemma sample_addresses [simp]:
  "pkt_src out_packet = 2886991892" "pkt_dst out_packet = 3232235785"
  "pkt_sport out_packet = 40000" "pkt_dport out_packet = 5201"
  "pkt_src reply_packet = 3232235785" "pkt_dst reply_packet = 3232235781"
  "pkt_sport reply_packet = 5201" "pkt_dport reply_packet = 40000"
  "pkt_src in_packet = 3232235785" "pkt_dst in_packet = 3232235781"
  "pkt_sport in_packet = 33000" "pkt_dport in_packet = 10000"
  "pkt_src zero_packet = 3232235785" "pkt_dst zero_packet = 3232235781"
  "pkt_sport zero_packet = 33000" "pkt_dport zero_packet = 10000"
  "pkt_src answer_packet = 2886991892" "pkt_dst answer_packet = 3232235785"
  "pkt_sport answer_packet = 11111" "pkt_dport answer_packet = 33000"
  "pkt_src other_out_packet = 2886991902" "pkt_dst other_out_packet = 3232235785"
  "pkt_sport other_out_packet = 40000" "pkt_dport other_out_packet = 5201"
  by code_simp+

lemma sample_nic_sel [simp]: "nic_ip sample_nic = 3232235781" "nic_ifindex sample_nic = 2"
  by (simp_all add: sample_nic_def nic_info_new_def)

lemma sample_container_sel [simp]:
  "container_ip sample_container = 2886991892" "container_port sample_container = 11111"
  "container_mac sample_container = Mac 2 66 172 20 0 20"
  by (simp_all add: sample_container_def)

lemma sample_checks [simp]:
  "u16_at out_packet UDP_CHECK \<noteq> 0" "u16_at reply_packet UDP_CHECK \<noteq> 0"
  "u16_at in_packet UDP_CHECK \<noteq> 0" "u16_at answer_packet UDP_CHECK \<noteq> 0"
  "u16_at zero_packet UDP_CHECK = 0"
  by code_simp+

lemma sample_valid [simp]: "inet_valid (ip_header out_packet)" "udp_complete out_packet"
  by code_simp+

lemma sample_udp_valid [simp]: "inet_valid (udp_pseudo out_packet)"
  by code_simp

lemma sample_out_run:
  "\<exists>r q ct'. try_xdp_redirect sample_ops (sample_env 5) Snat out_packet [] = Some (r, q, ct')"
  using try_snat_new [of out_packet sample_ops "[]" "sample_env 5"] by simp

lemma sample_redirect [simp]: "redirect_code (sample_env t) k = XDP_REDIRECT"
  by (simp add: redirect_code_def sample_env_def)

lemma sample_out_flow:
  "\<exists>q ct'. try_xdp_redirect sample_ops (sample_env 5) Snat out_packet [] =
     Some (Inr XDP_REDIRECT, q, ct')
     \<and> flow_key q = connection_tuple_new 3232235781 3232235785 40000 5201"
  using conntrack_store.snat_creates [OF sample_store sample_candidates(1), of "sample_env 5"
      sample_nic sample_macs "[]", OF _ _ _ refl]
  by auto

lemma sample_in_flow:
  "\<exists>q ct'. try_xdp_redirect sample_ops (sample_env 5) Dnat in_packet [] =
     Some (Inr XDP_REDIRECT, q, ct')
     \<and> flow_key q = connection_tuple_new 3232235785 2886991892 33000 11111"
  using conntrack_store.dnat_creates [OF sample_store sample_candidates(3), of "sample_env 5"
      sample_container sample_macs "[]", OF _ _ _ _ refl]
  by auto

lemma sample_out_answered:
  "\<exists>q ct'. try_xdp_redirect sample_ops (sample_env 5) Snat out_packet [] =
     Some (Inr XDP_REDIRECT, q, ct')
     \<and> answers reply_packet q \<and> bm_lookup sample_ops ct' (flow_key reply_packet) \<noteq> None
     \<and> bm_lookup sample_ops ct' (flow_key other_out_packet) = None"
  using conntrack_store.snat_creates [OF sample_store sample_candidates(1), of "sample_env 5"
      sample_nic sample_macs "[]", OF _ _ _ refl]
  by (auto simp: answers_def flow_key_def)

text \<open>A map with the flow of the first packet alone, timing out at 5 ns.\<close>

definition sample_flow :: flow_state where
  "sample_flow = flow_state_new (snat_translation sample_nic 40000 sample_macs) Original 5"

definition sample_ct :: "(connection_tuple \<times> flow_state) list" where
  "sample_ct = [(flow_key out_packet, sample_flow)]"

lemma sample_ct_lookup: "bm_lookup sample_ops sample_ct (flow_key out_packet) = Some sample_flow"
  by (simp add: sample_ct_def table_ops_def)

end
