(* ===== verification/Datapath_Properties.thy ===== *)
theory Datapath_Properties
  imports Sample_Traffic
begin

text \<open>
  Properties of the kernel programs: memory safety and totality, which packets are touched and
  where, checksums before and after, translation of both directions of a flow, and the timeout
  refresh. Each holds for every conntrack map that satisfies the contract of \<open>Bpf_Maps\<close>.
\<close>

section \<open>Safety\<close>

text \<open>
  C6: A run of either program never reads or writes outside the packet and never reports an
  error, whatever the packet, the kernel state and the map operations: it returns an action with a
  packet of the same length. Either the action is \<open>XDP_PASS\<close> and nothing has changed, or the
  packet is an unfragmented IPv4/UDP datagram and the action is the result of the redirect.
\<close>

theorem redirect_memory_safe:
  "\<exists>code q ct'. try_xdp_redirect K E flag p ct = Some (Inr code, q, ct') \<and> length q = length p
     \<and> (code = XDP_PASS \<and> q = p \<and> ct' = ct \<or> nat_candidate p \<and> (\<exists>key. code = redirect_code E key))"
proof (rule try_xdp_redirect_cases [of K E flag p ct])
  fix n ct'
  assume "nat_candidate p" and
    "try_xdp_redirect K E flag p ct =
       Some (Inr (redirect_code E (devmap_key n)), translated flag n p, ct')"
  then show ?thesis
    using length_translated [OF candidate_length] by auto
qed simp

text \<open>
  The entry points return the code of \<open>try_xdp_redirect\<close>: \<open>XDP_ABORTED\<close>, the value for an
  error, is never substituted.
\<close>

theorem entry_points_return_code:
  "\<exists>c1 c2 r1 r2. xdp_redirect_containers K E p ct = Some (c1, r1)
     \<and> try_xdp_redirect K E Snat p ct = Some (Inr c1, r1)
     \<and> xdp_redirect_host K E p ct = Some (c2, r2)
     \<and> try_xdp_redirect K E Dnat p ct = Some (Inr c2, r2)"
  by (rule entry_points_run)

text \<open>
  A packet that is too short, is not IPv4, carries IP options, is a fragment, or is not UDP
  goes on to the kernel stack unmodified, and no flow is created or refreshed.
\<close>

theorem ineligible_packet_untouched:
  assumes "length p < HEADERS_LEN \<or> u16_at p ETH_TYPE \<noteq> ETHERTYPE_IPV4
    \<or> p ! IP_PROTO \<noteq> IPPROTO_UDP \<or> p ! IP_VIHL AND 0x0F \<noteq> 5
    \<or> swap16 (u16_at p IP_FRAGS) AND (IP_MF OR IP_OFFSET) \<noteq> 0"
  shows "try_xdp_redirect K E flag p ct = Some (Inr XDP_PASS, p, ct)"
  using assms by (intro not_candidate_passes) (auto simp: nat_candidate_def)

theorem ineligible_packet_untouched_witness:
  "try_xdp_redirect sample_ops (sample_env 5) Dnat (take 41 out_packet) [] =
     Some (Inr XDP_PASS, take 41 out_packet, [])"
  by (rule ineligible_packet_untouched) (simp add: out_packet_def)

text \<open>
  C28: A translation writes the Ethernet addresses, the IPv4 checksum, the translated address and
  port and the UDP checksum; every other byte of the packet, payload included, is as received.
\<close>

theorem redirect_frame:
  assumes "try_xdp_redirect K E flag p ct = Some (r, q, ct')"
    and "i < length p" "i \<notin> nat_bytes flag"
  shows "q ! i = p ! i"
  using assms translated_other [OF candidate_length, of p i flag]
  by (cases rule: try_xdp_redirect_cases [of K E flag p ct]) auto

theorem redirect_frame_witness:
  "\<exists>r q ct'. try_xdp_redirect sample_ops (sample_env 5) Snat out_packet [] = Some (r, q, ct')
     \<and> q ! 42 = out_packet ! 42"
proof -
  obtain r q ct' where
    run: "try_xdp_redirect sample_ops (sample_env 5) Snat out_packet [] = Some (r, q, ct')"
    using sample_out_run by blast
  have "42 < length out_packet" "42 \<notin> nat_bytes Snat"
    by (simp_all add: out_packet_def nat_bytes_def addr_field_def port_field_def)
  from redirect_frame [OF run this] run show ?thesis by blast
qed

section \<open>Checksums\<close>

text \<open>
  The incremental update has a closed form: replacing \<open>from\<close> by \<open>to\<close> in data with the
  16-bit checksum \<open>c\<close> gives \<open>(c + from - to) mod 65535\<close>, so the result is never the redundant
  one's complement zero \<open>0xffff\<close>.
\<close>

theorem csum_replace4_closed_form:
  "uint (csum_replace4 (ucast (c :: u16)) from to) = (uint c + uint from - uint to) mod 65535"
  by (rule uint_csum_replace4_field)

text \<open>
  Undoing a replacement restores the checksum, so translating a field and translating it
  back leaves a packet with the checksum it had.
\<close>

theorem csum_replace4_undo:
  fixes c :: u16
  assumes "c \<noteq> 0xFFFF"
  shows "csum_replace4 (ucast (csum_replace4 (ucast c) from to)) to from = c"
proof -
  have "uint c \<noteq> 65535"
    using assms by (auto simp: word_uint_eq_iff)
  then have c: "uint c mod 65535 = uint c"
    using uint_word_less(2) [of c] by simp
  have "uint (csum_replace4 (ucast (csum_replace4 (ucast c) from to)) to from)
      = ((uint c + uint from - uint to) mod 65535 + (uint to - uint from)) mod 65535"
    by (simp only: uint_csum_replace4_field add_diff_eq)
  also have "\<dots> = uint c mod 65535"
    by (simp only: mod_add_left_eq) simp
  finally show ?thesis
    by (simp only: c word_uint_eq_iff)
qed

theorem csum_replace4_undo_witness:
  "csum_replace4 (ucast (csum_replace4 (ucast (0xbac1 :: u16)) 0x1400ac 0x501a8c0)) 0x501a8c0 0x1400ac
     = (0xbac1 :: u16)"
  by (rule csum_replace4_undo) simp

text \<open>
  C10: A packet that arrives with a valid IPv4 header checksum leaves with a valid one, whether it
  is translated or passed on.
\<close>

theorem ip_checksum_preserved:
  assumes "try_xdp_redirect K E flag p ct = Some (r, q, ct')"
    and "inet_valid (ip_header p)"
  shows "inet_valid (ip_header q)"
proof (rule try_xdp_redirect_cases [of K E flag p ct])
  fix n ct2
  assume cand: "nat_candidate p" and
    run: "try_xdp_redirect K E flag p ct =
       Some (Inr (redirect_code E (devmap_key n)), translated flag n p, ct2)"
  note len = candidate_length [OF cand]
  have "inet_valid (ip_header (translated flag n p))"
    using of_flag.ip_header_valid [OF len apply_of_flag [OF len] candidate_vihl [OF cand]] assms(2)
    by (simp add: translated_ip_header [OF len])
  then show ?thesis using run assms(1) by simp
qed (use assms in simp)

theorem ip_checksum_preserved_witness:
  "\<exists>r q ct'. try_xdp_redirect sample_ops (sample_env 5) Snat out_packet [] = Some (r, q, ct')
     \<and> inet_valid (ip_header q)"
proof -
  obtain r q ct' where
    run: "try_xdp_redirect sample_ops (sample_env 5) Snat out_packet [] = Some (r, q, ct')"
    using sample_out_run by blast
  from ip_checksum_preserved [OF run sample_valid(1)] run show ?thesis by blast
qed



text \<open>
  C9: A complete datagram with a valid nonzero UDP checksum, over the RFC 768 pseudo header and
  the payload, leaves with a valid one that is nonzero: a computed zero is sent as \<open>0xffff\<close>.
\<close>

theorem udp_checksum_preserved:
  assumes "try_xdp_redirect K E flag p ct = Some (r, q, ct')"
    and "udp_complete p" "u16_at p UDP_CHECK \<noteq> 0" "inet_valid (udp_pseudo p)"
  shows "inet_valid (udp_pseudo q) \<and> u16_at q UDP_CHECK \<noteq> 0"
proof (rule try_xdp_redirect_cases [of K E flag p ct])
  fix n ct2
  assume cand: "nat_candidate p" and
    run: "try_xdp_redirect K E flag p ct =
       Some (Inr (redirect_code E (devmap_key n)), translated flag n p, ct2)"
  note len = candidate_length [OF cand]
  have "inet_valid (udp_pseudo (translated flag n p))"
    using of_flag.udp_valid [OF len apply_of_flag [OF len] assms(2,3)] assms(4)
    by (simp add: translated_udp_pseudo [OF len assms(2)])
  then show ?thesis
    using run assms(1,3) translated_udp_check [OF len] by simp
qed (use assms in simp)

theorem udp_checksum_preserved_witness:
  "\<exists>r q ct'. try_xdp_redirect sample_ops (sample_env 5) Snat out_packet [] = Some (r, q, ct')
     \<and> inet_valid (udp_pseudo q) \<and> u16_at q UDP_CHECK \<noteq> 0"
proof -
  obtain r q ct' where
    run: "try_xdp_redirect sample_ops (sample_env 5) Snat out_packet [] = Some (r, q, ct')"
    using sample_out_run by blast
  from udp_checksum_preserved [OF run sample_valid(2) sample_checks(1) sample_udp_valid] run
  show ?thesis by blast
qed

section \<open>Translation of both directions\<close>

text \<open>
  The first packet of a flow from a container, when the NIC is configured and the kernel has a
  route, leaves with the NIC's address and its own source port, redirected to the NIC (key 0); the
  flow and its reply are both recorded, and no other entry of the conntrack map changes.
\<close>

theorem outgoing_flow_created:
  assumes "conntrack_store K cap" "nat_candidate p"
    and "ke_pnic E = Some info" "snat_route E info (pkt_dst p) p = Some macs"
    and "bm_lookup K ct (flow_key p) = None"
    and "rkey = connection_tuple_new (pkt_dst p) (nic_ip info) (pkt_dport p) (pkt_sport p)"
    and "bm_lookup K ct rkey = None" "pkt_src p \<noteq> pkt_dst p"
    and "card (dom (bm_lookup K ct)) + 2 \<le> cap"
  shows "\<exists>q ct'. try_xdp_redirect K E Snat p ct = Some (Inr (redirect_code E 0), q, ct')
     \<and> flow_key q = connection_tuple_new (nic_ip info) (pkt_dst p) (pkt_sport p) (pkt_dport p)
     \<and> mac_at q ETH_SRC = fib_smac macs \<and> mac_at q ETH_DST = fib_dmac macs
     \<and> bm_lookup K ct' = (bm_lookup K ct)
         (flow_key p \<mapsto> flow_state_new (snat_translation info (pkt_sport p) macs) Original
            (ke_time E + TIMEOUT_NEW),
          rkey \<mapsto> flow_state_new (snat_reply_translation (pkt_src p) (pkt_sport p) macs
            (mac_at p ETH_SRC)) Reply (ke_time E + TIMEOUT_NEW))"
  by (rule conntrack_store.snat_creates [OF assms])

theorem outgoing_flow_created_witness:
  "\<exists>q ct'. try_xdp_redirect sample_ops (sample_env 5) Snat out_packet [] =
       Some (Inr (redirect_code (sample_env 5) 0), q, ct')
     \<and> flow_key q = connection_tuple_new 3232235781 3232235785 40000 5201"
proof -
  have "\<exists>q ct'. try_xdp_redirect sample_ops (sample_env 5) Snat out_packet [] =
      Some (Inr (redirect_code (sample_env 5) 0), q, ct')
     \<and> flow_key q = connection_tuple_new (nic_ip sample_nic) (pkt_dst out_packet)
         (pkt_sport out_packet) (pkt_dport out_packet)"
    using outgoing_flow_created [OF sample_store, of out_packet "sample_env 5" sample_nic
        sample_macs "[]", OF _ _ _ _ refl]
    by auto
  then show ?thesis by simp
qed

text \<open>
  C11: The answer to a translated packet, the packet with both addresses and ports exchanged, is
  delivered to the container that sent the first one: its destination becomes the container's
  address and port, its destination MAC the container's, and it is redirected to the container's
  interface. Nothing is assumed of the kernel's state when the answer arrives.
\<close>

theorem reply_reaches_sender:
  assumes "conntrack_store K cap" "nat_candidate p"
    and "ke_pnic E = Some info" "snat_route E info (pkt_dst p) p = Some macs"
    and "bm_lookup K ct (flow_key p) = None"
    and "bm_lookup K ct (connection_tuple_new (pkt_dst p) (nic_ip info) (pkt_dport p) (pkt_sport p))
           = None"
    and "pkt_src p \<noteq> pkt_dst p" "card (dom (bm_lookup K ct)) + 2 \<le> cap"
    and "try_xdp_redirect K E Snat p ct = Some (Inr c, q, ct1)"
    and "nat_candidate r" "answers r q"
  shows "\<exists>r' ct2. try_xdp_redirect K E' Dnat r ct1 = Some (Inr (redirect_code E' (pkt_src p)), r', ct2)
     \<and> answers r' p \<and> mac_at r' ETH_DST = mac_at p ETH_SRC"
  by (rule conntrack_store.snat_answered [OF assms])

theorem reply_reaches_sender_witness:
  "\<exists>q ct1. try_xdp_redirect sample_ops (sample_env 5) Snat out_packet [] = Some (Inr XDP_REDIRECT, q, ct1)
     \<and> (\<exists>r' ct2. try_xdp_redirect sample_ops (sample_env 9) Dnat reply_packet ct1 =
           Some (Inr (redirect_code (sample_env 9) 2886991892), r', ct2)
         \<and> answers r' out_packet \<and> mac_at r' ETH_DST = mac_at out_packet ETH_SRC)"
proof -
  obtain q ct1 where
    run: "try_xdp_redirect sample_ops (sample_env 5) Snat out_packet [] = Some (Inr XDP_REDIRECT, q, ct1)"
    and q: "flow_key q = connection_tuple_new 3232235781 3232235785 40000 5201"
    using sample_out_flow by blast
  have "answers reply_packet q"
    using q by (simp add: answers_def flow_key_eq)
  with run reply_reaches_sender [OF sample_store sample_candidates(1) _ _ _ _ _ _ run
      sample_candidates(2), of sample_nic sample_macs "sample_env 9"]
  show ?thesis by simp
qed

text \<open>
  C12: Traffic from outside to an exposed port round-trips: the datagram reaches the container's
  address and port with the container's MAC, and the container's answer leaves through the NIC
  with the host address and the exposed port as its source, as an answer to what the remote sent.
  Both datagrams carry a UDP checksum.
\<close>

theorem exposed_port_roundtrip:
  assumes "conntrack_store K cap" "nat_candidate p" "u16_at p UDP_CHECK \<noteq> 0"
    and "ke_expose E (pkt_dport p) = Some info" "dnat_route E (pkt_src p) (pkt_dst p) p = Some macs"
    and "bm_lookup K ct (flow_key p) = None"
    and "bm_lookup K ct (connection_tuple_new (container_ip info) (pkt_src p) (container_port info)
           (pkt_sport p)) = None"
    and "pkt_src p \<noteq> container_ip info" "card (dom (bm_lookup K ct)) + 2 \<le> cap"
    and "try_xdp_redirect K E Dnat p ct = Some (Inr c, q, ct1)"
    and "nat_candidate r" "u16_at r UDP_CHECK \<noteq> 0" "answers r q"
  shows "c = redirect_code E (container_ip info)
     \<and> flow_key q = connection_tuple_new (pkt_src p) (container_ip info) (pkt_sport p)
         (container_port info)
     \<and> mac_at q ETH_DST = container_mac info
     \<and> (\<exists>r' ct2. try_xdp_redirect K E' Snat r ct1 = Some (Inr (redirect_code E' 0), r', ct2)
         \<and> answers r' p \<and> mac_at r' ETH_SRC = fib_smac macs \<and> mac_at r' ETH_DST = fib_dmac macs)"
proof -
  have c: "c = redirect_code E (container_ip info)" "mac_at q ETH_DST = container_mac info"
    and created: "flow_key q = connection_tuple_new (pkt_src p) (container_ip info) (pkt_sport p)
      (container_port info)"
    and look: "bm_lookup K ct1 (connection_tuple_new (container_ip info) (pkt_src p)
      (container_port info) (pkt_sport p)) = Some (flow_state_new
        (dnat_reply_translation (pkt_dst p) (pkt_dport p) macs) Reply (ke_time E + TIMEOUT_NEW))"
    using conntrack_store.dnat_creates [OF assms(1-6) refl assms(7-9)] assms(10) by auto
  from created have r: "pkt_src r = container_ip info" "pkt_dst r = pkt_src p"
      "pkt_sport r = container_port info" "pkt_dport r = pkt_sport p"
    using assms(13) by (simp_all add: answers_def flow_key_eq)
  then have "bm_lookup K ct1 (flow_key r) = Some (flow_state_new
      (dnat_reply_translation (pkt_dst p) (pkt_dport p) macs) Reply (ke_time E + TIMEOUT_NEW))"
    using look by (simp add: flow_key_def)
  from try_hit [OF assms(11) this] assms(12) show ?thesis
    by (simp add: c created answers_def flow_key_eq
        translated_pkt [OF candidate_length [OF assms(11)]] r)
qed

theorem exposed_port_roundtrip_witness:
  "\<exists>q ct1 r' ct2. try_xdp_redirect sample_ops (sample_env 5) Dnat in_packet [] =
       Some (Inr XDP_REDIRECT, q, ct1)
     \<and> try_xdp_redirect sample_ops (sample_env 9) Snat answer_packet ct1 =
       Some (Inr (redirect_code (sample_env 9) 0), r', ct2) \<and> answers r' in_packet"
proof -
  obtain q ct1 where
    run: "try_xdp_redirect sample_ops (sample_env 5) Dnat in_packet [] = Some (Inr XDP_REDIRECT, q, ct1)"
    and q: "flow_key q = connection_tuple_new 3232235785 2886991892 33000 11111"
    using sample_in_flow by blast
  have "answers answer_packet q"
    using q by (simp add: answers_def flow_key_eq)
  with run exposed_port_roundtrip [OF sample_store sample_candidates(3) sample_checks(3) _ _ _ _ _ _ run
      sample_candidates(5) sample_checks(4), of sample_container sample_macs "sample_env 9"]
  show ?thesis by auto
qed

end
