(* ===== verification/Flow_Properties.thy ===== *)
theory Flow_Properties
  imports Sample_Traffic
begin

text \<open>
  Properties of tracked flows: what a packet of a flow does to the conntrack map, how long the
  flow then lives, how the first reply establishes it, and the cases in which no translation or an
  unexpected one takes place.
\<close>

section \<open>A packet of a tracked flow\<close>

context conntrack_map
begin

lemma evolves_keeps:
  assumes "ct_evolves K time ct key ct'" and "bm_lookup K ct k = Some st"
  shows "\<exists>st'. bm_lookup K ct' k = Some st' \<and> flow_nat st' = flow_nat st
    \<and> flow_direction st' = flow_direction st"
  using assms unfolding ct_evolves_def
  by (elim disjE exE conjE) (auto simp: lookup_hit_ct create_keeps)

lemma run_keeps:
  assumes "try_xdp_redirect K E flag p ct = Some (r, q, ct')" "bm_lookup K ct k = Some st"
  shows "\<exists>st'. bm_lookup K ct' k = Some st' \<and> flow_nat st' = flow_nat st
    \<and> flow_direction st' = flow_direction st"
  using assms evolves_keeps [of "ke_time E" ct "flow_key p" ct' k st]
  by (cases rule: try_xdp_redirect_cases [of K E flag p ct]) auto

text \<open>The first reply marks both directions as established.\<close>

lemma reply_establishes:
  assumes "nat_candidate r" "bm_lookup K ct (flow_key r) = Some st"
    and "flow_direction st = Reply" "\<not> seen_reply st"
    and "rkey = reverse_key flag (flow_key r) (flow_nat st)"
    and "bm_lookup K ct rkey = Some orig" "rkey \<noteq> flow_key r"
  shows "\<exists>ct'. try_xdp_redirect K E flag r ct =
       Some (Inr (redirect_code E (devmap_key (flow_nat st))), translated flag (flow_nat st) r, ct')
     \<and> bm_lookup K ct' (flow_key r) =
         Some (st\<lparr>seen_reply := True, timeout := ke_time E + TIMEOUT_EST\<rparr>)
     \<and> bm_lookup K ct' rkey =
         Some (orig\<lparr>seen_reply := True, timeout := ke_time E + TIMEOUT_EST\<rparr>)"
proof -
  have "refresh_flow (ke_time E) st =
      (st\<lparr>seen_reply := True, timeout := ke_time E + TIMEOUT_EST\<rparr>, True)"
    using assms(3,4) by (simp add: refresh_flow_def)
  then show ?thesis
    using try_hit [OF assms(1,2), of E flag] assms(5-7)
    by (simp add: lookup_hit_ct [OF assms(2)] with_times_def)
qed

end



text \<open>
  No packet removes or retargets a flow: whatever a run does, every entry of the conntrack map
  is still there after it, with the translation and direction it had.
\<close>

theorem packet_keeps_flows:
  assumes "conntrack_map K" "try_xdp_redirect K E flag p ct = Some (r, q, ct')"
    and "bm_lookup K ct k = Some st"
  shows "\<exists>st'. bm_lookup K ct' k = Some st' \<and> flow_nat st' = flow_nat st
    \<and> flow_direction st' = flow_direction st"
  by (rule conntrack_map.run_keeps [OF assms])

theorem packet_keeps_flows_witness:
  "\<exists>r q ct'. try_xdp_redirect sample_ops (sample_env 40) Snat out_packet sample_ct = Some (r, q, ct')
     \<and> (\<exists>st'. bm_lookup sample_ops ct' (flow_key out_packet) = Some st'
          \<and> flow_nat st' = flow_nat sample_flow \<and> flow_direction st' = flow_direction sample_flow)"
proof -
  obtain r q ct' where
    run: "try_xdp_redirect sample_ops (sample_env 40) Snat out_packet sample_ct = Some (r, q, ct')"
    using try_hit [OF sample_candidates(1) sample_ct_lookup] by blast
  from packet_keeps_flows [OF sample_map run sample_ct_lookup] run show ?thesis by blast
qed

text \<open>
  C23: A packet extends the life of its flow: while the clock is away from its wrap-around and the
  stored timeout is not beyond the longest lifetime, the timeout never moves back, stays within the
  longest lifetime, and afterwards the flow has at least its lifetime left (30 s, or 180 s once a
  reply was seen) less the update threshold of 1 s.
\<close>

theorem packet_extends_lifetime:
  assumes "conntrack_map K" "nat_candidate p" "bm_lookup K ct (flow_key p) = Some st"
    and "try_xdp_redirect K E flag p ct = Some (r, q, ct')"
    and "clock_ok (ke_time E)" "unat (timeout st) \<le> unat (ke_time E) + 180000000000"
  shows "\<exists>st'. bm_lookup K ct' (flow_key p) = Some st'
     \<and> unat (timeout st) \<le> unat (timeout st')
     \<and> unat (timeout st') \<le> unat (ke_time E) + 180000000000
     \<and> unat (ke_time E) + lifetime (seen_reply st') \<le> unat (timeout st') + 1000000000
     \<and> (seen_reply st' \<longleftrightarrow> seen_reply st \<or> flow_direction st = Reply)"
  using try_hit [OF assms(2,3), of E flag] assms(4)
    conntrack_map.lookup_hit_ct_key [OF assms(1,3)]
    refresh_flow_mono [OF assms(5,6)] refresh_flow_upper [OF assms(5,6)]
    refresh_flow_lower [OF assms(5), of st] refresh_flow_seen [of "ke_time E" st]
  by simp

theorem packet_extends_lifetime_witness:
  "\<exists>r q ct'. try_xdp_redirect sample_ops (sample_env 5000000000) Snat out_packet sample_ct =
       Some (r, q, ct')
     \<and> (\<exists>st'. bm_lookup sample_ops ct' (flow_key out_packet) = Some st'
         \<and> 5000000000 + lifetime (seen_reply st') \<le> unat (timeout st') + 1000000000)"
proof -
  obtain r q ct' where
    run: "try_xdp_redirect sample_ops (sample_env 5000000000) Snat out_packet sample_ct = Some (r, q, ct')"
    using try_hit [OF sample_candidates(1) sample_ct_lookup] by blast
  have "clock_ok (ke_time (sample_env 5000000000))"
    "unat (timeout sample_flow) \<le> unat (ke_time (sample_env 5000000000)) + 180000000000"
    by (simp_all add: clock_ok_def sample_flow_def flow_state_new_def)
  from packet_extends_lifetime [OF sample_map sample_candidates(1) sample_ct_lookup run this] run
  show ?thesis by auto
qed

section \<open>Establishing a flow\<close>

text \<open>
  C21: The first answer to a container's packet establishes the flow in both directions: the entry
  of the container's packet and the entry of its answers both have seen a reply and live 180 s from
  the answer on.
\<close>

theorem first_answer_establishes:
  assumes "conntrack_store K cap" "nat_candidate p"
    and "ke_pnic E = Some info" "snat_route E info (pkt_dst p) p = Some macs"
    and "bm_lookup K ct (flow_key p) = None"
    and "bm_lookup K ct (connection_tuple_new (pkt_dst p) (nic_ip info) (pkt_dport p) (pkt_sport p))
           = None"
    and "pkt_src p \<noteq> pkt_dst p" "card (dom (bm_lookup K ct)) + 2 \<le> cap"
    and "try_xdp_redirect K E Snat p ct = Some (Inr c, q, ct1)"
    and "nat_candidate r" "answers r q"
    and "try_xdp_redirect K E' Dnat r ct1 = Some (Inr c', r', ct2)"
    and "k = flow_key p \<or> k = flow_key r"
  shows "\<exists>st. bm_lookup K ct2 k = Some st \<and> seen_reply st \<and> timeout st = ke_time E' + TIMEOUT_EST"
proof -
  let ?rn = "snat_reply_translation (pkt_src p) (pkt_sport p) macs (mac_at p ETH_SRC)"
  let ?orig = "flow_state_new (snat_translation info (pkt_sport p) macs) Original
    (ke_time E + TIMEOUT_NEW)"
  let ?reply = "flow_state_new ?rn Reply (ke_time E + TIMEOUT_NEW)"
  have q: "flow_key q = connection_tuple_new (nic_ip info) (pkt_dst p) (pkt_sport p) (pkt_dport p)"
    and ct1: "bm_lookup K ct1 = (bm_lookup K ct)(flow_key p \<mapsto> ?orig,
      connection_tuple_new (pkt_dst p) (nic_ip info) (pkt_dport p) (pkt_sport p) \<mapsto> ?reply)"
    using conntrack_store.snat_creates [OF assms(1-5) refl assms(6-8)] assms(9) by auto
  from q have r: "flow_key r = connection_tuple_new (pkt_dst p) (nic_ip info) (pkt_dport p) (pkt_sport p)"
    using assms(11) by (simp add: answers_def flow_key_eq)
  then have ne: "flow_key p \<noteq> flow_key r"
    using assms(7) by (auto simp: flow_key_def)
  have "reverse_key Dnat (flow_key r) ?rn = flow_key p"
    using r by (simp add: reverse_key_def flow_key_def)
  moreover have "bm_lookup K ct1 (flow_key r) = Some ?reply" "bm_lookup K ct1 (flow_key p) = Some ?orig"
    using ct1 ne by (simp_all add: r)
  moreover have "flow_direction ?reply = Reply" "\<not> seen_reply ?reply" "flow_nat ?reply = ?rn"
    by (simp_all add: flow_state_new_def)
  ultimately show ?thesis
    using conntrack_map.reply_establishes [OF conntrack_store.axioms(1) [OF assms(1)] assms(10),
        of ct1 ?reply "flow_key p" Dnat ?orig E'] ne assms(12,13)
    by auto
qed

theorem first_answer_establishes_witness:
  "\<exists>q ct1 r' ct2. try_xdp_redirect sample_ops (sample_env 5) Snat out_packet [] =
       Some (Inr XDP_REDIRECT, q, ct1)
     \<and> try_xdp_redirect sample_ops (sample_env 9) Dnat reply_packet ct1 =
       Some (Inr XDP_REDIRECT, r', ct2)
     \<and> (\<exists>st. bm_lookup sample_ops ct2 (flow_key out_packet) = Some st \<and> seen_reply st
          \<and> timeout st = 9 + TIMEOUT_EST)"
proof -
  obtain q ct1 where
    run: "try_xdp_redirect sample_ops (sample_env 5) Snat out_packet [] = Some (Inr XDP_REDIRECT, q, ct1)"
    and ans: "answers reply_packet q"
    and "bm_lookup sample_ops ct1 (flow_key reply_packet) \<noteq> None"
    using sample_out_answered by blast
  then obtain st where look: "bm_lookup sample_ops ct1 (flow_key reply_packet) = Some st"
    by blast
  obtain r' ct2 where
    run': "try_xdp_redirect sample_ops (sample_env 9) Dnat reply_packet ct1 =
      Some (Inr XDP_REDIRECT, r', ct2)"
    using try_hit [OF sample_candidates(2) look, of "sample_env 9" Dnat] by auto
  from run run' first_answer_establishes [OF sample_store sample_candidates(1) _ _ _ _ _ _ run
      sample_candidates(2) ans run', of sample_nic sample_macs "flow_key out_packet"]
  show ?thesis by auto
qed

section \<open>No translation, and unexpected ones\<close>

text \<open>
  Without an entry in the conntrack map a packet from outside to a port that is not exposed,
  or for whose sender there is no route back, goes to the host's own stack unmodified and creates
  no flow; likewise a container's packet when the NIC is not configured or there is no route.
\<close>

theorem unexposed_traffic_passes:
  assumes "bm_lookup K ct (flow_key p) = None"
    and "flag = Dnat \<Longrightarrow> ke_expose E (pkt_dport p) = None \<or> dnat_route E (pkt_src p) (pkt_dst p) p = None"
    and "flag = Snat \<Longrightarrow> ke_pnic E = None \<or>
           (\<exists>info. ke_pnic E = Some info \<and> snat_route E info (pkt_dst p) p = None)"
  shows "try_xdp_redirect K E flag p ct = Some (Inr XDP_PASS, p, ct)"
proof (cases flag)
  case Snat
  then show ?thesis
    using assms(3) by (auto intro!: try_snat_pass [OF assms(1)])
next
  case Dnat
  then show ?thesis
    using assms(2) by (simp add: try_dnat_pass [OF assms(1)])
qed

theorem unexposed_traffic_passes_witness:
  "try_xdp_redirect sample_ops (sample_env 5) Dnat reply_packet [] = Some (Inr XDP_PASS, reply_packet, [])"
  by (rule unexposed_traffic_passes) (simp_all add: sample_env_def table_ops_def)

text \<open>
  C37: A datagram without a UDP checksum to an exposed port reaches the container's address but
  keeps the host port as its destination: the port is rewritten only together with the checksum.
\<close>

theorem zero_checksum_keeps_port:
  assumes "nat_candidate p" "u16_at p UDP_CHECK = 0"
    and "bm_lookup K ct (flow_key p) = None"
    and "ke_expose E (pkt_dport p) = Some info" "dnat_route E (pkt_src p) (pkt_dst p) p = Some macs"
  shows "\<exists>q ct'. try_xdp_redirect K E Dnat p ct =
       Some (Inr (redirect_code E (container_ip info)), q, ct')
     \<and> pkt_dst q = container_ip info \<and> pkt_dport q = pkt_dport p"
  using try_dnat_new [OF assms(1,3-5)] assms(2)
  by (simp add: translated_pkt [OF candidate_length [OF assms(1)]])

theorem zero_checksum_keeps_port_witness:
  "\<exists>q ct'. try_xdp_redirect sample_ops (sample_env 5) Dnat zero_packet [] =
       Some (Inr XDP_REDIRECT, q, ct')
     \<and> pkt_dst q = container_ip sample_container \<and> pkt_dport q = 10000
     \<and> container_port sample_container = 11111"
  using zero_checksum_keeps_port [OF sample_candidates(4) sample_checks(5), of sample_ops "[]"
      "sample_env 5" sample_container sample_macs]
  by (simp add: table_ops_def)

text \<open>
  C36: Source ports are not made unique: when a second container sends to the same remote address
  and port from the same source port, both flows leave with the same addresses and ports, and an
  answer to the second container's packet is delivered to the first container.
\<close>

theorem colliding_flow_misdelivered:
  assumes "conntrack_store K cap" "nat_candidate p" "nat_candidate p2"
    and "ke_pnic E = Some info" "snat_route E info (pkt_dst p) p = Some macs"
      "snat_route E info (pkt_dst p2) p2 = Some macs2"
    and "bm_lookup K ct (flow_key p) = None" "bm_lookup K ct (flow_key p2) = None"
    and "bm_lookup K ct (connection_tuple_new (pkt_dst p) (nic_ip info) (pkt_dport p) (pkt_sport p))
           = None"
    and "pkt_src p \<noteq> pkt_dst p" "pkt_src p2 \<noteq> pkt_dst p2" "card (dom (bm_lookup K ct)) + 2 \<le> cap"
    and "pkt_src p2 \<noteq> pkt_src p" "pkt_dst p2 = pkt_dst p" "pkt_sport p2 = pkt_sport p"
      "pkt_dport p2 = pkt_dport p"
    and "try_xdp_redirect K E Snat p ct = Some (Inr c, q, ct1)"
    and "try_xdp_redirect K E Snat p2 ct1 = Some (Inr c2, q2, ct2)"
    and "nat_candidate r" "answers r q2"
  shows "flow_key q2 = flow_key q
     \<and> (\<exists>r' ct3. try_xdp_redirect K E' Dnat r ct2 =
           Some (Inr (redirect_code E' (pkt_src p)), r', ct3) \<and> answers r' p \<and> \<not> answers r' p2)"
proof -
  note map = conntrack_store.axioms(1) [OF assms(1)]
  let ?rkey = "connection_tuple_new (pkt_dst p) (nic_ip info) (pkt_dport p) (pkt_sport p)"
  let ?rn = "snat_reply_translation (pkt_src p) (pkt_sport p) macs (mac_at p ETH_SRC)"
  let ?reply = "flow_state_new ?rn Reply (ke_time E + TIMEOUT_NEW)"
  have q: "flow_key q = connection_tuple_new (nic_ip info) (pkt_dst p) (pkt_sport p) (pkt_dport p)"
    and ct1: "bm_lookup K ct1 = (bm_lookup K ct)(flow_key p \<mapsto> flow_state_new
        (snat_translation info (pkt_sport p) macs) Original (ke_time E + TIMEOUT_NEW), ?rkey \<mapsto> ?reply)"
    using conntrack_store.snat_creates [OF assms(1,2,4,5,7) refl assms(9,10,12)] assms(17) by auto
  have "bm_lookup K ct1 (flow_key p2) = None"
    using assms(8,11,13,14) by (simp add: ct1 flow_key_def)
  note second = try_snat_new [OF assms(3) this assms(4,6)]
  have q2: "flow_key q2 = flow_key q"
    using second assms(18)
    by (auto simp: q flow_key_eq translated_pkt [OF candidate_length [OF assms(3)]] assms(14-16))
  have "bm_lookup K ct2 ?rkey = Some ?reply"
    using second assms(18) conntrack_map.create_keeps [OF map, of ct1 ?rkey ?reply] by (simp add: ct1)
  moreover from q2 q have r: "flow_key r = ?rkey"
    using assms(20) by (simp add: answers_def flow_key_eq)
  ultimately have "bm_lookup K ct2 (flow_key r) = Some ?reply"
    by simp
  note hit = try_hit [OF assms(19) this, of E' Dnat]
  have fields: "pkt_src r = pkt_dst p" "pkt_dst r = nic_ip info" "pkt_sport r = pkt_dport p"
      "pkt_dport r = pkt_sport p"
    using r by (simp_all add: flow_key_eq)
  show ?thesis
    using q2 hit assms(13)
    by (simp add: answers_def flow_key_eq translated_pkt [OF candidate_length [OF assms(19)]] fields)
qed

theorem colliding_flow_misdelivered_witness:
  "\<exists>q ct1 q2 ct2 r' ct3. try_xdp_redirect sample_ops (sample_env 5) Snat out_packet [] =
       Some (Inr XDP_REDIRECT, q, ct1)
     \<and> try_xdp_redirect sample_ops (sample_env 5) Snat other_out_packet ct1 =
       Some (Inr XDP_REDIRECT, q2, ct2)
     \<and> try_xdp_redirect sample_ops (sample_env 9) Dnat reply_packet ct2 =
       Some (Inr XDP_REDIRECT, r', ct3)
     \<and> answers r' out_packet \<and> \<not> answers r' other_out_packet"
proof -
  obtain q ct1 where
    run: "try_xdp_redirect sample_ops (sample_env 5) Snat out_packet [] = Some (Inr XDP_REDIRECT, q, ct1)"
    and "bm_lookup sample_ops ct1 (flow_key other_out_packet) = None"
    using sample_out_answered by blast
  note second = try_snat_new [OF sample_candidates(6) this(2), of "sample_env 5" sample_nic sample_macs]
  then obtain q2 ct2 where
    run2: "try_xdp_redirect sample_ops (sample_env 5) Snat other_out_packet ct1 =
      Some (Inr XDP_REDIRECT, q2, ct2)" and "q2 = translated Snat (snat_translation sample_nic 40000
      sample_macs) other_out_packet"
    by simp
  then have "answers reply_packet q2"
    by (simp add: answers_def flow_key_eq translated_pkt [OF candidate_length [OF sample_candidates(6)]])
  from run run2 colliding_flow_misdelivered [OF sample_store sample_candidates(1,6) _ _ _ _ _ _ _ _ _
      _ _ _ _ run run2 sample_candidates(2) this, of sample_nic sample_macs sample_macs "sample_env 9"]
  show ?thesis by (auto simp: table_ops_def)
qed

text \<open>
  C35: A full conntrack map is not noticed: the first packet of a flow is translated and sent out
  although neither of its entries could be recorded, and the answer to it, unless it hits an exposed
  port, is not translated back but goes to the host's stack.
\<close>

theorem full_map_loses_answers:
  assumes "conntrack_store K cap" "nat_candidate p"
    and "ke_pnic E = Some info" "snat_route E info (pkt_dst p) p = Some macs"
    and "bm_lookup K ct (flow_key p) = None"
    and "bm_lookup K ct (connection_tuple_new (pkt_dst p) (nic_ip info) (pkt_dport p) (pkt_sport p))
           = None"
    and "card (dom (bm_lookup K ct)) = cap"
  shows "\<exists>q ct1. try_xdp_redirect K E Snat p ct = Some (Inr (redirect_code E 0), q, ct1)
     \<and> pkt_src q = nic_ip info \<and> bm_lookup K ct1 = bm_lookup K ct
     \<and> (\<forall>r. answers r q \<and> ke_expose E' (pkt_dport r) = None \<longrightarrow>
          try_xdp_redirect K E' Dnat r ct1 = Some (Inr XDP_PASS, r, ct1))"
proof -
  let ?n = "snat_translation info (pkt_sport p) macs"
  let ?q = "translated Snat ?n p"
  note run = try_snat_new [OF assms(2,5,3,4)]
  have full: "bm_lookup K (snd (bm_insert K m k e BPF_NOEXIST)) = bm_lookup K ct"
    if "bm_lookup K m = bm_lookup K ct" for m k e
    using that assms(7) conntrack_store.axioms(2) [OF assms(1)] conntrack_store.axioms(1) [OF assms(1)]
    by (simp add: bpf_hash.lookup_insert_noexist [OF bpf_hash_bounded.axioms(1)]
        bpf_hash_bounded.insert_ok_iff)
  have same: "bm_lookup K (create_ct K ct a x b y) = bm_lookup K ct" for a x b y
    by (simp add: create_ct_def full)
  have q: "flow_key ?q = connection_tuple_new (nic_ip info) (pkt_dst p) (pkt_sport p) (pkt_dport p)"
    by (simp add: flow_key_eq translated_pkt [OF candidate_length [OF assms(2)]])
  have "flow_key r = connection_tuple_new (pkt_dst p) (nic_ip info) (pkt_dport p) (pkt_sport p)"
    if "answers r ?q" for r
    using that q by (simp add: answers_def flow_key_eq)
  then have "bm_lookup K m (flow_key r) = None" if "answers r ?q" "bm_lookup K m = bm_lookup K ct" for r m
    using that assms(6) by simp
  then have "try_xdp_redirect K E' Dnat r m = Some (Inr XDP_PASS, r, m)"
    if "answers r ?q" "bm_lookup K m = bm_lookup K ct" "ke_expose E' (pkt_dport r) = None" for r m
    using that by (intro try_dnat_pass) simp_all
  then show ?thesis
    using run same q by (auto simp: flow_key_eq)
qed

text \<open>A map of one entry that holds another flow.\<close>

theorem full_map_loses_answers_witness:
  "\<exists>q ct1. try_xdp_redirect (table_ops 1) (sample_env 5) Snat out_packet [(flow_key in_packet, sample_flow)]
       = Some (Inr XDP_REDIRECT, q, ct1)
     \<and> bm_lookup (table_ops 1) ct1 (flow_key out_packet) = None
     \<and> (answers reply_packet q \<longrightarrow>
          try_xdp_redirect (table_ops 1) ((sample_env 9)\<lparr>ke_expose := \<lambda>_. None\<rparr>) Dnat reply_packet ct1
            = Some (Inr XDP_PASS, reply_packet, ct1))"
proof -
  have "conntrack_store (table_ops 1) 1"
    by (intro conntrack_store.intro conntrack_map.intro table_ops_hash table_ops_bounded)
  moreover have "bm_lookup (table_ops 1) [(flow_key in_packet, sample_flow)] =
      [flow_key in_packet \<mapsto> sample_flow]"
    by (simp add: fun_eq_iff)
  ultimately obtain q ct1 where
    run: "try_xdp_redirect (table_ops 1) (sample_env 5) Snat out_packet [(flow_key in_packet, sample_flow)]
      = Some (Inr XDP_REDIRECT, q, ct1)"
    and map: "bm_lookup (table_ops 1) ct1 = [flow_key in_packet \<mapsto> sample_flow]"
    and answered: "\<forall>r. answers r q \<longrightarrow> try_xdp_redirect (table_ops 1)
      ((sample_env 9)\<lparr>ke_expose := \<lambda>_. None\<rparr>) Dnat r ct1 = Some (Inr XDP_PASS, r, ct1)"
    using full_map_loses_answers [of "table_ops 1" 1 out_packet "sample_env 5" sample_nic sample_macs
        "[(flow_key in_packet, sample_flow)]" "(sample_env 9)\<lparr>ke_expose := \<lambda>_. None\<rparr>"]
    by (auto simp: flow_key_def simp del: One_nat_def table_ops_sel)
  moreover have "flow_key out_packet \<noteq> flow_key in_packet"
    by (simp add: flow_key_def)
  ultimately show ?thesis
    by auto
qed

end
