(* ===== verification/Concurrent_Runs.thy ===== *)
theory Concurrent_Runs
  imports Sample_Traffic
begin

text \<open>
  The same programs on several CPUs at once. A run is cut at its accesses to the conntrack map,
  the only memory that runs share and write: the lookup, the write to the flow's own entry, the
  lookup of and the write to the entry of the other direction, and the two inserts of a new flow
  are steps of their own, and other runs or the collector may come between any two of them. The
  packet belongs to one run. The writes through a pointer set the two fields the code sets.
\<close>

section \<open>Steps of a run\<close>

record job =
  jb_flag :: nat_flag
  jb_env :: kernel_env
  jb_pkt :: bytes

text \<open>
  Where a run is: before the lookup; with a refreshed state to write to its own entry; before the
  lookup of the reverse entry; with that entry's pointer; before the first and the second insert of
  a new flow; done with its action and packet.
\<close>

datatype run =
    Arrived job
  | Own_entry job flow_state
  | Reverse_lookup job flow_state
  | Reverse_entry job flow_state
  | First_insert job nat_data nat_data
  | Second_insert job nat_data nat_data
  | Finished u32 bytes

definition job_key :: "job \<Rightarrow> connection_tuple" where
  "job_key j = flow_key (jb_pkt j)"

definition job_time :: "job \<Rightarrow> u64" where
  "job_time j = ke_time (jb_env j)"

definition finish :: "job \<Rightarrow> nat_data \<Rightarrow> run" where
  "finish j n = Finished (redirect_code (jb_env j) (devmap_key n)) (translated (jb_flag j) n (jb_pkt j))"

text \<open>The translations of a new flow and of its replies, or none.\<close>

definition new_flow :: "job \<Rightarrow> (nat_data \<times> nat_data) option" where
  "new_flow j =
     (let E = jb_env j; p = jb_pkt j in
      case jb_flag j of
        Snat \<Rightarrow>
          (case ke_pnic E of
             None \<Rightarrow> None
           | Some info \<Rightarrow> map_option (\<lambda>macs. (snat_translation info (pkt_sport p) macs,
               snat_reply_translation (pkt_src p) (pkt_sport p) macs (mac_at p ETH_SRC)))
               (snat_route E info (pkt_dst p) p))
      | Dnat \<Rightarrow>
          (case ke_expose E (pkt_dport p) of
             None \<Rightarrow> None
           | Some info \<Rightarrow> map_option (\<lambda>macs. (dnat_translation info (mac_at p ETH_DST),
               dnat_reply_translation (pkt_dst p) (pkt_dport p) macs))
               (dnat_route E (pkt_src p) (pkt_dst p) p)))"

definition advance :: "'m conntrack_ops \<Rightarrow> run \<times> 'm \<Rightarrow> run \<times> 'm" where
  "advance K rc =
     (let ct = snd rc in
      case fst rc of
        Arrived j \<Rightarrow>
          (if \<not> nat_candidate (jb_pkt j) then (Finished XDP_PASS (jb_pkt j), ct)
           else (case bm_lookup K ct (job_key j) of
             Some st \<Rightarrow>
               (let (st', update) = refresh_flow (job_time j) st in
                if update then (Own_entry j st', ct) else (finish j (flow_nat st), ct))
           | None \<Rightarrow>
               (case new_flow j of
                  None \<Rightarrow> (Finished XDP_PASS (jb_pkt j), ct)
                | Some (n, rn) \<Rightarrow> (First_insert j n rn, ct))))
      | Own_entry j st \<Rightarrow> (Reverse_lookup j st, sync_reverse K ct (job_key j) st)
      | Reverse_lookup j st \<Rightarrow>
          (case bm_lookup K ct (reverse_key (jb_flag j) (job_key j) (flow_nat st)) of
             None \<Rightarrow> (finish j (flow_nat st), ct)
           | Some _ \<Rightarrow> (Reverse_entry j st, ct))
      | Reverse_entry j st \<Rightarrow>
          (finish j (flow_nat st),
           sync_reverse K ct (reverse_key (jb_flag j) (job_key j) (flow_nat st)) st)
      | First_insert j n rn \<Rightarrow>
          (Second_insert j n rn, snd (bm_insert K ct (job_key j)
             (flow_state_new n Original (job_time j + TIMEOUT_NEW)) BPF_NOEXIST))
      | Second_insert j n rn \<Rightarrow>
          (finish j n, snd (bm_insert K ct (reverse_key (jb_flag j) (job_key j) n)
             (flow_state_new rn Reply (job_time j + TIMEOUT_NEW)) BPF_NOEXIST))
      | Finished code q \<Rightarrow> (Finished code q, ct))"

lemma advance_simps [simp]:
  "advance K (Own_entry j st, ct) = (Reverse_lookup j st, sync_reverse K ct (job_key j) st)"
  "advance K (Reverse_lookup j st, ct) =
     (if bm_lookup K ct (reverse_key (jb_flag j) (job_key j) (flow_nat st)) = None
      then (finish j (flow_nat st), ct) else (Reverse_entry j st, ct))"
  "advance K (Reverse_entry j st, ct) = (finish j (flow_nat st),
     sync_reverse K ct (reverse_key (jb_flag j) (job_key j) (flow_nat st)) st)"
  "advance K (First_insert j n rn, ct) = (Second_insert j n rn, snd (bm_insert K ct (job_key j)
     (flow_state_new n Original (job_time j + TIMEOUT_NEW)) BPF_NOEXIST))"
  "advance K (Second_insert j n rn, ct) = (finish j n,
     snd (bm_insert K ct (reverse_key (jb_flag j) (job_key j) n)
       (flow_state_new rn Reply (job_time j + TIMEOUT_NEW)) BPF_NOEXIST))"
  "advance K (Finished code q, ct) = (Finished code q, ct)"
  by (auto simp: advance_def split: option.split)

lemma advance_finish [simp]: "advance K (finish j n, ct) = (finish j n, ct)"
  by (simp add: finish_def)

lemma advance_arrived:
  "\<not> nat_candidate (jb_pkt j) \<Longrightarrow> advance K (Arrived j, ct) = (Finished XDP_PASS (jb_pkt j), ct)"
  "nat_candidate (jb_pkt j) \<Longrightarrow> bm_lookup K ct (job_key j) = Some st \<Longrightarrow>
     advance K (Arrived j, ct) =
       (if snd (refresh_flow (job_time j) st)
        then (Own_entry j (fst (refresh_flow (job_time j) st)), ct) else (finish j (flow_nat st), ct))"
  "nat_candidate (jb_pkt j) \<Longrightarrow> bm_lookup K ct (job_key j) = None \<Longrightarrow> new_flow j = None \<Longrightarrow>
     advance K (Arrived j, ct) = (Finished XDP_PASS (jb_pkt j), ct)"
  "nat_candidate (jb_pkt j) \<Longrightarrow> bm_lookup K ct (job_key j) = None \<Longrightarrow> new_flow j = Some (n, rn) \<Longrightarrow>
     advance K (Arrived j, ct) = (First_insert j n rn, ct)"
  by (simp_all add: advance_def split_beta)

section \<open>A run on its own\<close>

definition run_alone :: "'m conntrack_ops \<Rightarrow> job \<Rightarrow> 'm \<Rightarrow> run \<times> 'm" where
  "run_alone K j ct = (advance K ^^ 4) (Arrived j, ct)"

lemma run_alone_unfold:
  "run_alone K j ct = advance K (advance K (advance K (advance K (Arrived j, ct))))"
  by (simp add: run_alone_def eval_nat_numeral)

lemma with_times_refresh: "with_times (fst (refresh_flow t st)) st = fst (refresh_flow t st)"
  by (simp add: with_times_def refresh_flow_def Let_def split: direction.split)

lemma sync_own:
  "bm_lookup K ct k = Some st \<Longrightarrow>
     sync_reverse K ct k (fst (refresh_flow t st)) = bm_write K ct k (fst (refresh_flow t st))"
  by (simp add: sync_reverse_def with_times_refresh [unfolded with_times_def])

lemma alone_hit:
  assumes "nat_candidate (jb_pkt j)" "bm_lookup K ct (job_key j) = Some st"
  shows "run_alone K j ct = (finish j (flow_nat st),
    hit_ct K (job_time j) ct (job_key j) (reverse_key (jb_flag j) (job_key j) (flow_nat st)) st)"
proof (cases "snd (refresh_flow (job_time j) st)")
  case True
  let ?ct = "bm_write K ct (job_key j) (fst (refresh_flow (job_time j) st))"
  have "sync_reverse K ?ct rk st' = ?ct" if "bm_lookup K ?ct rk = None" for rk st'
    using that by (simp add: sync_reverse_def)
  with True show ?thesis
    by (simp add: run_alone_unfold advance_arrived(2) [OF assms] sync_own [OF assms(2)] hit_ct_def
        split_beta)
next
  case False
  then show ?thesis
    by (simp add: run_alone_unfold advance_arrived(2) [OF assms] hit_ct_def split_beta)
qed

lemma alone_new:
  assumes "nat_candidate (jb_pkt j)" "bm_lookup K ct (job_key j) = None" "new_flow j = Some (n, rn)"
  shows "run_alone K j ct = (finish j n,
    create_ct K ct (job_key j) (flow_state_new n Original (job_time j + TIMEOUT_NEW))
      (reverse_key (jb_flag j) (job_key j) n) (flow_state_new rn Reply (job_time j + TIMEOUT_NEW)))"
  by (simp add: run_alone_unfold advance_arrived(4) [OF assms] create_ct_def)

section \<open>The program as a table of cases\<close>

text \<open>
  The specification of a run: who is not translated, which translation applies, and what becomes
  of the map.
\<close>

definition nat_spec ::
    "'m conntrack_ops \<Rightarrow> kernel_env \<Rightarrow> nat_flag \<Rightarrow> bytes \<Rightarrow> 'm \<Rightarrow> u32 \<times> bytes \<times> 'm" where
  "nat_spec K E flag p ct =
     (if \<not> nat_candidate p then (XDP_PASS, p, ct)
      else case bm_lookup K ct (flow_key p) of
        Some st \<Rightarrow> (redirect_code E (devmap_key (flow_nat st)), translated flag (flow_nat st) p,
          hit_ct K (ke_time E) ct (flow_key p) (reverse_key flag (flow_key p) (flow_nat st)) st)
      | None \<Rightarrow>
          (case new_flow \<lparr>jb_flag = flag, jb_env = E, jb_pkt = p\<rparr> of
             None \<Rightarrow> (XDP_PASS, p, ct)
           | Some (n, rn) \<Rightarrow> (redirect_code E (devmap_key n), translated flag n p,
               create_ct K ct (flow_key p) (flow_state_new n Original (ke_time E + TIMEOUT_NEW))
                 (reverse_key flag (flow_key p) n)
                 (flow_state_new rn Reply (ke_time E + TIMEOUT_NEW)))))"

lemma nat_spec_cases:
  obtains (pass) "nat_spec K E flag p ct = (XDP_PASS, p, ct)"
  | (hit) st where "nat_candidate p" "bm_lookup K ct (flow_key p) = Some st"
      "nat_spec K E flag p ct = (redirect_code E (devmap_key (flow_nat st)),
         translated flag (flow_nat st) p,
         hit_ct K (ke_time E) ct (flow_key p) (reverse_key flag (flow_key p) (flow_nat st)) st)"
  | (new) n rn where "nat_candidate p" "bm_lookup K ct (flow_key p) = None"
      "new_flow \<lparr>jb_flag = flag, jb_env = E, jb_pkt = p\<rparr> = Some (n, rn)"
      "nat_spec K E flag p ct = (redirect_code E (devmap_key n), translated flag n p,
         create_ct K ct (flow_key p) (flow_state_new n Original (ke_time E + TIMEOUT_NEW))
           (reverse_key flag (flow_key p) n) (flow_state_new rn Reply (ke_time E + TIMEOUT_NEW)))"
proof (cases "nat_candidate p")
  case True
  show thesis
  proof (cases "bm_lookup K ct (flow_key p)")
    case None
    then show thesis
      using True pass new
      by (cases "new_flow \<lparr>jb_flag = flag, jb_env = E, jb_pkt = p\<rparr>") (auto simp: nat_spec_def)
  qed (use True hit in \<open>simp add: nat_spec_def\<close>)
qed (use pass in \<open>simp add: nat_spec_def\<close>)

lemma try_spec:
  "try_xdp_redirect K E flag p ct =
     (case nat_spec K E flag p ct of (code, q, ct') \<Rightarrow> Some (Inr code, q, ct'))"
proof (cases "nat_candidate p")
  case False
  then show ?thesis
    by (simp add: nat_spec_def not_candidate_passes)
next
  case True
  let ?j = "\<lparr>jb_flag = flag, jb_env = E, jb_pkt = p\<rparr>"
  show ?thesis
  proof (cases "bm_lookup K ct (flow_key p)")
    case (Some st)
    then show ?thesis
      using True by (simp add: nat_spec_def try_hit [OF True Some])
  next
    case None
    show ?thesis
    proof (cases "new_flow ?j")
      case passes: None
      then have "try_xdp_redirect K E flag p ct = Some (Inr XDP_PASS, p, ct)"
        using try_snat_pass [OF None, of E] try_dnat_pass [OF None, of E]
        by (auto simp: new_flow_def split: nat_flag.splits option.splits)
      then show ?thesis
        using True None passes by (simp add: nat_spec_def)
    next
      case (Some nn)
      then show ?thesis
        using True None try_snat_new [OF True None, of E] try_dnat_new [OF True None, of E]
        by (auto simp: nat_spec_def new_flow_def snat_translation_def dnat_translation_def
            split: nat_flag.splits option.splits)
    qed
  qed
qed


lemma alone_equals_program:
  "\<exists>code q ct'. try_xdp_redirect K E flag p ct = Some (Inr code, q, ct')
     \<and> run_alone K \<lparr>jb_flag = flag, jb_env = E, jb_pkt = p\<rparr> ct = (Finished code q, ct')"
proof (cases "nat_candidate p")
  case False
  then show ?thesis
    by (simp add: try_spec nat_spec_def run_alone_unfold advance_arrived)
next
  case True
  let ?j = "\<lparr>jb_flag = flag, jb_env = E, jb_pkt = p\<rparr>"
  show ?thesis
  proof (cases "bm_lookup K ct (flow_key p)")
    case (Some st)
    then show ?thesis
      using alone_hit [of ?j K ct st] True
      by (simp add: try_spec nat_spec_def job_key_def job_time_def finish_def)
  next
    case None
    then show ?thesis
      using alone_new [of ?j K ct] True
      by (cases "new_flow ?j")
        (auto simp: try_spec nat_spec_def run_alone_unfold advance_arrived job_key_def job_time_def
          finish_def)
  qed
qed

lemma alone_result:
  assumes "try_xdp_redirect K E flag p ct = Some (r, q, ct')"
  obtains code where "run_alone K \<lparr>jb_flag = flag, jb_env = E, jb_pkt = p\<rparr> ct = (Finished code q, ct')"
  using alone_equals_program [of K E flag p ct] assms by auto

text \<open>
  The cut into steps is faithful: a run whose four steps nothing interrupts is the program.
  It ends with the action, the packet and the map of \<open>try_xdp_redirect\<close>.
\<close>

theorem steps_equal_program:
  "\<exists>code q ct'. try_xdp_redirect K E flag p ct = Some (Inr code, q, ct')
     \<and> run_alone K \<lparr>jb_flag = flag, jb_env = E, jb_pkt = p\<rparr> ct = (Finished code q, ct')"
  by (rule alone_equals_program)

section \<open>Interleavings\<close>

text \<open>
  What happens next: a CPU moves its run by one step, or something else (the collector, another
  program) changes the map in any way.
\<close>

datatype 'm event = Cpu nat | Elsewhere "'m \<Rightarrow> 'm"

type_synonym 'm cpus = "(nat \<Rightarrow> run) \<times> 'm"

fun play :: "'m conntrack_ops \<Rightarrow> 'm event \<Rightarrow> 'm cpus \<Rightarrow> 'm cpus" where
  "play K (Cpu c) (runs, ct) = (runs(c := fst (advance K (runs c, ct))), snd (advance K (runs c, ct)))"
| "play K (Elsewhere g) (runs, ct) = (runs, g ct)"

definition run_schedule :: "'m conntrack_ops \<Rightarrow> 'm event list \<Rightarrow> 'm cpus \<Rightarrow> 'm cpus" where
  "run_schedule K es rc = fold (play K) es rc"

lemma run_schedule_simps [simp]:
  "run_schedule K [] rc = rc"
  "run_schedule K (e # es) rc = run_schedule K es (play K e rc)"
  by (simp_all add: run_schedule_def)

text \<open>The steps a run has left at most, and the states a run of a job goes through.\<close>

fun remaining :: "run \<Rightarrow> nat" where
  "remaining (Arrived j) = 4"
| "remaining (Own_entry j st) = 3"
| "remaining (Reverse_lookup j st) = 2"
| "remaining (Reverse_entry j st) = 1"
| "remaining (First_insert j n rn) = 2"
| "remaining (Second_insert j n rn) = 1"
| "remaining (Finished code q) = 0"

fun run_of :: "job \<Rightarrow> run \<Rightarrow> bool" where
  "run_of j (Arrived i) \<longleftrightarrow> i = j"
| "run_of j (Own_entry i st) \<longleftrightarrow> i = j"
| "run_of j (Reverse_lookup i st) \<longleftrightarrow> i = j"
| "run_of j (Reverse_entry i st) \<longleftrightarrow> i = j"
| "run_of j (First_insert i n rn) \<longleftrightarrow> i = j"
| "run_of j (Second_insert i n rn) \<longleftrightarrow> i = j"
| "run_of j (Finished code q) \<longleftrightarrow>
     code = XDP_PASS \<and> q = jb_pkt j \<or> (\<exists>n. Finished code q = finish j n)"

lemma remaining_zero: "remaining r = 0 \<longleftrightarrow> (\<exists>code q. r = Finished code q)"
  by (cases r) auto

lemma remaining_finish [simp]: "remaining (finish j n) = 0"
  by (simp add: finish_def)

lemma run_of_finish [simp]: "run_of j (finish j n)"
  by (auto simp: finish_def)

lemma advance_remaining: "remaining (fst (advance K (r, ct))) \<le> remaining r - 1"
  by (cases r) (auto simp: advance_def split_beta split: option.split)

lemma advance_run_of: "run_of j r \<Longrightarrow> run_of j (fst (advance K (r, ct)))"
  by (cases r) (auto simp: advance_def split_beta split: option.split)

lemma schedule_remaining:
  "remaining (fst (run_schedule K es rc) c) \<le> remaining (fst rc c) - count_list es (Cpu c)"
proof (induction es arbitrary: rc)
  case (Cons e es)
  obtain runs ct where rc: "rc = (runs, ct)"
    by (cases rc)
  show ?case
    using Cons [of "play K e rc"] advance_remaining [of K "runs c" ct]
    by (cases e) (auto simp: rc)
qed simp

lemma schedule_run_of: "run_of j (fst rc c) \<Longrightarrow> run_of j (fst (run_schedule K es rc) c)"
proof (induction es arbitrary: rc)
  case (Cons e es)
  obtain runs ct where rc: "rc = (runs, ct)"
    by (cases rc)
  have "run_of j (fst (play K e rc) c)"
    using Cons.prems by (cases e) (auto simp: rc advance_run_of)
  then show ?case
    by (simp add: Cons.IH)
qed simp

lemma schedule_finishes:
  assumes "runs c = Arrived j" "4 \<le> count_list es (Cpu c)"
  shows "\<exists>code q. fst (run_schedule K es (runs, ct)) c = Finished code q
     \<and> (code = XDP_PASS \<and> q = jb_pkt j \<or> (\<exists>n. Finished code q = finish j n))"
proof -
  let ?r = "fst (run_schedule K es (runs, ct)) c"
  have "remaining ?r = 0"
    using schedule_remaining [of K es "(runs, ct)" c] assms by simp
  then obtain code q where r: "?r = Finished code q"
    by (auto simp: remaining_zero)
  then show ?thesis
    using schedule_run_of [of j "(runs, ct)" c K es] assms(1) by simp
qed


definition out_job :: job where
  "out_job = \<lparr>jb_flag = Snat, jb_env = sample_env 5, jb_pkt = out_packet\<rparr>"


end
