(* ===== verification/Conntrack_Gc.thy ===== *)
theory Conntrack_Gc
  imports Sample_Traffic
begin

text \<open>
  The garbage collector of the conntrack map, the task \<open>setup_pnic\<close> of \<open>xdp-natd/src/main.rs\<close>
  spawns: every 30 s it collects the keys of the expired entries and then removes them one by one.
  The kernel programs run between and during its two phases, which is what the last property is
  about.
\<close>

section \<open>The clock of the daemon\<close>

text \<open>\<open>CLOCK_MONOTONIC_COARSE\<close>: both fields are \<open>i64\<close>, read as \<open>u64\<close> by the casts of the code.\<close>

record timespec =
  tv_sec :: u64
  tv_nsec :: u64

definition get_nsecs :: "timespec \<Rightarrow> u64" where
  "get_nsecs ts = tv_sec ts * 1000000000 + tv_nsec ts"

lemma unat_get_nsecs:
  assumes "unat (tv_sec ts) < 18446744073" "unat (tv_nsec ts) < 1000000000"
  shows "unat (get_nsecs ts) = unat (tv_sec ts) * 1000000000 + unat (tv_nsec ts)"
proof -
  have "unat (tv_sec ts) * 1000000000 < 2 ^ 64"
    "unat (tv_sec ts) * 1000000000 + unat (tv_nsec ts) < 2 ^ 64"
    using assms by simp_all
  then show ?thesis
    by (simp add: get_nsecs_def unat_word_ariths)
qed

section \<open>One tick\<close>

text \<open>
  What iterating the map yields: an entry for each key that is still there when it is read. The
  iterator may also report errors, which the collector skips.
\<close>

definition map_items ::
    "('m, 'k, 'v) bpf_map_ops \<Rightarrow> 'm \<Rightarrow> (int + 'k \<times> 'v) list" where
  "map_items K m =
     List.map_filter (\<lambda>k. map_option (\<lambda>v. Inr (k, v)) (bm_lookup K m k)) (bm_keys K m)"

text \<open>The clock is read anew for every entry: \<open>clock i\<close> is its \<open>i\<close>-th reading.\<close>

fun gc_collect :: "(nat \<Rightarrow> timespec) \<Rightarrow> nat \<Rightarrow> (int + 'k \<times> flow_state) list \<Rightarrow> 'k list" where
  "gc_collect clock i [] = []"
| "gc_collect clock i (Inl e # rs) = gc_collect clock i rs"
| "gc_collect clock i (Inr (k, v) # rs) =
     (if timeout v \<le> get_nsecs (clock i) then k # gc_collect clock (Suc i) rs
      else gc_collect clock (Suc i) rs)"

primrec gc_remove :: "('m, 'k, 'v) bpf_map_ops \<Rightarrow> 'k list \<Rightarrow> 'm \<Rightarrow> 'm" where
  "gc_remove K [] m = m"
| "gc_remove K (k # ks) m = gc_remove K ks (snd (bm_remove K m k))"

definition gc_tick :: "'m conntrack_ops \<Rightarrow> (nat \<Rightarrow> timespec) \<Rightarrow> 'm \<Rightarrow> 'm" where
  "gc_tick K clock m = gc_remove K (gc_collect clock 0 (map_items K m)) m"

lemma collected_expired:
  "k \<in> set (gc_collect clock i rs) \<Longrightarrow> \<exists>v j. Inr (k, v) \<in> set rs \<and> timeout v \<le> get_nsecs (clock j)"
  by (induction clock i rs rule: gc_collect.induct) (auto split: if_splits)

lemma expired_collected:
  "Inr (k, v) \<in> set rs \<Longrightarrow> (\<And>j. timeout v \<le> get_nsecs (clock j)) \<Longrightarrow>
     k \<in> set (gc_collect clock i rs)"
  by (induction clock i rs rule: gc_collect.induct) auto

text \<open>The collector as it is meant: at time \<open>t\<close> the entries with a later timeout stay.\<close>

definition drop_expired :: "u64 \<Rightarrow> ('k \<Rightarrow> flow_state option) \<Rightarrow> 'k \<Rightarrow> flow_state option" where
  "drop_expired t f k =
     (case f k of None \<Rightarrow> None | Some st \<Rightarrow> if timeout st \<le> t then None else Some st)"

context conntrack_map
begin

lemma set_map_items: "Inr (k, v) \<in> set (map_items K m) \<longleftrightarrow> bm_lookup K m k = Some v"
  using keys_lookup [of m] by (force simp: map_items_def map_filter_def)

lemma lookup_gc_remove:
  "bm_lookup K (gc_remove K ks m) k = (if k \<in> set ks then None else bm_lookup K m k)"
  by (induction ks arbitrary: m) (simp_all add: remove_key)

lemma collected_iff:
  assumes "bm_lookup K m k = Some st"
  shows "(\<forall>j. timeout st \<le> get_nsecs (clock j)) \<Longrightarrow> k \<in> set (gc_collect clock 0 (map_items K m))"
    and "(\<forall>j. get_nsecs (clock j) < timeout st) \<Longrightarrow> k \<notin> set (gc_collect clock 0 (map_items K m))"
  using assms expired_collected [of k st "map_items K m" clock 0]
    collected_expired [of k clock 0 "map_items K m"]
  by (auto simp: set_map_items) (meson linorder_not_less)

lemma lookup_gc_tick:
  assumes "bm_lookup K m k = Some st"
  shows "(\<forall>j. timeout st \<le> get_nsecs (clock j)) \<Longrightarrow> bm_lookup K (gc_tick K clock m) k = None"
    and "(\<forall>j. get_nsecs (clock j) < timeout st) \<Longrightarrow> bm_lookup K (gc_tick K clock m) k = Some st"
  using collected_iff [OF assms, of clock] assms
  by (simp_all add: gc_tick_def lookup_gc_remove)

lemma gc_tick_drops: "bm_lookup K (gc_tick K clock m) k \<in> {None, bm_lookup K m k}"
  by (simp add: gc_tick_def lookup_gc_remove)

lemma gc_tick_drop_expired:
  "bm_lookup K (gc_tick K (\<lambda>_. ts) m) = drop_expired (get_nsecs ts) (bm_lookup K m)"
proof
  fix k
  show "bm_lookup K (gc_tick K (\<lambda>_. ts) m) k = drop_expired (get_nsecs ts) (bm_lookup K m) k"
    using gc_tick_drops [of "\<lambda>_. ts" m k] lookup_gc_tick [of m k _ "\<lambda>_. ts"]
    by (auto simp: drop_expired_def not_le split: option.split)
qed

end

section \<open>Properties\<close>

text \<open>
  C22: A tick whose clock readings lie between \<open>t0\<close> and \<open>t1\<close> removes every entry that has expired
  at \<open>t0\<close>, keeps unchanged every entry that is still alive at \<open>t1\<close>, and never modifies an entry it
  keeps or adds one.
\<close>

theorem gc_removes_expired_only:
  assumes "conntrack_map K" and "\<forall>j. t0 \<le> get_nsecs (clock j) \<and> get_nsecs (clock j) \<le> t1"
  shows "(case bm_lookup K m k of
       None \<Rightarrow> bm_lookup K (gc_tick K clock m) k = None
     | Some st \<Rightarrow>
         (if timeout st \<le> t0 then bm_lookup K (gc_tick K clock m) k = None
          else if t1 < timeout st then bm_lookup K (gc_tick K clock m) k = Some st
          else bm_lookup K (gc_tick K clock m) k \<in> {None, Some st}))"
proof (cases "bm_lookup K m k")
  case None
  then show ?thesis
    using conntrack_map.gc_tick_drops [OF assms(1), of clock m k] by simp
next
  case (Some st)
  have "timeout st \<le> t0 \<Longrightarrow> \<forall>j. timeout st \<le> get_nsecs (clock j)"
    "t1 < timeout st \<Longrightarrow> \<forall>j. get_nsecs (clock j) < timeout st"
    using assms(2) by (auto intro: order_trans le_less_trans)
  then show ?thesis
    using conntrack_map.lookup_gc_tick [OF assms(1) Some, of clock] Some
      conntrack_map.gc_tick_drops [OF assms(1), of clock m k]
    by auto
qed

theorem gc_removes_expired_only_witness:
  "bm_lookup sample_ops (gc_tick sample_ops (\<lambda>_. \<lparr>tv_sec = 1, tv_nsec = 7\<rparr>) sample_ct)
     (flow_key out_packet) = None"
  using gc_removes_expired_only [OF sample_map, of 6 "\<lambda>_. \<lparr>tv_sec = 1, tv_nsec = 7\<rparr>"
      1000000008 sample_ct "flow_key out_packet"]
  by (simp add: sample_ct_lookup [simplified] get_nsecs_def sample_flow_def flow_state_new_def)

text \<open>
  C24: A flow in use is not collected: after a packet, a tick within the flow's lifetime less one
  second keeps its entry as the packet left it.
\<close>

theorem active_flow_survives_gc:
  assumes "conntrack_map K" "nat_candidate p" "bm_lookup K ct (flow_key p) = Some st"
    and "try_xdp_redirect K E flag p ct = Some (r, q, ct')" and "clock_ok (ke_time E)"
    and "\<forall>j. unat (get_nsecs (clock j)) + 1000000000 <
           unat (ke_time E) + lifetime (seen_reply st \<or> flow_direction st = Reply)"
  shows "bm_lookup K (gc_tick K clock ct') (flow_key p) = Some (fst (refresh_flow (ke_time E) st))"
proof -
  have "bm_lookup K ct' (flow_key p) = Some (fst (refresh_flow (ke_time E) st))"
    using try_hit [OF assms(2,3), of E flag] assms(4)
      conntrack_map.lookup_hit_ct_key [OF assms(1,3)] by simp
  moreover have "\<forall>j. get_nsecs (clock j) < timeout (fst (refresh_flow (ke_time E) st))"
  proof
    fix j
    show "get_nsecs (clock j) < timeout (fst (refresh_flow (ke_time E) st))"
      using refresh_flow_lower [OF assms(5), of st] assms(6) [rule_format, of j]
      by (simp add: word_less_nat_alt refresh_flow_seen)
  qed
  ultimately show ?thesis
    by (rule conntrack_map.lookup_gc_tick(2) [OF assms(1)])
qed

theorem active_flow_survives_gc_witness:
  "\<exists>r q ct'. try_xdp_redirect sample_ops (sample_env 5000000000) Snat out_packet sample_ct =
       Some (r, q, ct')
     \<and> bm_lookup sample_ops (gc_tick sample_ops (\<lambda>_. \<lparr>tv_sec = 20, tv_nsec = 0\<rparr>) ct')
         (flow_key out_packet) \<noteq> None"
proof -
  obtain r q ct' where
    run: "try_xdp_redirect sample_ops (sample_env 5000000000) Snat out_packet sample_ct = Some (r, q, ct')"
    using try_hit [OF sample_candidates(1) sample_ct_lookup] by blast
  from active_flow_survives_gc [OF sample_map sample_candidates(1) sample_ct_lookup run,
      of "\<lambda>_. \<lparr>tv_sec = 20, tv_nsec = 0\<rparr>"] run
  show ?thesis
    by (auto simp: clock_ok_def get_nsecs_def lifetime_def)
qed

text \<open>
  C34: The collector can remove a live flow: when a packet refreshes an expired entry after its key
  was collected and before it is removed, the packet is translated and the entry gets at least 29
  more seconds, and is then deleted all the same.
\<close>

theorem gc_race_removes_live_flow:
  assumes "conntrack_map K" "nat_candidate p" "bm_lookup K ct (flow_key p) = Some st"
    and "\<forall>j. timeout st \<le> get_nsecs (clock j)"
    and "try_xdp_redirect K E flag p ct = Some (r, q, ct')" and "clock_ok (ke_time E)"
  shows "(\<exists>st'. bm_lookup K ct' (flow_key p) = Some st'
       \<and> unat (ke_time E) + 29000000000 \<le> unat (timeout st'))
     \<and> bm_lookup K (gc_remove K (gc_collect clock 0 (map_items K ct)) ct') (flow_key p) = None"
proof -
  have "bm_lookup K ct' (flow_key p) = Some (fst (refresh_flow (ke_time E) st))"
    using try_hit [OF assms(2,3), of E flag] assms(5)
      conntrack_map.lookup_hit_ct_key [OF assms(1,3)] by simp
  moreover have "unat (ke_time E) + 29000000000 \<le> unat (timeout (fst (refresh_flow (ke_time E) st)))"
    using refresh_flow_lower [OF assms(6), of st] by (simp add: lifetime_def split: if_splits)
  ultimately show ?thesis
    using conntrack_map.collected_iff(1) [OF assms(1,3,4)]
    by (simp add: conntrack_map.lookup_gc_remove [OF assms(1)])
qed

theorem gc_race_removes_live_flow_witness:
  "\<exists>r q ct'. try_xdp_redirect sample_ops (sample_env 5000000000) Snat out_packet sample_ct =
       Some (r, q, ct')
     \<and> bm_lookup sample_ops ct' (flow_key out_packet) \<noteq> None
     \<and> bm_lookup sample_ops (gc_remove sample_ops
          (gc_collect (\<lambda>_. \<lparr>tv_sec = 5, tv_nsec = 0\<rparr>) 0 (map_items sample_ops sample_ct)) ct')
          (flow_key out_packet) = None"
proof -
  obtain r q ct' where
    run: "try_xdp_redirect sample_ops (sample_env 5000000000) Snat out_packet sample_ct = Some (r, q, ct')"
    using try_hit [OF sample_candidates(1) sample_ct_lookup] by blast
  from gc_race_removes_live_flow [OF sample_map sample_candidates(1) sample_ct_lookup _ run,
      of "\<lambda>_. \<lparr>tv_sec = 5, tv_nsec = 0\<rparr>"] run
  show ?thesis
    by (auto simp: clock_ok_def get_nsecs_def sample_flow_def flow_state_new_def)
qed

end
