(* ===== verification/Flow_Table_Spec.thy ===== *)
theory Flow_Table_Spec
  imports Concurrent_Runs Conntrack_Gc
begin

text \<open>
  The abstract specification of connection tracking: a partial function from connections to flows,
  with a capacity, and what a packet and the collector do to it. The kernel map behind the program
  and the order of its accesses do not appear in it.
\<close>

type_synonym flow_table = "connection_tuple \<Rightarrow> flow_state option"

definition table_add :: "nat \<Rightarrow> connection_tuple \<Rightarrow> flow_state \<Rightarrow> flow_table \<Rightarrow> flow_table" where
  "table_add cap k e f = (if f k = None \<and> card (dom f) < cap then f(k \<mapsto> e) else f)"

text \<open>A packet refreshes its flow's entry; the other direction's takes over flag and timeout.\<close>

definition table_touch :: "u64 \<Rightarrow> connection_tuple \<Rightarrow> connection_tuple \<Rightarrow> flow_state \<Rightarrow> flow_table \<Rightarrow> flow_table"
where
  "table_touch now k rk st f =
     (let (st', changed) = refresh_flow now st in
      if \<not> changed then f
      else (\<lambda>x. if x = k then Some st' else if x = rk then map_option (with_times st') (f x) else f x))"

definition table_run ::
    "nat \<Rightarrow> kernel_env \<Rightarrow> nat_flag \<Rightarrow> bytes \<Rightarrow> flow_table \<Rightarrow> u32 \<times> bytes \<times> flow_table" where
  "table_run cap E flag p f =
     (let k = flow_key p; pass = (XDP_PASS, p, f);
          send = (\<lambda>n f'. (redirect_code E (devmap_key n), translated flag n p, f')) in
      if \<not> nat_candidate p then pass
      else case f k of
        Some st \<Rightarrow> send (flow_nat st) (table_touch (ke_time E) k (reverse_key flag k (flow_nat st)) st f)
      | None \<Rightarrow>
          (case new_flow \<lparr>jb_flag = flag, jb_env = E, jb_pkt = p\<rparr> of
             None \<Rightarrow> pass
           | Some (n, rn) \<Rightarrow>
               send n (table_add cap (reverse_key flag k n)
                 (flow_state_new rn Reply (ke_time E + TIMEOUT_NEW))
                 (table_add cap k (flow_state_new n Original (ke_time E + TIMEOUT_NEW)) f))))"

section \<open>The refinement\<close>

context conntrack_store
begin

lemma table_add_refines:
  "bm_lookup K (snd (bm_insert K m k e BPF_NOEXIST)) = table_add max_entries k e (bm_lookup K m)"
  by (simp add: table_add_def lookup_insert_noexist insert_ok_iff)

lemma create_refines:
  "bm_lookup K (create_ct K m a x b y) = table_add max_entries b y (table_add max_entries a x (bm_lookup K m))"
  by (simp add: create_ct_def table_add_refines)

lemma touch_refines:
  assumes "bm_lookup K m k = Some st"
  shows "bm_lookup K (hit_ct K now m k rk st) = table_touch now k rk st (bm_lookup K m)"
  by (rule ext) (simp add: lookup_hit_ct [OF assms] table_touch_def split_beta)

lemma run_refines:
  "case nat_spec K E flag p ct of (code, q, ct') \<Rightarrow>
     table_run max_entries E flag p (bm_lookup K ct) = (code, q, bm_lookup K ct')"
  by (cases "nat_candidate p"; cases "bm_lookup K ct (flow_key p)";
      cases "new_flow \<lparr>jb_flag = flag, jb_env = E, jb_pkt = p\<rparr>")
    (auto simp: table_run_def nat_spec_def Let_def create_refines touch_refines)

end

text \<open>
  C7: The data path and the collector implement the flow table: for every packet on either program
  the action, the packet sent and the flows recorded are those of \<open>table_run\<close>, capacity included,
  and a collector tick at one instant drops exactly the expired flows.
\<close>

theorem data_path_refines_table:
  assumes "conntrack_store K cap"
  shows "(\<exists>code q ct'. try_xdp_redirect K E flag p ct = Some (Inr code, q, ct')
       \<and> table_run cap E flag p (bm_lookup K ct) = (code, q, bm_lookup K ct'))
     \<and> bm_lookup K (gc_tick K (\<lambda>_. ts) ct) = drop_expired (get_nsecs ts) (bm_lookup K ct)"
proof
  obtain code q ct' where run: "nat_spec K E flag p ct = (code, q, ct')"
    by (cases "nat_spec K E flag p ct")
  then show "\<exists>code q ct'. try_xdp_redirect K E flag p ct = Some (Inr code, q, ct')
      \<and> table_run cap E flag p (bm_lookup K ct) = (code, q, bm_lookup K ct')"
    using conntrack_store.run_refines [OF assms, of E flag p ct] by (simp add: try_spec)
  show "bm_lookup K (gc_tick K (\<lambda>_. ts) ct) = drop_expired (get_nsecs ts) (bm_lookup K ct)"
    by (rule conntrack_map.gc_tick_drop_expired [OF conntrack_store.axioms(1) [OF assms]])
qed

theorem data_path_refines_table_witness:
  "\<exists>code q ct'. try_xdp_redirect sample_ops (sample_env 5) Dnat in_packet [] = Some (Inr code, q, ct')
     \<and> table_run 4 (sample_env 5) Dnat in_packet Map.empty = (code, q, bm_lookup sample_ops ct')"
proof -
  have "bm_lookup sample_ops [] = Map.empty"
    by (simp add: fun_eq_iff)
  then show ?thesis
    using data_path_refines_table [OF sample_store, of "sample_env 5" Dnat in_packet "[]"] by simp
qed

end
