(* ===== verification/Port_Allocator.thy ===== *)
theory Port_Allocator
  imports Natd_Prelude "HOL-Library.Multiset"
begin

text \<open>
  The pool of host ports, \<open>xdp-natd/src/port_allocator.rs\<close>: a queue filled with a range of ports,
  allocation from the front and deallocation at the back. The locale \<open>port_pool\<close> is what the
  control plane relies on.
\<close>

section \<open>The allocator\<close>

record port_allocator =
  ports :: "u16 list"

text \<open>\<open>lower..=upper\<close>, collected in order.\<close>

definition range_inclusive :: "u16 \<Rightarrow> u16 \<Rightarrow> u16 list" where
  "range_inclusive lower upper = map of_nat [unat lower..<Suc (unat upper)]"

definition port_allocator_new :: "u16 \<Rightarrow> u16 \<Rightarrow> port_allocator" where
  "port_allocator_new lower upper = \<lparr>ports = range_inclusive lower upper\<rparr>"

definition allocate_next :: "port_allocator \<Rightarrow> u16 option \<times> port_allocator" where
  "allocate_next a =
     (case ports a of [] \<Rightarrow> (None, a) | p # ps \<Rightarrow> (Some p, a\<lparr>ports := ps\<rparr>))"

definition deallocate :: "u16 \<Rightarrow> port_allocator \<Rightarrow> port_allocator" where
  "deallocate port a = a\<lparr>ports := ports a @ [port]\<rparr>"

lemma set_range_inclusive: "set (range_inclusive lower upper) = {lower..upper}"
proof (intro set_eqI iffI)
  fix p
  assume "p \<in> {lower..upper}"
  then have "unat p \<in> set [unat lower..<Suc (unat upper)]"
    by (simp add: word_le_nat_alt less_Suc_eq_le del: upt_Suc)
  then show "p \<in> set (range_inclusive lower upper)"
    unfolding range_inclusive_def set_map by (rule rev_image_eqI) simp
next
  fix p
  assume "p \<in> set (range_inclusive lower upper)"
  then obtain n where n: "p = of_nat n" "unat lower \<le> n" "n \<le> unat upper"
    by (auto simp: range_inclusive_def)
  then have "unat p = n"
    using unsigned_less [of upper, where 'a = nat] by (simp add: unsigned_of_nat take_bit_nat_eq_self)
  with n show "p \<in> {lower..upper}"
    by (simp add: word_le_nat_alt)
qed

lemma distinct_range_inclusive: "distinct (range_inclusive lower upper)"
proof -
  have "inj_on (of_nat :: nat \<Rightarrow> u16) {unat lower..<Suc (unat upper)}"
    using unsigned_less [of upper, where 'a = nat]
    by (intro inj_on_inverseI [where g = unat]) (simp add: unsigned_of_nat take_bit_nat_eq_self)
  then show ?thesis
    by (simp add: range_inclusive_def distinct_map del: upt_Suc)
qed

lemma length_range_inclusive: "length (range_inclusive lower upper) = Suc (unat upper) - unat lower"
  by (simp add: range_inclusive_def del: upt_Suc)

section \<open>The contract of a port pool\<close>

text \<open>The free ports, in queue order, and the used ones divide \<open>U\<close> between them.\<close>

definition pool_ok :: "u16 set \<Rightarrow> u16 list \<Rightarrow> u16 set \<Rightarrow> bool" where
  "pool_ok used fs U \<longleftrightarrow> distinct fs \<and> set fs \<inter> used = {} \<and> set fs \<union> used = U"

lemma pool_ok_mset: "pool_ok used fs U \<Longrightarrow> mset gs = mset fs \<Longrightarrow> pool_ok used gs U"
  using mset_eq_setD [of gs fs] mset_eq_imp_distinct_iff [of gs fs] by (simp add: pool_ok_def)

lemma pool_ok_card:
  assumes "pool_ok used fs U" "finite U"
  shows "length fs + card used = card U"
proof -
  have "finite used"
    using assms by (auto simp: pool_ok_def)
  then have "card (set fs \<union> used) = card (set fs) + card used"
    using assms(1) by (intro card_Un_disjoint) (auto simp: pool_ok_def)
  then show ?thesis
    using assms(1) by (simp add: pool_ok_def distinct_card)
qed

text \<open>Allocating up to \<open>n\<close> times in a row.\<close>

primrec alloc_many :: "('s \<Rightarrow> u16 option \<times> 's) \<Rightarrow> nat \<Rightarrow> 's \<Rightarrow> u16 list \<times> 's" where
  "alloc_many alloc 0 s = ([], s)"
| "alloc_many alloc (Suc n) s =
     (case alloc s of
        (None, s') \<Rightarrow> ([], s')
      | (Some p, s') \<Rightarrow> (case alloc_many alloc n s' of (ps, t) \<Rightarrow> (p # ps, t)))"

locale port_pool =
  fixes alloc :: "'s \<Rightarrow> u16 option \<times> 's" and release :: "u16 \<Rightarrow> 's \<Rightarrow> 's" and free :: "'s \<Rightarrow> u16 list"
  assumes alloc_empty: "free s = [] \<Longrightarrow> alloc s = (None, s)"
    and alloc_front: "free s = p # ps \<Longrightarrow> \<exists>s'. alloc s = (Some p, s') \<and> free s' = ps"
    and release_back: "free (release p s) = free s @ [p]"
begin

lemma alloc_cases:
  obtains (none) "alloc s = (None, s)" "free s = []"
  | (some) p s' where "alloc s = (Some p, s')" "free s = p # free s'"
  using alloc_empty [of s] alloc_front [of s] by (cases "free s") auto

lemma alloc_SomeD: "alloc s = (Some p, s') \<Longrightarrow> free s = p # free s'"
  by (rule alloc_cases [of s]) auto

lemma alloc_NoneD: "alloc s = (None, s') \<Longrightarrow> free s = [] \<and> s' = s"
  by (rule alloc_cases [of s]) auto

lemma release_restores: "alloc s = (Some p, s') \<Longrightarrow> mset (free (release p s')) = mset (free s)"
  by (drule alloc_SomeD) (simp add: release_back)

lemma pool_ok_alloc:
  "pool_ok used (free s) U \<Longrightarrow> alloc s = (Some p, s') \<Longrightarrow>
     p \<in> U \<and> p \<notin> used \<and> pool_ok (insert p used) (free s') U"
  by (drule alloc_SomeD) (auto simp: pool_ok_def)

lemma pool_ok_release:
  "pool_ok used (free s) U \<Longrightarrow> p \<in> used \<Longrightarrow> pool_ok (used - {p}) (free (release p s)) U"
  by (auto simp: pool_ok_def release_back)

text \<open>A released port is handed out again only after every port that was free before.\<close>

lemma alloc_many_free: "n \<le> length (free s) \<Longrightarrow>
    fst (alloc_many alloc n s) = take n (free s) \<and> free (snd (alloc_many alloc n s)) = drop n (free s)"
proof (induction n arbitrary: s)
  case (Suc n)
  from Suc.prems have "free s \<noteq> []"
    by auto
  then obtain p s' where s': "alloc s = (Some p, s')" "free s = p # free s'"
    by (metis alloc_cases)
  with Suc.IH [of s'] Suc.prems show ?case
    by (simp add: split_beta)
qed simp

lemma released_last:
  "fst (alloc_many alloc (Suc (length (free s))) (release p s)) = free s @ [p]"
  using alloc_many_free [of "Suc (length (free s))" "release p s"] by (simp add: release_back)

end

interpretation pool: port_pool allocate_next deallocate ports
  by unfold_locales (auto simp: allocate_next_def deallocate_def)

lemma new_pool_ok: "pool_ok {} (ports (port_allocator_new lower upper)) {lower..upper}"
  by (simp add: pool_ok_def port_allocator_new_def set_range_inclusive distinct_range_inclusive)

end
