(* ===== verification/Text_Std.thy ===== *)
theory Text_Std
  imports Natd_Prelude "HOL-Library.Char_ord"
begin

text \<open>
  The string functions of the Rust standard library the daemon uses: decimal printing of
  integers and IPv4 addresses (\<open>to_string\<close>, \<open>format!\<close>), parsing of both (\<open>str::parse\<close>),
  \<open>trim\<close>, \<open>split_once\<close> and \<open>split\<close>. Strings are lists of ASCII characters.
\<close>

section \<open>Decimal numbers\<close>

definition digit_char :: "nat \<Rightarrow> char" where
  "digit_char d = char_of (48 + d)"

fun decimal :: "nat \<Rightarrow> string" where
  "decimal n = (if n < 10 then [digit_char n] else decimal (n div 10) @ [digit_char (n mod 10)])"

declare decimal.simps [simp del]

definition digit_val :: "char \<Rightarrow> nat option" where
  "digit_val c = (let n = of_char c in if 48 \<le> n \<and> n \<le> 57 then Some (n - 48) else None)"

text \<open>Digits are accumulated with an overflow check at the width's maximum.\<close>

fun parse_acc :: "nat \<Rightarrow> nat \<Rightarrow> string \<Rightarrow> nat option" where
  "parse_acc mx acc [] = Some acc"
| "parse_acc mx acc (c # cs) =
     (case digit_val c of
        None \<Rightarrow> None
      | Some d \<Rightarrow> (if mx < acc * 10 + d then None else parse_acc mx (acc * 10 + d) cs))"

definition parse_uint :: "nat \<Rightarrow> string \<Rightarrow> nat option" where
  "parse_uint mx s =
     (case s of
        [] \<Rightarrow> None
      | c # cs \<Rightarrow>
          if c = CHR ''+'' then (if cs = [] then None else parse_acc mx 0 cs)
          else parse_acc mx 0 s)"

definition parse_u16 :: "string \<Rightarrow> u16 option" where
  "parse_u16 s = map_option of_nat (parse_uint 65535 s)"

definition parse_u32 :: "string \<Rightarrow> u32 option" where
  "parse_u32 s = map_option of_nat (parse_uint 4294967295 s)"

definition show_u16 :: "u16 \<Rightarrow> string" where
  "show_u16 w = decimal (unat w)"

lemma digit_val_char [simp]: "d < 10 \<Longrightarrow> digit_val (digit_char d) = Some d"
  by (simp add: digit_val_def digit_char_def)

lemma digit_char_eq [simp]: "d < 10 \<Longrightarrow> c = digit_char d \<longleftrightarrow> digit_val c = Some d"
  by (auto simp: digit_val_def digit_char_def Let_def split: if_splits)

lemma parse_acc_append:
  "parse_acc mx acc (xs @ ys) =
     (case parse_acc mx acc xs of None \<Rightarrow> None | Some v \<Rightarrow> parse_acc mx v ys)"
  by (induction mx acc xs rule: parse_acc.induct) (auto split: option.split)

lemma parse_decimal: "n \<le> mx \<Longrightarrow> parse_acc mx 0 (decimal n) = Some n"
proof (induction n rule: decimal.induct)
  case (1 n)
  then show ?case
    by (cases "n < 10") (subst decimal.simps, simp add: parse_acc_append)+
qed

lemma decimal_digits: "c \<in> set (decimal n) \<Longrightarrow> digit_val c \<noteq> None"
proof (induction n rule: decimal.induct)
  case (1 n)
  then show ?case
    by (cases "n < 10") (auto simp: decimal.simps [of n])
qed

lemma decimal_not_empty [simp]: "decimal n \<noteq> []"
  by (subst decimal.simps) simp

lemma decimal_no_sep: "digit_val c = None \<Longrightarrow> c \<notin> set (decimal n)"
  using decimal_digits by blast

lemma separators [simp]:
  "digit_val CHR ''+'' = None" "digit_val CHR ''.'' = None" "digit_val CHR ''-'' = None"
  "digit_val CHR '':'' = None" "digit_val CHR ''/'' = None"
  by (simp_all add: digit_val_def)

lemma parse_uint_decimal:
  assumes "n \<le> mx"
  shows "parse_uint mx (decimal n) = Some n"
proof (cases "decimal n")
  case (Cons c cs)
  then have "c \<noteq> CHR ''+''"
    using decimal_no_sep [of "CHR ''+''" n] by auto
  then show ?thesis
    using parse_decimal [OF assms] Cons by (simp add: parse_uint_def)
qed simp

lemma parse_u16_show [simp]: "parse_u16 (show_u16 w) = Some w"
  using unsigned_less [of w, where 'a = nat] by (simp add: parse_u16_def show_u16_def parse_uint_decimal)

lemma show_u16_inject [simp]: "show_u16 v = show_u16 w \<longleftrightarrow> v = w"
  by (metis parse_u16_show option.inject)

section \<open>Splitting\<close>

fun split_once :: "char \<Rightarrow> string \<Rightarrow> (string \<times> string) option" where
  "split_once c [] = None"
| "split_once c (x # xs) =
     (if x = c then Some ([], xs) else map_option (apfst ((#) x)) (split_once c xs))"

fun split_on :: "char \<Rightarrow> string \<Rightarrow> string list" where
  "split_on c [] = [[]]"
| "split_on c (x # xs) =
     (if x = c then [] # split_on c xs
      else (case split_on c xs of [] \<Rightarrow> [[x]] | y # ys \<Rightarrow> (x # y) # ys))"

definition is_space :: "char \<Rightarrow> bool" where
  "is_space c \<longleftrightarrow> (let n = (of_char c :: nat) in n = 32 \<or> 9 \<le> n \<and> n \<le> 13)"

definition trim :: "string \<Rightarrow> string" where
  "trim s = rev (dropWhile is_space (rev (dropWhile is_space s)))"

lemma split_once_append:
  "c \<notin> set xs \<Longrightarrow> split_once c (xs @ c # ys) = Some (xs, ys)"
  by (induction xs) auto

lemma split_on_no_sep: "c \<notin> set xs \<Longrightarrow> split_on c xs = [xs]"
  by (induction xs) auto

lemma split_on_append: "c \<notin> set xs \<Longrightarrow> split_on c (xs @ c # ys) = xs # split_on c ys"
  by (induction xs) auto

section \<open>IPv4 addresses\<close>

definition ipv4_octets :: "u32 \<Rightarrow> nat list" where
  "ipv4_octets a =
     [unat a div 16777216, unat a div 65536 mod 256, unat a div 256 mod 256, unat a mod 256]"

primrec join_dots :: "string list \<Rightarrow> string" where
  "join_dots [] = []"
| "join_dots (x # xs) = (if xs = [] then x else x @ CHR ''.'' # join_dots xs)"

definition show_ipv4 :: "u32 \<Rightarrow> string" where
  "show_ipv4 a = join_dots (map decimal (ipv4_octets a))"

text \<open>An octet has one to three digits, no leading zero, and is at most 255.\<close>

definition parse_octet :: "string \<Rightarrow> nat option" where
  "parse_octet s =
     (if s = [] \<or> 3 < length s \<or> (1 < length s \<and> hd s = CHR ''0'') then None
      else parse_acc 255 0 s)"

definition parse_ipv4 :: "string \<Rightarrow> u32 option" where
  "parse_ipv4 s =
     (case split_on CHR ''.'' s of
        [a, b, c, d] \<Rightarrow> do {
          w \<leftarrow> parse_octet a;
          x \<leftarrow> parse_octet b;
          y \<leftarrow> parse_octet c;
          z \<leftarrow> parse_octet d;
          Some (of_nat (((w * 256 + x) * 256 + y) * 256 + z))
        }
      | _ \<Rightarrow> None)"

lemma length_decimal: "n < 1000 \<Longrightarrow> length (decimal n) \<le> 3"
  by (simp add: decimal.simps [of n] decimal.simps [of "n div 10"] decimal.simps [of "n div 10 div 10"])

lemma digit_char_zero: "n < 10 \<Longrightarrow> digit_char n = CHR ''0'' \<Longrightarrow> n = 0"
  using digit_val_char [of n] by (simp add: digit_val_def del: digit_val_char)

lemma hd_decimal: "0 < n \<Longrightarrow> hd (decimal n) \<noteq> CHR ''0''"
proof (induction n rule: decimal.induct)
  case (1 n)
  show ?case
  proof (cases "n < 10")
    case True
    then show ?thesis
      using 1(2) by (auto simp: decimal.simps [of n] dest: digit_char_zero)
  next
    case False
    then show ?thesis
      using 1(1) by (simp add: decimal.simps [of n] hd_append)
  qed
qed

lemma parse_octet_decimal: "n < 256 \<Longrightarrow> parse_octet (decimal n) = Some n"
  using length_decimal [of n] hd_decimal [of n] parse_decimal [of n 255]
  by (cases "n = 0") (auto simp: parse_octet_def decimal.simps [of 0])

lemma split_join_decimals:
  "ns \<noteq> [] \<Longrightarrow> split_on CHR ''.'' (join_dots (map decimal ns)) = map decimal ns"
  by (induction ns) (auto simp: split_on_append split_on_no_sep decimal_no_sep)

lemma ipv4_octets_value:
  fixes a :: u32
  defines "n \<equiv> unat a"
  shows "((n div 16777216 * 256 + n div 65536 mod 256) * 256 + n div 256 mod 256) * 256 + n mod 256 = n"
    and "n div 16777216 < 256"
proof -
  have "n div 256 = n div 65536 * 256 + n div 256 mod 256" "n = n div 256 * 256 + n mod 256"
      "n div 65536 = n div 16777216 * 256 + n div 65536 mod 256"
    using div_mult2_eq [of n 256 256] div_mult2_eq [of n 65536 256] by simp_all
  then show "((n div 16777216 * 256 + n div 65536 mod 256) * 256 + n div 256 mod 256) * 256 + n mod 256 = n"
    by simp
  show "n div 16777216 < 256"
    using unsigned_less [of a, where 'a = nat] by (simp add: n_def div_less_iff_less_mult)
qed

lemma parse_ipv4_show [simp]: "parse_ipv4 (show_ipv4 a) = Some a"
proof -
  have "split_on CHR ''.'' (show_ipv4 a) = map decimal (ipv4_octets a)"
    unfolding show_ipv4_def by (rule split_join_decimals) (simp add: ipv4_octets_def)
  then show ?thesis
    using ipv4_octets_value [of a]
    by (simp add: parse_ipv4_def ipv4_octets_def parse_octet_decimal
        del: distrib_right_numeral of_nat_add of_nat_mult)
qed

lemma show_ipv4_inject [simp]: "show_ipv4 a = show_ipv4 b \<longleftrightarrow> a = b"
  by (metis parse_ipv4_show option.inject)

lemma show_ipv4_no_colon: "CHR '':'' \<notin> set (show_ipv4 a)"
  by (simp add: show_ipv4_def ipv4_octets_def decimal_no_sep)

end
