(* ===== verification/Control_Plane.thy ===== *)
theory Control_Plane
  imports Bpf_Maps Port_Allocator Text_Std
begin

text \<open>
  The HTTP handlers that expose and unexpose container ports: \<open>xdp-natd/src/api/expose.rs\<close>,
  \<open>api/mod.rs\<close>, \<open>api/state.rs\<close>, \<open>api/health_check.rs\<close>. A handler runs under the write lock of the
  shared state from its first line to its last, so it is one function on the state. The exposed
  ports live in the BPF map the kernel program reads; the \<open>iptables\<close> command is a parameter.
\<close>

section \<open>State and results\<close>

record container_metadata =
  cm_name :: string
  cm_veth :: string
  cm_ipv4_address :: u32
  cm_ifindex :: u32
  cm_pid :: "int option"
  cm_mac_address :: mac

type_synonym container_map = "u32 \<Rightarrow> container_metadata option"
type_synonym 'm expose_ops = "('m, u16, container_info) bpf_map_ops"

record 'm app_state =
  expose_map :: 'm
  allocator :: port_allocator
  container_metas :: container_map

definition app_state_new :: "'m \<Rightarrow> port_allocator \<Rightarrow> container_map \<Rightarrow> 'm app_state" where
  "app_state_new em pa cm = \<lparr>expose_map = em, allocator = pa, container_metas = cm\<rparr>"

datatype app_error =
    NotFound string
  | Conflict string
  | Capacity string
  | Internal string

datatype http_body = Text string | Json_message string

record response =
  status :: nat
  body :: http_body

record expose_request =
  req_container_ip :: u32
  req_container_port :: u16

definition INTERNAL_MESSAGE :: string where
  "INTERNAL_MESSAGE = ''An internal server error occurred''"

text \<open>\<open>IntoResponse for AppError\<close>: the cause of an internal error is logged, not sent.\<close>

definition into_response :: "app_error \<Rightarrow> response" where
  "into_response e =
     (case e of
        NotFound msg \<Rightarrow> \<lparr>status = 404, body = Json_message msg\<rparr>
      | Conflict msg \<Rightarrow> \<lparr>status = 409, body = Json_message msg\<rparr>
      | Capacity msg \<Rightarrow> \<lparr>status = 503, body = Json_message msg\<rparr>
      | Internal msg \<Rightarrow> \<lparr>status = 500, body = Json_message INTERNAL_MESSAGE\<rparr>)"

definition health_check :: response where
  "health_check = \<lparr>status = 200, body = Text ''OK''\<rparr>"

text \<open>
  What the handlers use of the host: running \<open>iptables\<close> with arguments on the firewall \<open>'w\<close>
  (\<open>Inl\<close> when it cannot be executed, else whether its exit status is a success), and how an
  error of a BPF map is printed.
\<close>

record 'w host_ops =
  run_iptables :: "string list \<Rightarrow> 'w \<Rightarrow> (string + bool) \<times> 'w"
  map_error_text :: "int \<Rightarrow> string"

section \<open>iptables rules\<close>

definition destination :: "u32 \<Rightarrow> u16 \<Rightarrow> string" where
  "destination ip port =
     show_ipv4 ip @ '':'' @ show_u16 port"

definition add_iptables_rule ::
    "'w host_ops \<Rightarrow> u16 \<Rightarrow> u32 \<Rightarrow> u16 \<Rightarrow> 'w \<Rightarrow> (string + unit) \<times> 'w" where
  "add_iptables_rule H host_port ip port w =
     (case run_iptables H
        [''-t'', ''nat'', ''-A'', ''PREROUTING'', ''-p'', ''tcp'', ''--dport'', show_u16 host_port,
         ''-j'', ''DNAT'', ''--to-destination'', destination ip port] w of
        (Inl e, w') \<Rightarrow> (Inl ''failed to execute iptables command'', w')
      | (Inr success, w') \<Rightarrow>
          (if success then (Inr (), w')
           else (Inl (''failed to add iptables TCP rule for port '' @ show_u16 host_port), w')))"

definition remove_iptables_rule ::
    "'w host_ops \<Rightarrow> u16 \<Rightarrow> u32 \<Rightarrow> u16 \<Rightarrow> 'w \<Rightarrow> (string + unit) \<times> 'w" where
  "remove_iptables_rule H host_port ip port w =
     (case run_iptables H
        [''-t'', ''nat'', ''-D'', ''PREROUTING'', ''-p'', ''tcp'', ''--dport'', show_u16 host_port,
         ''-j'', ''DNAT'', ''--to-destination'', destination ip port] w of
        (Inl e, w') \<Rightarrow> (Inl ''failed to execute iptables command'', w')
      | (Inr success, w') \<Rightarrow>
          (if success then (Inr (), w')
           else (Inl (''failed to remove iptables TCP rule for port '' @ show_u16 host_port), w')))"

section \<open>The handlers\<close>

definition expose_port ::
    "'m expose_ops \<Rightarrow> 'w host_ops \<Rightarrow> expose_request \<Rightarrow> 'm app_state \<Rightarrow> 'w
       \<Rightarrow> (app_error + response) \<times> 'm app_state \<times> 'w" where
  "expose_port K H req st w =
     (case container_metas st (req_container_ip req) of
        None \<Rightarrow>
          (Inl (NotFound (''Container with IP '' @ show_ipv4 (req_container_ip req)
             @ '' doesn't exist'')), st, w)
      | Some container \<Rightarrow>
          (let info = \<lparr>container_ip = cm_ipv4_address container,
                       container_mac = cm_mac_address container,
                       container_port = req_container_port req,
                       ci_ifindex = cm_ifindex container\<rparr> in
           case allocate_next (allocator st) of
             (None, pa) \<Rightarrow>
               (Inl (Capacity ''No available host ports left''), st\<lparr>allocator := pa\<rparr>, w)
           | (Some allocated_port, pa) \<Rightarrow>
               (case bm_insert K (expose_map st) allocated_port info BPF_NOEXIST of
                  (Inl e, em) \<Rightarrow>
                    (Inl (Internal (''Failed to insert host port '' @ show_u16 allocated_port
                       @ '' into expose_map: '' @ map_error_text H e)),
                     st\<lparr>expose_map := em, allocator := deallocate allocated_port pa\<rparr>, w)
                | (Inr _, em) \<Rightarrow>
                    (case add_iptables_rule H allocated_port (container_ip info)
                            (container_port info) w of
                       (Inl e, w') \<Rightarrow>
                         (Inl (Internal (''Failed to expose tcp port '' @ show_u16 allocated_port
                            @ '' via iptables: '' @ e)),
                          st\<lparr>expose_map := snd (bm_remove K em allocated_port),
                             allocator := deallocate allocated_port pa\<rparr>, w')
                     | (Inr _, w') \<Rightarrow>
                         (Inr \<lparr>status = 200, body = Text (''exposing container port ''
                            @ show_u16 (req_container_port req) @ '' on host port ''
                            @ show_u16 allocated_port)\<rparr>,
                          st\<lparr>expose_map := em, allocator := pa\<rparr>, w')))))"

definition unexpose_port ::
    "'m expose_ops \<Rightarrow> 'w host_ops \<Rightarrow> u16 \<Rightarrow> 'm app_state \<Rightarrow> 'w
       \<Rightarrow> (app_error + response) \<times> 'm app_state \<times> 'w" where
  "unexpose_port K H host_port st w =
     (case bm_lookup K (expose_map st) host_port of
        None \<Rightarrow>
          (Inl (NotFound (''Host port '' @ show_u16 host_port @ '' is not currently exposed'')), st, w)
      | Some info \<Rightarrow>
          (case remove_iptables_rule H host_port (container_ip info) (container_port info) w of
             (Inl e, w') \<Rightarrow> (Inl (Internal (''Failed to remove iptables rule: '' @ e)), st, w')
           | (Inr _, w') \<Rightarrow>
               (Inr \<lparr>status = 200, body = Text (''Unexposed host port '' @ show_u16 host_port)\<rparr>,
                st\<lparr>expose_map := snd (bm_remove K (expose_map st) host_port),
                   allocator := deallocate host_port (allocator st)\<rparr>, w')))"

text \<open>A request as the server answers it: \<open>Err\<close> becomes a response of its own.\<close>

datatype api_request = Expose expose_request | Unexpose u16

definition handle ::
    "'m expose_ops \<Rightarrow> 'w host_ops \<Rightarrow> api_request \<Rightarrow> 'm app_state \<Rightarrow> 'w
       \<Rightarrow> (app_error + response) \<times> 'm app_state \<times> 'w" where
  "handle K H r = (case r of Expose req \<Rightarrow> expose_port K H req | Unexpose port \<Rightarrow> unexpose_port K H port)"

definition respond :: "app_error + response \<Rightarrow> response" where
  "respond r = (case r of Inl e \<Rightarrow> into_response e | Inr resp \<Rightarrow> resp)"

section \<open>The contract of the firewall\<close>

definition rule_spec :: "u16 \<Rightarrow> u32 \<Rightarrow> u16 \<Rightarrow> string list" where
  "rule_spec host_port ip port =
     [''-p'', ''tcp'', ''--dport'', show_u16 host_port, ''-j'', ''DNAT'', ''--to-destination'',
      destination ip port]"

definition nat_prerouting :: "string \<Rightarrow> string list \<Rightarrow> string list" where
  "nat_prerouting cmd spec = [''-t'', ''nat'', cmd, ''PREROUTING''] @ spec"

text \<open>
  The PREROUTING chain of the nat table, as documented: \<open>-A\<close> appends a rule, \<open>-D\<close> with a
  specification deletes the first rule that matches it and fails when there is none, \<open>-F\<close> deletes
  all rules; a command that fails leaves the chain as it was.
\<close>

locale nat_firewall =
  fixes H :: "'w host_ops" and rules :: "'w \<Rightarrow> string list list"
  assumes append_rule:
      "run_iptables H (nat_prerouting ''-A'' spec) w = (Inr True, w') \<Longrightarrow> rules w' = rules w @ [spec]"
    and delete_rule:
      "run_iptables H (nat_prerouting ''-D'' spec) w = (Inr True, w') \<Longrightarrow>
         spec \<in> set (rules w) \<and> rules w' = remove1 spec (rules w)"
    and flush_rules:
      "run_iptables H (nat_prerouting ''-F'' []) w = (Inr True, w') \<Longrightarrow> rules w' = []"
    and failed_command:
      "run_iptables H args w = (r, w') \<Longrightarrow> r \<noteq> Inr True \<Longrightarrow> rules w' = rules w"
begin

lemma add_rule_cases:
  obtains (failed) e w' where "add_iptables_rule H p ip port w = (Inl e, w')" "rules w' = rules w"
  | (added) w' where "add_iptables_rule H p ip port w = (Inr (), w')"
      "rules w' = rules w @ [rule_spec p ip port]"
proof -
  obtain r w' where
    run: "run_iptables H (nat_prerouting ''-A'' (rule_spec p ip port)) w = (r, w')"
    by fastforce
  show thesis
  proof (cases "r = Inr True")
    case True
    then show thesis
      using run append_rule [of "rule_spec p ip port" w w']
      by (intro added) (simp_all add: add_iptables_rule_def nat_prerouting_def rule_spec_def)
  next
    case False
    then obtain e where "add_iptables_rule H p ip port w = (Inl e, w')"
      using run by (cases r) (auto simp: add_iptables_rule_def nat_prerouting_def rule_spec_def)
    then show thesis
      using failed_command [OF run False] by (rule failed)
  qed
qed

lemma remove_rule_cases:
  obtains (failed) e w' where "remove_iptables_rule H p ip port w = (Inl e, w')" "rules w' = rules w"
  | (removed) w' where "remove_iptables_rule H p ip port w = (Inr (), w')"
      "rule_spec p ip port \<in> set (rules w)" "rules w' = remove1 (rule_spec p ip port) (rules w)"
proof -
  obtain r w' where
    run: "run_iptables H (nat_prerouting ''-D'' (rule_spec p ip port)) w = (r, w')"
    by fastforce
  show thesis
  proof (cases "r = Inr True")
    case True
    then have "remove_iptables_rule H p ip port w = (Inr (), w')"
      using run by (simp add: remove_iptables_rule_def nat_prerouting_def rule_spec_def)
    then show thesis
      using delete_rule [of "rule_spec p ip port" w w'] run True by (intro removed) auto
  next
    case False
    then obtain e where "remove_iptables_rule H p ip port w = (Inl e, w')"
      using run by (cases r) (auto simp: remove_iptables_rule_def nat_prerouting_def rule_spec_def)
    then show thesis
      using failed_command [OF run False] by (rule failed)
  qed
qed

end

section \<open>A firewall that satisfies the contract\<close>

definition chain_run :: "string list \<Rightarrow> string list list \<Rightarrow> (string + bool) \<times> string list list" where
  "chain_run args rs =
     (case args of
        t # tbl # cmd # chain # spec \<Rightarrow>
          if t = ''-t'' \<and> tbl = ''nat'' \<and> chain = ''PREROUTING'' then
            (if cmd = ''-A'' then (Inr True, rs @ [spec])
             else if cmd = ''-D'' \<and> spec \<in> set rs then (Inr True, remove1 spec rs)
             else if cmd = ''-F'' \<and> spec = [] then (Inr True, [])
             else (Inr False, rs))
          else (Inr False, rs)
      | _ \<Rightarrow> (Inr False, rs))"

definition chain_host :: "string list list host_ops" where
  "chain_host = \<lparr>run_iptables = chain_run, map_error_text = (\<lambda>e. ''map error'')\<rparr>"

interpretation chain_firewall: nat_firewall chain_host "\<lambda>rs. rs"
  by unfold_locales
    (auto simp: chain_host_def chain_run_def nat_prerouting_def split: list.splits if_splits)

section \<open>Every branch of the handlers\<close>

definition info_for :: "expose_request \<Rightarrow> container_metadata \<Rightarrow> container_info" where
  "info_for req c = \<lparr>container_ip = cm_ipv4_address c, container_mac = cm_mac_address c,
     container_port = req_container_port req, ci_ifindex = cm_ifindex c\<rparr>"

lemma info_for_sel [simp]:
  "container_ip (info_for req c) = cm_ipv4_address c"
  "container_mac (info_for req c) = cm_mac_address c"
  "container_port (info_for req c) = req_container_port req"
  "ci_ifindex (info_for req c) = cm_ifindex c"
  by (simp_all add: info_for_def)

definition exposed_response :: "u16 \<Rightarrow> u16 \<Rightarrow> response" where
  "exposed_response port host_port = \<lparr>status = 200, body = Text (''exposing container port ''
     @ show_u16 port @ '' on host port '' @ show_u16 host_port)\<rparr>"

definition unexposed_response :: "u16 \<Rightarrow> response" where
  "unexposed_response host_port =
     \<lparr>status = 200, body = Text (''Unexposed host port '' @ show_u16 host_port)\<rparr>"

locale control_plane = bpf_hash K + nat_firewall H rules
  for K :: "'m expose_ops" and H :: "'w host_ops" and rules :: "'w \<Rightarrow> string list list"
begin

lemma insert_noexist_cases:
  obtains (refused) e m' where "bm_insert K m k v BPF_NOEXIST = (Inl e, m')"
      "bm_lookup K m' = bm_lookup K m"
  | (inserted) m' where "bm_insert K m k v BPF_NOEXIST = (Inr (), m')"
      "bm_lookup K m k = None" "bm_lookup K m' = (bm_lookup K m)(k \<mapsto> v)"
proof -
  obtain r m' where ins: "bm_insert K m k v BPF_NOEXIST = (r, m')"
    by fastforce
  show thesis
  proof (cases r)
    case (Inl e)
    with ins show thesis
      by (intro refused [of e m'] insert_failure) auto
  next
    case (Inr u)
    with ins show thesis
      using insert_success [of m k v BPF_NOEXIST u m'] insert_ok_fresh [of m k v]
      by (intro inserted) auto
  qed
qed

lemma expose_cases:
  obtains (unknown) msg where "container_metas st (req_container_ip req) = None"
      "expose_port K H req st w = (Inl (NotFound msg), st, w)"
  | (full) c msg where "container_metas st (req_container_ip req) = Some c"
      "ports (allocator st) = []"
      "expose_port K H req st w = (Inl (Capacity msg), st, w)"
  | (failed) p ps msg st' w' where
      "expose_port K H req st w = (Inl (Internal msg), st', w')"
      "bm_lookup K (expose_map st') = bm_lookup K (expose_map st)"
      "ports (allocator st) = p # ps" "ports (allocator st') = ps @ [p]"
      "container_metas st' = container_metas st" "rules w' = rules w"
  | (exposed) c p st' w' where "container_metas st (req_container_ip req) = Some c"
      "expose_port K H req st w = (Inr (exposed_response (req_container_port req) p), st', w')"
      "ports (allocator st) = p # ports (allocator st')"
      "bm_lookup K (expose_map st) p = None"
      "bm_lookup K (expose_map st') = (bm_lookup K (expose_map st))(p \<mapsto> info_for req c)"
      "container_metas st' = container_metas st"
      "rules w' = rules w @ [rule_spec p (cm_ipv4_address c) (req_container_port req)]"
proof (cases "container_metas st (req_container_ip req)")
  case None
  then show thesis
    by (intro unknown) (simp_all add: expose_port_def)
next
  case (Some c)
  note c = this
  show thesis
  proof (rule pool.alloc_cases [of "allocator st"])
    assume "allocate_next (allocator st) = (None, allocator st)" "ports (allocator st) = []"
    then show thesis
      using c by (intro full) (simp_all add: expose_port_def Let_def)
  next
    fix p pa
    assume al: "allocate_next (allocator st) = (Some p, pa)" "ports (allocator st) = p # ports pa"
    show thesis
    proof (rule insert_noexist_cases [of "expose_map st" p "info_for req c"])
      fix e em
      assume "bm_insert K (expose_map st) p (info_for req c) BPF_NOEXIST = (Inl e, em)"
        "bm_lookup K em = bm_lookup K (expose_map st)"
      then show thesis
        using c al
        by (intro failed [of _ "st\<lparr>expose_map := em, allocator := deallocate p pa\<rparr>" w])
          (simp_all add: expose_port_def Let_def info_for_def deallocate_def)
    next
      fix em
      assume ins: "bm_insert K (expose_map st) p (info_for req c) BPF_NOEXIST = (Inr (), em)"
        "bm_lookup K (expose_map st) p = None"
        "bm_lookup K em = (bm_lookup K (expose_map st))(p \<mapsto> info_for req c)"
      show thesis
      proof (rule add_rule_cases [of p "cm_ipv4_address c" "req_container_port req" w])
        fix e w'
        assume "add_iptables_rule H p (cm_ipv4_address c) (req_container_port req) w = (Inl e, w')"
          "rules w' = rules w"
        then show thesis
          using c al ins
          by (intro failed [of _ "st\<lparr>expose_map := snd (bm_remove K em p),
                allocator := deallocate p pa\<rparr>" w'])
            (simp_all add: expose_port_def Let_def info_for_def deallocate_def remove_key fun_upd_idem)
      next
        fix w'
        assume "add_iptables_rule H p (cm_ipv4_address c) (req_container_port req) w = (Inr (), w')"
          "rules w' = rules w @ [rule_spec p (cm_ipv4_address c) (req_container_port req)]"
        then show thesis
          using c al ins
          by (intro exposed [of c p "st\<lparr>expose_map := em, allocator := pa\<rparr>" w'])
            (simp_all add: expose_port_def Let_def info_for_def exposed_response_def)
      qed
    qed
  qed
qed

lemma unexpose_cases:
  obtains (unknown) msg where "bm_lookup K (expose_map st) port = None"
      "unexpose_port K H port st w = (Inl (NotFound msg), st, w)"
  | (failed) msg w' where "unexpose_port K H port st w = (Inl (Internal msg), st, w')"
      "rules w' = rules w"
  | (removed) info st' w' where "bm_lookup K (expose_map st) port = Some info"
      "unexpose_port K H port st w = (Inr (unexposed_response port), st', w')"
      "bm_lookup K (expose_map st') = (bm_lookup K (expose_map st))(port := None)"
      "ports (allocator st') = ports (allocator st) @ [port]"
      "container_metas st' = container_metas st"
      "rule_spec port (container_ip info) (container_port info) \<in> set (rules w)"
      "rules w' = remove1 (rule_spec port (container_ip info) (container_port info)) (rules w)"
proof (cases "bm_lookup K (expose_map st) port")
  case None
  then show thesis
    by (intro unknown) (simp_all add: unexpose_port_def)
next
  case (Some info)
  show thesis
  proof (rule remove_rule_cases [of port "container_ip info" "container_port info" w])
    fix e w'
    assume "remove_iptables_rule H port (container_ip info) (container_port info) w = (Inl e, w')"
      "rules w' = rules w"
    then show thesis
      using Some by (intro failed [of _ w']) (simp_all add: unexpose_port_def)
  next
    fix w'
    assume "remove_iptables_rule H port (container_ip info) (container_port info) w = (Inr (), w')"
      "rule_spec port (container_ip info) (container_port info) \<in> set (rules w)"
      "rules w' = remove1 (rule_spec port (container_ip info) (container_port info)) (rules w)"
    then show thesis
      using Some
      by (intro removed [of info "st\<lparr>expose_map := snd (bm_remove K (expose_map st) port),
            allocator := deallocate port (allocator st)\<rparr>" w'])
        (simp_all add: unexpose_port_def remove_key deallocate_def unexposed_response_def)
  qed
qed

end

interpretation control_ref: control_plane
    "table_ops EXPOSE_MAP_ENTRIES :: (_, u16, container_info) bpf_map_ops" chain_host "\<lambda>rs. rs"
  by (intro control_plane.intro chain_firewall.nat_firewall_axioms expose_table.bpf_hash_axioms)

end
