(* ===== verification/Exposure_Spec.thy ===== *)
theory Exposure_Spec
  imports Control_Plane
begin

text \<open>
  What the control plane promises, without BPF maps, locks and subprocesses: a table of exposed
  ports and a queue of free ones, and a step relation with the status code each request may be
  answered with. The refinement lemma shows that the handlers implement it; the division of the
  port range between free and exposed ports is proved once on the specification.
\<close>

section \<open>Specification\<close>

record exposure =
  exposed :: "u16 \<Rightarrow> container_info option"
  free_ports :: "u16 list"

inductive exposure_step :: "container_map \<Rightarrow> api_request \<Rightarrow> exposure \<Rightarrow> nat \<Rightarrow> exposure \<Rightarrow> bool"
  for cm :: container_map
where
  expose_ok: "cm (req_container_ip req) = Some c \<Longrightarrow> free_ports s = p # ps \<Longrightarrow> exposed s p = None \<Longrightarrow>
    exposure_step cm (Expose req) s 200
      (s\<lparr>exposed := (exposed s)(p \<mapsto> info_for req c), free_ports := ps\<rparr>)"
| expose_unknown: "cm (req_container_ip req) = None \<Longrightarrow> exposure_step cm (Expose req) s 404 s"
| expose_exhausted: "free_ports s = [] \<Longrightarrow> exposure_step cm (Expose req) s 503 s"
| expose_failed: "free_ports s = p # ps \<Longrightarrow>
    exposure_step cm (Expose req) s 500 (s\<lparr>free_ports := ps @ [p]\<rparr>)"
| unexpose_ok: "exposed s p = Some info \<Longrightarrow>
    exposure_step cm (Unexpose p) s 200
      (s\<lparr>exposed := (exposed s)(p := None), free_ports := free_ports s @ [p]\<rparr>)"
| unexpose_unknown: "exposed s p = None \<Longrightarrow> exposure_step cm (Unexpose p) s 404 s"
| unexpose_failed: "exposure_step cm (Unexpose p) s 500 s"

inductive_cases expose_stepE: "exposure_step cm (Expose req) s code t"
inductive_cases unexpose_stepE: "exposure_step cm (Unexpose p) s code t"

lemma step_exhausted: "exposure_step cm r s 503 t \<Longrightarrow> free_ports s = []"
  by (cases r) (auto elim: expose_stepE unexpose_stepE)

lemma step_status: "exposure_step cm r s code t \<Longrightarrow> code \<in> {200, 404, 500, 503}"
  by (cases r) (auto elim: expose_stepE unexpose_stepE)

inductive exposure_reach :: "container_map \<Rightarrow> exposure \<Rightarrow> exposure \<Rightarrow> bool"
  for cm :: container_map and s0 :: exposure
where
  reach_start: "exposure_reach cm s0 s0"
| reach_step: "exposure_reach cm s0 s \<Longrightarrow> exposure_step cm r s code t \<Longrightarrow> exposure_reach cm s0 t"

definition ports_divided :: "u16 set \<Rightarrow> exposure \<Rightarrow> bool" where
  "ports_divided U s \<longleftrightarrow> pool_ok (dom (exposed s)) (free_ports s) U"

lemma pool_ok_take: "pool_ok A (p # ps) U \<Longrightarrow> pool_ok (insert p A) ps U"
  by (auto simp: pool_ok_def)

lemma pool_ok_give: "pool_ok A fs U \<Longrightarrow> p \<in> A \<Longrightarrow> pool_ok (A - {p}) (fs @ [p]) U"
  by (auto simp: pool_ok_def)

lemma pool_ok_rotate: "pool_ok A (p # ps) U \<Longrightarrow> pool_ok A (ps @ [p]) U"
  by (erule pool_ok_mset) simp

lemma step_ports_divided:
  "exposure_step cm r s code t \<Longrightarrow> ports_divided U s \<Longrightarrow> ports_divided U t"
  by (induction rule: exposure_step.induct)
    (auto simp: ports_divided_def pool_ok_rotate intro: pool_ok_take pool_ok_give)

lemma reach_ports_divided:
  "exposure_reach cm s0 s \<Longrightarrow> ports_divided U s0 \<Longrightarrow> ports_divided U s"
  by (induction rule: exposure_reach.induct) (blast intro: step_ports_divided)+

text \<open>Containers are stored under their own address, and an exposed port belongs to one of them.\<close>

definition containers_wf :: "container_map \<Rightarrow> bool" where
  "containers_wf cm \<longleftrightarrow> (\<forall>k c. cm k = Some c \<longrightarrow> cm_ipv4_address c = k)"

definition container_known :: "container_map \<Rightarrow> container_info \<Rightarrow> bool" where
  "container_known cm info \<longleftrightarrow> (\<exists>c. cm (container_ip info) = Some c
     \<and> cm_mac_address c = container_mac info \<and> cm_ifindex c = ci_ifindex info)"

lemma info_for_known:
  "containers_wf cm \<Longrightarrow> cm (req_container_ip req) = Some c \<Longrightarrow> container_known cm (info_for req c)"
  by (auto simp: containers_wf_def container_known_def)

lemma step_exposed_known:
  "exposure_step cm r s code t \<Longrightarrow> containers_wf cm \<Longrightarrow>
     \<forall>p info. exposed s p = Some info \<longrightarrow> container_known cm info \<Longrightarrow>
     \<forall>p info. exposed t p = Some info \<longrightarrow> container_known cm info"
  by (induction rule: exposure_step.induct) (auto intro: info_for_known split: if_splits)

lemma reach_exposed_known:
  "exposure_reach cm s0 s \<Longrightarrow> containers_wf cm \<Longrightarrow>
     \<forall>p info. exposed s0 p = Some info \<longrightarrow> container_known cm info \<Longrightarrow>
     \<forall>p info. exposed s p = Some info \<longrightarrow> container_known cm info"
  by (induction rule: exposure_reach.induct) (blast dest: step_exposed_known)+

section \<open>Refinement\<close>

definition abs_exposure :: "'m expose_ops \<Rightarrow> 'm app_state \<Rightarrow> exposure" where
  "abs_exposure K st = \<lparr>exposed = bm_lookup K (expose_map st), free_ports = ports (allocator st)\<rparr>"

lemma abs_exposure_sel [simp]:
  "exposed (abs_exposure K st) = bm_lookup K (expose_map st)"
  "free_ports (abs_exposure K st) = ports (allocator st)"
  by (simp_all add: abs_exposure_def)

lemma exposure_eqI: "exposed s = exposed t \<Longrightarrow> free_ports s = free_ports t \<Longrightarrow> s = (t :: exposure)"
  by simp

lemma respond_status [simp]:
  "status (respond (Inl (NotFound m))) = 404" "status (respond (Inl (Conflict m))) = 409"
  "status (respond (Inl (Capacity m))) = 503" "status (respond (Inl (Internal m))) = 500"
  "status (respond (Inr (exposed_response a b))) = 200"
  "status (respond (Inr (unexposed_response b))) = 200"
  by (simp_all add: respond_def into_response_def exposed_response_def unexposed_response_def)

context control_plane
begin

lemma expose_refines:
  assumes "expose_port K H req st w = (res, st', w')"
  shows "exposure_step (container_metas st) (Expose req) (abs_exposure K st)
    (status (respond res)) (abs_exposure K st')"
proof (rule expose_cases [of st req w])
  fix c p st2 w2
  assume c: "container_metas st (req_container_ip req) = Some c"
    and run: "expose_port K H req st w =
      (Inr (exposed_response (req_container_port req) p), st2, w2)"
    and "ports (allocator st) = p # ports (allocator st2)" "bm_lookup K (expose_map st) p = None"
      "bm_lookup K (expose_map st2) = (bm_lookup K (expose_map st))(p \<mapsto> info_for req c)"
  then have "exposure_step (container_metas st) (Expose req) (abs_exposure K st) 200
      (abs_exposure K st2)"
    using expose_ok [of "container_metas st" req c "abs_exposure K st" p "ports (allocator st2)"]
    by (simp add: abs_exposure_def)
  then show ?thesis
    using run assms by simp
next
  fix p ps msg st2 w2
  assume run: "expose_port K H req st w = (Inl (Internal msg), st2, w2)"
    and "bm_lookup K (expose_map st2) = bm_lookup K (expose_map st)"
      "ports (allocator st) = p # ps" "ports (allocator st2) = ps @ [p]"
  then have "exposure_step (container_metas st) (Expose req) (abs_exposure K st) 500
      (abs_exposure K st2)"
    using expose_failed [of "abs_exposure K st" p ps] by (simp add: abs_exposure_def)
  then show ?thesis
    using run assms by simp
qed (use assms in \<open>auto intro: exposure_step.intros\<close>)

lemma unexpose_refines:
  assumes "unexpose_port K H port st w = (res, st', w')"
  shows "exposure_step (container_metas st) (Unexpose port) (abs_exposure K st)
    (status (respond res)) (abs_exposure K st')"
proof (rule unexpose_cases [of st port w])
  fix info st2 w2
  assume "bm_lookup K (expose_map st) port = Some info"
    and run: "unexpose_port K H port st w = (Inr (unexposed_response port), st2, w2)"
    and "bm_lookup K (expose_map st2) = (bm_lookup K (expose_map st))(port := None)"
      "ports (allocator st2) = ports (allocator st) @ [port]"
  then have "exposure_step (container_metas st) (Unexpose port) (abs_exposure K st) 200
      (abs_exposure K st2)"
    using unexpose_ok [of "abs_exposure K st" port info] by (simp add: abs_exposure_def)
  then show ?thesis
    using run assms by simp
qed (use assms in \<open>auto intro: exposure_step.intros\<close>)

lemma handle_refines:
  "handle K H r st w = (res, st', w') \<Longrightarrow>
     exposure_step (container_metas st) r (abs_exposure K st) (status (respond res))
       (abs_exposure K st')"
  by (cases r) (simp_all add: handle_def expose_refines unexpose_refines)

end

end
