(* ===== verification/Config_Env.thy ===== *)
theory Config_Env
  imports Text_Std
begin

text \<open>
  Configuration of the daemon: \<open>configuration/environment.rs\<close>, \<open>configuration/config.rs\<close>, and
  \<open>parse_xdp_mode\<close> of \<open>main.rs\<close>. Reading and merging the sources is the \<open>config\<close> crate's, a
  parameter; the sources and the structure filled from them are here.
\<close>

datatype environment = Local | Production

record application_configuration =
  cp_host :: string
  cp_port :: u16
  cp_prefix :: string
  cp_logger_name :: string
  cp_default_env_filter :: string

record data_plane_configuration =
  dp_network :: string
  dp_mode :: string
  dp_pnic :: "string option"

record configuration =
  control_plane_cfg :: application_configuration
  data_plane_cfg :: data_plane_configuration

definition as_str :: "environment \<Rightarrow> string" where
  "as_str e = (case e of Local \<Rightarrow> ''local'' | Production \<Rightarrow> ''production'')"

definition to_lower :: "char \<Rightarrow> char" where
  "to_lower c = (let n = (of_char c :: nat) in if 65 \<le> n \<and> n \<le> 90 then char_of (n + 32) else c)"

definition to_lowercase :: "string \<Rightarrow> string" where
  "to_lowercase s = map to_lower s"

definition environment_try_from :: "string \<Rightarrow> string + environment" where
  "environment_try_from value =
     (let s = to_lowercase value in
      if s = ''local'' then Inr Local
      else if s = ''production'' then Inr Production
      else Inl (s @ '' is not a supported environment. Use either `local` or `production`.''))"

text \<open>Later sources override earlier ones; an unsupported environment stops the daemon.\<close>

datatype config_source = Required_file string | Environment_vars string string

definition path_join :: "string \<Rightarrow> string \<Rightarrow> string" where
  "path_join base name = (if base = [] \<or> last base = CHR ''/'' then base @ name else base @ ''/'' @ name)"

definition config_sources :: "string \<Rightarrow> string option \<Rightarrow> string + config_source list" where
  "config_sources config_directory app_env =
     (case environment_try_from (case app_env of None \<Rightarrow> ''local'' | Some v \<Rightarrow> v) of
        Inl e \<Rightarrow> Inl e
      | Inr environment \<Rightarrow>
          Inr [Required_file (path_join config_directory ''base''),
               Required_file (path_join config_directory (as_str environment)),
               Environment_vars ''app'' ''__''])"

text \<open>
  A call that may panic. The process's directory, the variable \<open>APP_ENV\<close>, and what building and
  deserializing report are parameters.
\<close>

datatype 'a call = Returns 'a | Panics string

record 'raw config_host =
  cf_current_dir :: "string + string"
  cf_app_env :: "string option"
  cf_build :: "config_source list \<Rightarrow> string + 'raw"
  cf_deserialize :: "'raw \<Rightarrow> string + configuration"

definition get_configuration :: "'raw config_host \<Rightarrow> (string + configuration) call" where
  "get_configuration C =
     (case cf_current_dir C of
        Inl e \<Rightarrow> Panics ''Failed to get current directory.''
      | Inr base_path \<Rightarrow>
        (let config_directory = path_join base_path ''configuration'' in
         case config_sources config_directory (cf_app_env C) of
           Inl e \<Rightarrow> Panics ''Failed to read APP_ENV''
         | Inr sources \<Rightarrow>
           (case cf_build C sources of
              Inl e \<Rightarrow> Returns (Inl e)
            | Inr config \<Rightarrow> Returns (cf_deserialize C config))))"

datatype xdp_flags = SKB_MODE | DRV_MODE

definition parse_xdp_mode :: "string \<Rightarrow> string + xdp_flags" where
  "parse_xdp_mode mode =
     (if mode = ''skb'' then Inr SKB_MODE
      else if mode = ''native'' then Inr DRV_MODE
      else Inl (''invalid mode, use either 'skb' or 'native'' @ [CHR 0x27]))"

lemma to_lower_idem: "to_lower (to_lower c) = to_lower c"
proof (cases "65 \<le> (of_char c :: nat) \<and> of_char c \<le> (90 :: nat)")
  case True
  then have "of_char (char_of (of_char c + 32 :: nat)) = (of_char c + 32 :: nat)"
    by (simp add: of_char_of)
  with True show ?thesis
    by (simp add: to_lower_def Let_def)
qed (auto simp: to_lower_def Let_def)

lemma to_lowercase_idem [simp]: "to_lowercase (to_lowercase s) = to_lowercase s"
  by (simp add: to_lowercase_def to_lower_idem)

lemma to_lowercase_names: "to_lowercase (as_str e) = as_str e"
  by (cases e) (simp_all add: as_str_def to_lowercase_def to_lower_def)

text \<open>
  Environment names round-trip and are read without regard to case: a value is accepted
  exactly when its lower-case form is the name of an environment, which is the one returned.
\<close>

theorem environment_roundtrip:
  "environment_try_from (as_str e) = Inr e
   \<and> (environment_try_from v = Inr e \<longleftrightarrow> to_lowercase v = as_str e)
   \<and> environment_try_from (to_lowercase v) = environment_try_from v"
proof -
  have "environment_try_from v = Inr e \<longleftrightarrow> to_lowercase v = as_str e" for v
    by (cases e) (auto simp: environment_try_from_def Let_def as_str_def split: if_splits)
  then show ?thesis
    by (simp add: to_lowercase_names) (simp add: environment_try_from_def)
qed

end
