(* ===== verification/Api_Server.thy ===== *)
theory Api_Server
  imports Control_Plane Config_Env
begin

text \<open>
  The wiring of the API server, \<open>xdp-natd/src/api/router.rs\<close> and \<open>api/server.rs\<close>: the routes, the
  shared state and the prefix under which they are nested. Matching a request against the routes
  and decoding it are \<open>axum\<close>'s; request tracing is left out.
\<close>

datatype http_method = GET | POST | DELETE

datatype api_handler = Health_check | Expose_port | Unexpose_port

record 'm api_router =
  ar_prefix :: string
  ar_routes :: "(string \<times> http_method \<times> api_handler) list"
  ar_state :: "'m app_state"

definition router :: "'m app_state \<Rightarrow> string \<Rightarrow> 'm api_router" where
  "router st prefix = \<lparr>ar_prefix = prefix,
     ar_routes = [(''/health_check'', GET, Health_check), (''/expose'', POST, Expose_port),
       (''/unexpose/{:port}'', DELETE, Unexpose_port)],
     ar_state = st\<rparr>"

definition setup_axum_server ::
    "configuration \<Rightarrow> 'm \<Rightarrow> port_allocator \<Rightarrow> container_map \<Rightarrow> 'm api_router" where
  "setup_axum_server cfg em pa containers =
     (let prefix = cp_prefix (control_plane_cfg cfg); state = app_state_new em pa containers
      in router state prefix)"

definition listen_address :: "configuration \<Rightarrow> string" where
  "listen_address cfg =
     cp_host (control_plane_cfg cfg) @ '':'' @ show_u16 (cp_port (control_plane_cfg cfg))"

lemma setup_axum_server_sel [simp]:
  "ar_state (setup_axum_server cfg em pa cm) = app_state_new em pa cm"
  "ar_prefix (setup_axum_server cfg em pa cm) = cp_prefix (control_plane_cfg cfg)"
  by (simp_all add: setup_axum_server_def router_def)

end
