(* ===== verification/Startup.thy ===== *)
theory Startup
  imports Exposure_Spec Api_Server
begin

text \<open>
  The daemon's start and end, \<open>xdp-natd/src/main.rs\<close>: discovering the containers of a Docker
  network, attaching the programs, filling the redirect map, configuring the NIC, reserving host
  ports, and cleaning up. Docker, the interface list, program loading and the reserved-ports file
  are parameters; errors of theirs are passed on as strings. The iteration order of a Rust hash
  map is unspecified, so the containers of one are taken in the order of a function given.
\<close>

section \<open>The host\<close>

datatype tty_chunk = StdIn string | StdOut string | StdErr string

record endpoint =
  ep_name :: "string option"
  ep_mac_address :: "string option"
  ep_ipv4_address :: "string option"

record docker_host =
  dk_network :: "string \<Rightarrow> string + (string \<times> endpoint) list option"
  dk_inspect_pid :: "string \<Rightarrow> string + int option"
  dk_exec :: "string \<Rightarrow> string list \<Rightarrow> string + (string + tty_chunk) list"
  dk_interfaces :: "string \<Rightarrow> string + (u32 \<times> string) list"
  dk_parse_mac :: "string \<Rightarrow> string + mac"
  dk_values :: "container_map \<Rightarrow> container_metadata list"

record net_host =
  nh_nametoindex :: "string \<Rightarrow> string + u32"
  nh_ifaddrs :: "string + (string \<times> u32 option) list"
  nh_load :: "string \<Rightarrow> string + unit"
  nh_attach :: "string \<Rightarrow> string \<Rightarrow> xdp_flags \<Rightarrow> string + unit"
  nh_map_error :: "int \<Rightarrow> string"
  nh_object :: "nat \<Rightarrow> string + unit"

section \<open>Discovering containers\<close>

text \<open>The first chunk of standard output; an error of the stream comes first if it is first.\<close>

fun first_output :: "(string + tty_chunk) list \<Rightarrow> string + string option" where
  "first_output [] = Inr None"
| "first_output (Inl e # rest) = Inl e"
| "first_output (Inr (StdOut items) # rest) = Inr (Some items)"
| "first_output (Inr (StdErr items) # rest) = first_output rest"
| "first_output (Inr (StdIn items) # rest) = first_output rest"

definition read_metadata ::
    "docker_host \<Rightarrow> string \<Rightarrow> endpoint \<Rightarrow> int option \<Rightarrow> string \<Rightarrow> string + container_metadata" where
  "read_metadata D cid ep pid output =
     (case parse_u32 (trim output) of
        None \<Rightarrow> Inl ''Failed to parse iflink''
      | Some iflink \<Rightarrow>
        (case dk_interfaces D cid of
           Inl e \<Rightarrow> Inl e
         | Inr interfaces \<Rightarrow>
           (case List.find (\<lambda>i. fst i = iflink) interfaces of
              None \<Rightarrow> Inl ''Matching interface not found on host''
            | Some interface \<Rightarrow>
              (case dk_parse_mac D (case ep_mac_address ep of None \<Rightarrow> [] | Some m \<Rightarrow> m) of
                 Inl e \<Rightarrow> Inl e
               | Inr mac \<Rightarrow>
                 (case ep_ipv4_address ep of
                    None \<Rightarrow> Inl ''Missing or invalid IPv4 address''
                  | Some ip \<Rightarrow>
                    (case parse_ipv4 (hd (split_on CHR ''/'' ip)) of
                       None \<Rightarrow> Inl ''invalid IPv4 address syntax''
                     | Some a \<Rightarrow>
                         Inr \<lparr>cm_name = (case ep_name ep of None \<Rightarrow> [] | Some n \<Rightarrow> n),
                              cm_veth = snd interface, cm_ipv4_address = a, cm_ifindex = iflink,
                              cm_pid = pid, cm_mac_address = mac\<rparr>))))))"

fun collect_containers ::
    "docker_host \<Rightarrow> (string \<times> endpoint) list \<Rightarrow> container_map \<Rightarrow> string + container_map" where
  "collect_containers D [] metas = Inr metas"
| "collect_containers D ((cid, ep) # cs) metas =
     (case dk_inspect_pid D cid of
        Inl e \<Rightarrow> Inl e
      | Inr pid \<Rightarrow>
        (case dk_exec D cid [''cat'', ''/sys/class/net/eth0/iflink''] of
           Inl e \<Rightarrow> Inl e
         | Inr stream \<Rightarrow>
           (case first_output stream of
              Inl e \<Rightarrow> Inl e
            | Inr None \<Rightarrow> collect_containers D cs metas
            | Inr (Some output) \<Rightarrow>
              (case read_metadata D cid ep pid output of
                 Inl e \<Rightarrow> Inl e
               | Inr c \<Rightarrow> collect_containers D cs (metas(cm_ipv4_address c \<mapsto> c))))))"

definition get_containers :: "docker_host \<Rightarrow> string \<Rightarrow> string + container_map" where
  "get_containers D network =
     (case dk_network D network of
        Inl e \<Rightarrow> Inl e
      | Inr None \<Rightarrow> Inr Map.empty
      | Inr (Some containers) \<Rightarrow> collect_containers D containers Map.empty)"

section \<open>Interfaces and programs\<close>

fun find_address :: "string \<Rightarrow> (string \<times> u32 option) list \<Rightarrow> u32 option" where
  "find_address ifname [] = None"
| "find_address ifname ((name, address) # rest) =
     (if name = ifname then (case address of Some a \<Rightarrow> Some a | None \<Rightarrow> find_address ifname rest)
      else find_address ifname rest)"

definition get_if_addr :: "net_host \<Rightarrow> string \<Rightarrow> string + u32" where
  "get_if_addr N ifname =
     (case nh_ifaddrs N of
        Inl e \<Rightarrow> Inl e
      | Inr addrs \<Rightarrow>
          (case find_address ifname addrs of
             None \<Rightarrow> Inl (''Failed to find IPv4 address for interface '' @ ifname)
           | Some a \<Rightarrow> Inr a))"

text \<open>The result, with the host-side interfaces that carry the program afterwards.\<close>

fun attach_each ::
    "net_host \<Rightarrow> xdp_flags \<Rightarrow> container_metadata list \<Rightarrow> string list \<Rightarrow> (string + unit) \<times> string list" where
  "attach_each N mode [] attached = (Inr (), attached)"
| "attach_each N mode (c # cs) attached =
     (case nh_attach N ''xdp_redirect_containers'' (cm_veth c) mode of
        Inl e \<Rightarrow> (Inl ''failed to attach the XDP program - try changing XdpFlags to XdpFlags::SKB_MODE'',
                  attached)
      | Inr _ \<Rightarrow> attach_each N mode cs (attached @ [cm_veth c]))"

definition attach_container_xdp ::
    "net_host \<Rightarrow> container_metadata list \<Rightarrow> xdp_flags \<Rightarrow> (string + unit) \<times> string list" where
  "attach_container_xdp N cs mode =
     (case nh_load N ''xdp_redirect_containers'' of
        Inl e \<Rightarrow> (Inl e, [])
      | Inr _ \<Rightarrow> attach_each N mode cs [])"

type_synonym 'r redirect_ops = "('r, u32, u32) bpf_map_ops"

fun setup_devmap ::
    "'r redirect_ops \<Rightarrow> net_host \<Rightarrow> container_metadata list \<Rightarrow> 'r \<Rightarrow> (string + unit) \<times> 'r" where
  "setup_devmap K N [] devmap = (Inr (), devmap)"
| "setup_devmap K N (c # cs) devmap =
     (case bm_insert K devmap (cm_ipv4_address c) (cm_ifindex c) BPF_ANY of
        (Inl e, devmap) \<Rightarrow> (Inl (nh_map_error N e), devmap)
      | (Inr _, devmap) \<Rightarrow> setup_devmap K N cs devmap)"

definition setup_pnic ::
    "'r redirect_ops \<Rightarrow> net_host \<Rightarrow> string \<Rightarrow> xdp_flags \<Rightarrow> 'r \<Rightarrow> (string + u32 \<times> u32) \<times> 'r" where
  "setup_pnic K N nic_name mode devmap =
     (case nh_nametoindex N nic_name of
        Inl e \<Rightarrow> (Inl e, devmap)
      | Inr ifindex \<Rightarrow>
        (case get_if_addr N nic_name of
           Inl e \<Rightarrow> (Inl e, devmap)
         | Inr nic_addr \<Rightarrow>
           (case bm_insert K devmap 0 ifindex BPF_ANY of
              (Inl e, devmap) \<Rightarrow> (Inl (nh_map_error N e), devmap)
            | (Inr _, devmap) \<Rightarrow>
              (case nh_load N ''xdp_redirect_host'' of
                 Inl e \<Rightarrow> (Inl e, devmap)
               | Inr _ \<Rightarrow>
                 (case nh_attach N ''xdp_redirect_host'' nic_name mode of
                    Inl e \<Rightarrow> (Inl ''failed to attach the XDP program to the provided NIC'', devmap)
                  | Inr _ \<Rightarrow> (Inr (nic_addr, ifindex), devmap))))))"

section \<open>Namespaces\<close>

text \<open>
  One thread per container with a process, each ending in success or in a panic that the join
  ignores. The threads share the loaded programs under a mutex; a panic while it is held poisons
  it, and \<open>lock().unwrap()\<close> of a poisoned mutex panics. The threads are listed in the order in
  which they take the lock.
\<close>

datatype thread_outcome = Open_fails | Setup_fails | Attaches

fun run_threads :: "(int \<Rightarrow> thread_outcome) \<Rightarrow> int list \<Rightarrow> bool \<Rightarrow> int list" where
  "run_threads oc [] poisoned = []"
| "run_threads oc (pid # pids) poisoned =
     (case oc pid of
        Open_fails \<Rightarrow> run_threads oc pids poisoned
      | Setup_fails \<Rightarrow> run_threads oc pids True
      | Attaches \<Rightarrow>
          (if poisoned then run_threads oc pids True else pid # run_threads oc pids False))"

definition attach_namespace_pass_programs ::
    "(int \<Rightarrow> thread_outcome) \<Rightarrow> container_metadata list \<Rightarrow> (string + unit) \<times> int list" where
  "attach_namespace_pass_programs oc cs = (Inr (), run_threads oc (List.map_filter cm_pid cs) False)"

section \<open>Ports and clean-up\<close>

definition PORT_RANGE :: string where
  "PORT_RANGE = ''10000-12000''"

text \<open>
  The file's contents or the error of reading it, and what writing reports; the first component
  of the result is what was written.
\<close>

definition reserve_kernel_ports ::
    "string + string \<Rightarrow> (string \<Rightarrow> string + unit) \<Rightarrow> string \<Rightarrow> string option \<times> (string + u16 \<times> u16)" where
  "reserve_kernel_ports existing write_file rng =
     (case existing of
        Inl e \<Rightarrow> (None, Inl e)
      | Inr text \<Rightarrow>
        (let existing_trimmed = trim text;
             new_content = (if existing_trimmed = [] then rng else existing_trimmed @ '','' @ rng) in
         case write_file new_content of
           Inl e \<Rightarrow> (None, Inl e)
         | Inr _ \<Rightarrow>
           (case split_once CHR ''-'' rng of
              None \<Rightarrow> (Some new_content, Inl ''Invalid port rng format'')
            | Some (num1, num2) \<Rightarrow>
              (case parse_u16 num1 of
                 None \<Rightarrow> (Some new_content, Inl ''invalid digit found in string'')
               | Some lower \<Rightarrow>
                 (case parse_u16 num2 of
                    None \<Rightarrow> (Some new_content, Inl ''invalid digit found in string'')
                  | Some upper \<Rightarrow> (Some new_content, Inr (lower, upper)))))))"

definition clean_up :: "'w host_ops \<Rightarrow> 'w \<Rightarrow> (string + unit) \<times> 'w" where
  "clean_up H w =
     (case run_iptables H [''-t'', ''nat'', ''-F'', ''PREROUTING''] w of
        (Inl e, w') \<Rightarrow> (Inl e, w')
      | (Inr success, w') \<Rightarrow>
          (if success then (Inr (), w') else (Inl ''failed to flush PREROUTING iptables'', w')))"

section \<open>The whole start\<close>

text \<open>
  \<open>main\<close> up to the point where it waits for a signal: the redirect map, and with a NIC configured
  slot 0 of \<open>PNIC_ARRAY\<close> and the API server. What comes before the discovery and after the start of
  the server is in \<open>Daemon_Main\<close>. The eBPF object is loaded twice, \<open>nh_object\<close> of 0 and of 1, the
  second time for the programs of the namespaces.
\<close>

record ('r, 'm) daemon =
  dm_redirect :: 'r
  dm_server :: "(nic_info \<times> 'm api_router) option"

definition main_setup ::
    "docker_host \<Rightarrow> net_host \<Rightarrow> (int \<Rightarrow> thread_outcome) \<Rightarrow> string + string \<Rightarrow> (string \<Rightarrow> string + unit)
       \<Rightarrow> 'r redirect_ops \<Rightarrow> configuration \<Rightarrow> 'r \<Rightarrow> 'm \<Rightarrow> string + ('r, 'm) daemon" where
  "main_setup D N oc existing write_file K cfg devmap em =
     (case get_containers D (dp_network (data_plane_cfg cfg)) of
        Inl e \<Rightarrow> Inl e
      | Inr containers \<Rightarrow>
        (case parse_xdp_mode (dp_mode (data_plane_cfg cfg)) of
           Inl e \<Rightarrow> Inl e
         | Inr mode \<Rightarrow>
           (case attach_container_xdp N (dk_values D containers) mode of
              (Inl e, _) \<Rightarrow> Inl e
            | (Inr _, _) \<Rightarrow>
              (case setup_devmap K N (dk_values D containers) devmap of
                 (Inl e, _) \<Rightarrow> Inl e
               | (Inr _, devmap) \<Rightarrow>
                 (case nh_object N 1 of
                    Inl e \<Rightarrow> Inl e
                  | Inr _ \<Rightarrow>
                    (case attach_namespace_pass_programs oc (dk_values D containers) of
                       (Inl e, _) \<Rightarrow> Inl e
                     | (Inr _, _) \<Rightarrow>
                       (case dp_pnic (data_plane_cfg cfg) of
                          None \<Rightarrow> Inr \<lparr>dm_redirect = devmap, dm_server = None\<rparr>
                        | Some nic \<Rightarrow>
                          (case setup_pnic K N nic mode devmap of
                             (Inl e, _) \<Rightarrow> Inl e
                           | (Inr (nic_addr, ifindex), devmap) \<Rightarrow>
                             (case reserve_kernel_ports existing write_file PORT_RANGE of
                                (_, Inl e) \<Rightarrow> Inl e
                              | (_, Inr (lower, upper)) \<Rightarrow>
                                  Inr \<lparr>dm_redirect = devmap,
                                       dm_server = Some (nic_info_new nic_addr ifindex,
                                         setup_axum_server cfg em (port_allocator_new lower upper)
                                           containers)\<rparr>)))))))))"

end
