(* ===== verification/Control_Properties.thy ===== *)
theory Control_Properties
  imports Exposure_Spec
begin

text \<open>
  Properties of the control plane: exposing and unexposing as seen in the exposure map, the port
  pool and the firewall, failures that leave all three as they were, the invariant of a running
  server over any sequence of requests, and the responses.
\<close>

section \<open>Serving requests\<close>

text \<open>The states a server can reach from one that it was started in; requests are serialised.\<close>

inductive serves ::
    "'m expose_ops \<Rightarrow> 'w host_ops \<Rightarrow> 'm app_state \<times> 'w \<Rightarrow> 'm app_state \<times> 'w \<Rightarrow> bool"
  for K H s0
where
  serves_start: "serves K H s0 s0"
| serves_request: "serves K H s0 (st, w) \<Longrightarrow> handle K H r st w = (res, st', w') \<Longrightarrow>
    serves K H s0 (st', w')"

text \<open>The rules that belong to a table of exposed ports.\<close>

definition rule_of :: "(u16 \<Rightarrow> container_info option) \<Rightarrow> u16 \<Rightarrow> string list" where
  "rule_of e p = (case e p of None \<Rightarrow> []
     | Some info \<Rightarrow> rule_spec p (container_ip info) (container_port info))"

definition exposure_rules :: "(u16 \<Rightarrow> container_info option) \<Rightarrow> string list multiset" where
  "exposure_rules e = image_mset (rule_of e) (mset_set (dom e))"

lemma exposure_rules_insert:
  assumes "e p = None"
  shows "exposure_rules (e(p \<mapsto> info)) =
    add_mset (rule_spec p (container_ip info) (container_port info)) (exposure_rules e)"
proof -
  have "finite (dom e)" "p \<notin> dom e"
    using assms by auto
  moreover from this have "image_mset (rule_of (e(p \<mapsto> info))) (mset_set (dom e)) =
      image_mset (rule_of e) (mset_set (dom e))"
    by (intro image_mset_cong) (auto simp: rule_of_def)
  ultimately show ?thesis
    by (simp add: exposure_rules_def rule_of_def)
qed

lemma exposure_rules_delete:
  assumes "e p = Some info"
  shows "exposure_rules e =
    add_mset (rule_spec p (container_ip info) (container_port info)) (exposure_rules (e(p := None)))"
  using exposure_rules_insert [of "e(p := None)" p info] assms by (simp add: fun_upd_idem)

text \<open>Rule multiset of the chain: those there before the server started, and its own.\<close>

definition rules_agree ::
    "'m expose_ops \<Rightarrow> ('w \<Rightarrow> string list list) \<Rightarrow> string list multiset \<Rightarrow> 'm app_state \<Rightarrow> 'w \<Rightarrow> bool"
where
  "rules_agree K rules base st w \<longleftrightarrow>
     mset (rules w) = base + exposure_rules (bm_lookup K (expose_map st))"

definition server_start :: "'m expose_ops \<Rightarrow> u16 \<Rightarrow> u16 \<Rightarrow> 'm app_state \<Rightarrow> bool" where
  "server_start K lower upper st \<longleftrightarrow> bm_lookup K (expose_map st) = Map.empty
     \<and> allocator st = port_allocator_new lower upper \<and> containers_wf (container_metas st)"

context control_plane
begin

lemma handle_metas: "handle K H r st w = (res, st', w') \<Longrightarrow> container_metas st' = container_metas st"
proof (cases r)
  case (Expose req)
  assume "handle K H r st w = (res, st', w')"
  then show ?thesis
    by (cases rule: expose_cases [of st req w]) (auto simp: handle_def Expose)
next
  case (Unexpose port)
  assume "handle K H r st w = (res, st', w')"
  then show ?thesis
    by (cases rule: unexpose_cases [of st port w]) (auto simp: handle_def Unexpose)
qed

lemma handle_rules:
  assumes "handle K H r st w = (res, st', w')" "rules_agree K rules base st w"
  shows "rules_agree K rules base st' w'"
proof (cases r)
  case (Expose req)
  show ?thesis
    using assms
    by (cases rule: expose_cases [of st req w])
      (auto simp: handle_def Expose rules_agree_def exposure_rules_insert)
next
  case (Unexpose port)
  show ?thesis
    using assms
    by (cases rule: unexpose_cases [of st port w])
      (auto simp: handle_def Unexpose rules_agree_def exposure_rules_delete)
qed

lemma serves_refines:
  "serves K H s0 s \<Longrightarrow> container_metas (fst s) = container_metas (fst s0)
     \<and> exposure_reach (container_metas (fst s0)) (abs_exposure K (fst s0)) (abs_exposure K (fst s))"
proof (induction rule: serves.induct)
  case serves_start
  then show ?case
    by (simp add: reach_start)
next
  case (serves_request st w r res st' w')
  then show ?case
    using handle_refines [of r st w res st' w'] handle_metas [of r st w res st' w']
    by (auto intro: reach_step)
qed

lemma serves_rules:
  "serves K H s0 s \<Longrightarrow> rules_agree K rules base (fst s0) (snd s0) \<Longrightarrow>
     rules_agree K rules base (fst s) (snd s)"
  by (induction rule: serves.induct) (auto dest: handle_rules)

lemma serves_inv:
  assumes "serves K H (st0, w0) (st, w)" "server_start K lower upper st0"
  shows "pool_ok (dom (bm_lookup K (expose_map st))) (ports (allocator st)) {lower..upper}"
    and "bm_lookup K (expose_map st) p = Some info \<Longrightarrow> container_known (container_metas st) info"
    and "mset (rules w) = mset (rules w0) + exposure_rules (bm_lookup K (expose_map st))"
proof -
  have reach: "exposure_reach (container_metas st0) (abs_exposure K st0) (abs_exposure K st)"
    and cm: "container_metas st = container_metas st0"
    using serves_refines [OF assms(1)] by simp_all
  have "ports_divided {lower..upper} (abs_exposure K st0)"
    using assms(2) new_pool_ok [of lower upper] by (simp add: server_start_def ports_divided_def)
  from reach_ports_divided [OF reach this]
  show "pool_ok (dom (bm_lookup K (expose_map st))) (ports (allocator st)) {lower..upper}"
    by (simp add: ports_divided_def)
  show "container_known (container_metas st) info" if "bm_lookup K (expose_map st) p = Some info"
    using reach_exposed_known [OF reach] assms(2) that by (auto simp: cm server_start_def)
  have "rules_agree K rules (mset (rules w0)) st0 w0"
    using assms(2) by (simp add: rules_agree_def server_start_def exposure_rules_def)
  from serves_rules [OF assms(1), simplified, OF this]
  show "mset (rules w) = mset (rules w0) + exposure_rules (bm_lookup K (expose_map st))"
    by (simp add: rules_agree_def)
qed

end

section \<open>A sample server\<close>

definition sample_meta :: container_metadata where
  "sample_meta = \<lparr>cm_name = ''iperf'', cm_veth = ''veth7'', cm_ipv4_address = 2886991892,
     cm_ifindex = 7, cm_pid = Some 4242, cm_mac_address = Mac 2 66 172 20 0 20\<rparr>"

definition sample_server :: "(u16 \<times> container_info) list app_state" where
  "sample_server = app_state_new [] (port_allocator_new 10000 12000)
     (Map.empty(2886991892 \<mapsto> sample_meta))"

definition sample_request :: expose_request where
  "sample_request = \<lparr>req_container_ip = 2886991892, req_container_port = 11111\<rparr>"

abbreviation "expose_ops \<equiv>
  table_ops EXPOSE_MAP_ENTRIES :: ((u16 \<times> container_info) list, u16, container_info) bpf_map_ops"

lemma sample_server_sel [simp]:
  "expose_map sample_server = []" "allocator sample_server = port_allocator_new 10000 12000"
  "container_metas sample_server 2886991892 = Some sample_meta"
  by (simp_all add: sample_server_def app_state_new_def)

lemma sample_lookup: "table_lookup n [] = Map.empty"
  by (rule ext) (simp add: table_lookup_def table_norm_def)

lemma sample_start: "server_start expose_ops 10000 12000 sample_server"
  by (auto simp: server_start_def sample_lookup containers_wf_def sample_server_def
      app_state_new_def sample_meta_def)

lemma sample_ports: "ports (port_allocator_new 10000 12000) = 10000 # range_inclusive 10001 12000"
proof -
  have "[10000..<12001] = 10000 # [10001..<12001 :: nat]"
    using upt_conv_Cons [of 10000 12001] by (simp del: upt_rec_numeral)
  then show ?thesis
    by (simp add: port_allocator_new_def range_inclusive_def del: upt_Suc upt_rec_numeral)
qed

definition sample_exposed :: "(u16 \<times> container_info) list app_state" where
  "sample_exposed = sample_server\<lparr>expose_map := [(10000, info_for sample_request sample_meta)],
     allocator := \<lparr>ports = range_inclusive 10001 12000\<rparr>\<rparr>"

lemma sample_expose_run:
  "expose_port expose_ops chain_host sample_request sample_server [] =
     (Inr (exposed_response 11111 10000), sample_exposed, [rule_spec 10000 2886991892 11111])"
  by (simp add: expose_port_def sample_request_def Let_def allocate_next_def sample_ports
      table_insert_def table_norm_def EXPOSE_MAP_ENTRIES_def add_iptables_rule_def chain_host_def
      chain_run_def rule_spec_def sample_meta_def info_for_def exposed_response_def sample_exposed_def
      port_allocator.defs)

lemma sample_expose:
  "\<exists>st' w'. expose_port expose_ops chain_host sample_request sample_server [] =
     (Inr (exposed_response 11111 10000), st', w')"
  by (simp add: sample_expose_run)

lemma sample_unexpose:
  "\<exists>st' w'. unexpose_port expose_ops chain_host 10000 sample_exposed
     [rule_spec 10000 2886991892 11111] = (Inr (unexposed_response 10000), st', w')"
  by (simp add: unexpose_port_def sample_exposed_def table_lookup_def table_norm_def
      EXPOSE_MAP_ENTRIES_def remove_iptables_rule_def chain_host_def chain_run_def rule_spec_def
      sample_meta_def info_for_def sample_request_def unexposed_response_def)

lemma sample_control: "control_plane expose_ops chain_host (\<lambda>rs. rs)"
  by (rule control_ref.control_plane_axioms)

section \<open>Properties\<close>

text \<open>
  A successful expose request takes the first free port, publishes the container's address,
  MAC, interface and requested port under it in the exposure map, which did not hold that port
  before, appends the DNAT rule for it to the firewall, and answers 200 naming both ports.
\<close>

theorem expose_publishes:
  assumes "control_plane K H rules" "expose_port K H req st w = (Inr resp, st', w')"
  shows "\<exists>c p. container_metas st (req_container_ip req) = Some c
     \<and> ports (allocator st) = p # ports (allocator st')
     \<and> bm_lookup K (expose_map st) p = None
     \<and> bm_lookup K (expose_map st') = (bm_lookup K (expose_map st))(p \<mapsto>
         \<lparr>container_ip = cm_ipv4_address c, container_mac = cm_mac_address c,
          container_port = req_container_port req, ci_ifindex = cm_ifindex c\<rparr>)
     \<and> rules w' = rules w @ [rule_spec p (cm_ipv4_address c) (req_container_port req)]
     \<and> resp = exposed_response (req_container_port req) p"
  using assms(2) info_for_def [of req]
  by (cases rule: control_plane.expose_cases [OF assms(1), of st req w]) auto

theorem expose_publishes_witness:
  "\<exists>st' w'. expose_port expose_ops chain_host sample_request sample_server [] =
     (Inr (exposed_response 11111 10000), st', w') \<and> length w' = 1"
proof -
  obtain st' w' where
    run: "expose_port expose_ops chain_host sample_request sample_server [] =
      (Inr (exposed_response 11111 10000), st', w')"
    using sample_expose by blast
  from expose_publishes [OF sample_control run] run show ?thesis by auto
qed

text \<open>
  C25: A request that is answered with an error changes nothing: the exposure map, the containers
  and the firewall are as before, and the same ports are free, whichever step failed.
\<close>

theorem failed_request_restores:
  assumes "control_plane K H rules" "handle K H r st w = (Inl e, st', w')"
  shows "bm_lookup K (expose_map st') = bm_lookup K (expose_map st)
     \<and> mset (ports (allocator st')) = mset (ports (allocator st))
     \<and> container_metas st' = container_metas st \<and> rules w' = rules w"
proof (cases r)
  case (Expose req)
  show ?thesis
    using assms(2)
    by (cases rule: control_plane.expose_cases [OF assms(1), of st req w])
      (auto simp: handle_def Expose)
next
  case (Unexpose port)
  show ?thesis
    using assms(2)
    by (cases rule: control_plane.unexpose_cases [OF assms(1), of st port w])
      (auto simp: handle_def Unexpose)
qed

theorem failed_request_restores_witness:
  "\<exists>e st' w'. handle expose_ops chain_host (Unexpose 10000) sample_server [] = (Inl e, st', w')
     \<and> mset (ports (allocator st')) = mset (ports (allocator sample_server)) \<and> w' = []"
proof -
  obtain e st' w' where
    run: "handle expose_ops chain_host (Unexpose 10000) sample_server [] = (Inl e, st', w')"
    by (simp add: handle_def unexpose_port_def sample_lookup)
  from failed_request_restores [OF sample_control run] run show ?thesis by simp
qed

text \<open>
  C26: Unexposing undoes exposing: after an expose request took port \<open>p\<close> and an unexpose request
  for \<open>p\<close>, both successful, the exposure map and the rules of the firewall are as before, and the
  port is free again, at the end of the queue.
\<close>

theorem unexpose_reverts_expose:
  assumes "control_plane K H rules" "ports (allocator st) = p # ps"
    and "expose_port K H req st w = (Inr r1, st1, w1)"
    and "unexpose_port K H p st1 w1 = (Inr r2, st2, w2)"
  shows "bm_lookup K (expose_map st2) = bm_lookup K (expose_map st)
     \<and> ports (allocator st2) = ps @ [p] \<and> mset (rules w2) = mset (rules w)
     \<and> container_metas st2 = container_metas st"
proof -
  obtain c where st1: "bm_lookup K (expose_map st) p = None"
      "bm_lookup K (expose_map st1) = (bm_lookup K (expose_map st))(p \<mapsto> info_for req c)"
      "ports (allocator st1) = ps" "container_metas st1 = container_metas st"
      "rules w1 = rules w @ [rule_spec p (cm_ipv4_address c) (req_container_port req)]"
    using assms(2,3)
    by (cases rule: control_plane.expose_cases [OF assms(1), of st req w]) auto
  show ?thesis
    using assms(4) st1
    by (cases rule: control_plane.unexpose_cases [OF assms(1), of st1 p w1])
      (auto simp: fun_upd_idem)
qed

theorem unexpose_reverts_expose_witness:
  "\<exists>st2 w2. unexpose_port expose_ops chain_host 10000 sample_exposed
       [rule_spec 10000 2886991892 11111] = (Inr (unexposed_response 10000), st2, w2)
     \<and> ports (allocator st2) = range_inclusive 10001 12000 @ [10000] \<and> w2 = []"
proof -
  obtain st2 w2 where
    run: "unexpose_port expose_ops chain_host 10000 sample_exposed [rule_spec 10000 2886991892 11111] =
      (Inr (unexposed_response 10000), st2, w2)"
    using sample_unexpose by blast
  have "ports (allocator sample_server) = 10000 # range_inclusive 10001 12000"
    by (simp add: sample_ports)
  from unexpose_reverts_expose [OF sample_control this sample_expose_run run] run
  show ?thesis by simp
qed

text \<open>
  C15: The handlers implement the specification of the control plane: with the BPF map, the queue
  and the firewall abstracted to a table of exposed ports and a queue of free ones, every request
  is a step of the specification with the status code of the response.
\<close>

theorem handlers_refine_spec:
  assumes "control_plane K H rules" "handle K H r st w = (res, st', w')"
  shows "exposure_step (container_metas st) r (abs_exposure K st) (status (respond res))
    (abs_exposure K st')"
  by (rule control_plane.handle_refines [OF assms])

theorem handlers_refine_spec_witness:
  "\<exists>st' w'. expose_port expose_ops chain_host sample_request sample_server [] =
       (Inr (exposed_response 11111 10000), st', w')
     \<and> exposure_step (container_metas sample_server) (Expose sample_request)
         (abs_exposure expose_ops sample_server) 200 (abs_exposure expose_ops st')"
proof -
  obtain st' w' where
    run: "expose_port expose_ops chain_host sample_request sample_server [] =
      (Inr (exposed_response 11111 10000), st', w')"
    using sample_expose by blast
  then have "handle expose_ops chain_host (Expose sample_request) sample_server [] =
      (Inr (exposed_response 11111 10000), st', w')"
    by (simp add: handle_def)
  from handlers_refine_spec [OF sample_control this] run show ?thesis by auto
qed

text \<open>
  C14: Invariant of a running server, over every sequence of requests and whichever of them fail:
  each port of the range is either free exactly once or exposed, every exposed port leads to a
  known container with that container's MAC and interface, and the firewall holds exactly one rule
  for each exposed port besides those it held at the start.
\<close>

theorem control_plane_invariant:
  assumes "control_plane K H rules" "server_start K lower upper st0"
    and "serves K H (st0, w0) (st, w)"
  shows "distinct (ports (allocator st))
     \<and> set (ports (allocator st)) \<inter> dom (bm_lookup K (expose_map st)) = {}
     \<and> set (ports (allocator st)) \<union> dom (bm_lookup K (expose_map st)) = {lower..upper}
     \<and> (\<forall>p info. bm_lookup K (expose_map st) p = Some info \<longrightarrow>
          container_known (container_metas st) info)
     \<and> mset (rules w) = mset (rules w0) + exposure_rules (bm_lookup K (expose_map st))"
  using control_plane.serves_inv [OF assms(1,3,2)] by (auto simp: pool_ok_def)

theorem control_plane_invariant_witness:
  "\<exists>st' w'. expose_port expose_ops chain_host sample_request sample_server [] =
       (Inr (exposed_response 11111 10000), st', w')
     \<and> set (ports (allocator st')) \<union> dom (bm_lookup expose_ops (expose_map st')) = {10000..12000}
     \<and> mset w' = exposure_rules (bm_lookup expose_ops (expose_map st'))"
proof -
  obtain st' w' where
    run: "expose_port expose_ops chain_host sample_request sample_server [] =
      (Inr (exposed_response 11111 10000), st', w')"
    using sample_expose by blast
  then have "handle expose_ops chain_host (Expose sample_request) sample_server [] =
      (Inr (exposed_response 11111 10000), st', w')"
    by (simp add: handle_def)
  with serves_start have "serves expose_ops chain_host (sample_server, []) (st', w')"
    by (rule serves_request)
  from control_plane_invariant [OF sample_control sample_start this] run show ?thesis by auto
qed

text \<open>
  C32: The exposure map is smaller than the port range: it holds 256 entries while 2001 ports are
  available, so a server of this configuration never answers that the ports are exhausted (503),
  and once 256 ports are exposed every further request for a known container fails as an internal
  error (500).
\<close>

theorem capacity_never_reported:
  assumes "control_plane K H rules" "bpf_hash_bounded K EXPOSE_MAP_ENTRIES"
    and "server_start K 10000 12000 st0" "serves K H (st0, w0) (st, w)"
  shows "status (respond (fst (handle K H r st w))) \<noteq> 503
     \<and> (card (dom (bm_lookup K (expose_map st))) = EXPOSE_MAP_ENTRIES
          \<and> container_metas st (req_container_ip req) \<noteq> None \<longrightarrow>
        status (respond (fst (expose_port K H req st w))) = 500)"
proof -
  let ?e = "bm_lookup K (expose_map st)"
  have "length (ports (allocator st)) + card (dom ?e) = card {10000..12000 :: u16}"
    using pool_ok_card [OF control_plane.serves_inv(1) [OF assms(1,4,3)]] by simp
  moreover have "card {10000..12000 :: u16} = 2001"
    using distinct_card [OF distinct_range_inclusive [of 10000 12000]]
    by (simp add: set_range_inclusive length_range_inclusive)
  moreover have "card (dom ?e) \<le> 256"
    using bpf_hash_bounded.bounded_entries [OF assms(2), of "expose_map st"]
    by (simp add: EXPOSE_MAP_ENTRIES_def)
  ultimately have free: "ports (allocator st) \<noteq> []"
    by auto
  obtain res st' w' where run: "handle K H r st w = (res, st', w')"
    by (rule prod_cases3)
  have no_capacity: "status (respond (fst (handle K H r st w))) \<noteq> 503"
    using step_exhausted [of "container_metas st" r "abs_exposure K st" "abs_exposure K st'"]
      control_plane.handle_refines [OF assms(1) run] free by (auto simp: run)
  have "status (respond (fst (expose_port K H req st w))) = 500"
    if known: "card (dom ?e) = EXPOSE_MAP_ENTRIES" "container_metas st (req_container_ip req) \<noteq> None"
  proof (cases rule: control_plane.expose_cases [OF assms(1), of st req w])
    case (4 c p st' w')
    have "card (dom (bm_lookup K (expose_map st'))) = Suc EXPOSE_MAP_ENTRIES"
      using 4(4,5) known(1) by (simp add: card_insert_if domIff)
    then show ?thesis
      using bpf_hash_bounded.bounded_entries [OF assms(2), of "expose_map st'"] by simp
  qed (use free known in auto)
  with no_capacity show ?thesis by blast
qed

theorem capacity_never_reported_witness:
  "status (respond (fst (handle expose_ops chain_host (Expose sample_request) sample_server []))) \<noteq> 503"
  using capacity_never_reported [OF sample_control expose_table.bpf_hash_bounded_axioms sample_start
      serves_start] by blast

text \<open>
  A released port is handed out again only after every port that was free when it was
  released.
\<close>

theorem released_port_reused_last:
  "fst (alloc_many allocate_next (Suc (length (ports a))) (deallocate port a)) = ports a @ [port]"
  by (rule pool.released_last)

text \<open>
  C33: Requests about unknown containers or ports that are not exposed are answered 404 and change
  nothing; no request is answered 409; and the body of a response with status 500 is the same fixed
  message, without the cause of the error.
\<close>

theorem error_responses:
  assumes "control_plane K H rules"
  shows "(container_metas st (req_container_ip req) = None \<longrightarrow>
        status (respond (fst (expose_port K H req st w))) = 404 \<and> snd (expose_port K H req st w) = (st, w))
     \<and> (bm_lookup K (expose_map st) port = None \<longrightarrow>
        status (respond (fst (unexpose_port K H port st w))) = 404
          \<and> snd (unexpose_port K H port st w) = (st, w))
     \<and> status (respond (fst (handle K H r st w))) \<noteq> 409
     \<and> (status (respond (fst (handle K H r st w))) = 500 \<longrightarrow>
        body (respond (fst (handle K H r st w))) = Json_message INTERNAL_MESSAGE)"
proof (intro conjI impI)
  have expose: "status (respond (fst (expose_port K H req st w))) \<noteq> 409
     \<and> (status (respond (fst (expose_port K H req st w))) = 500 \<longrightarrow>
        body (respond (fst (expose_port K H req st w))) = Json_message INTERNAL_MESSAGE)" for req
    by (cases rule: control_plane.expose_cases [OF assms, of st req w])
      (auto simp: respond_def into_response_def exposed_response_def)
  have unexpose: "status (respond (fst (unexpose_port K H port st w))) \<noteq> 409
     \<and> (status (respond (fst (unexpose_port K H port st w))) = 500 \<longrightarrow>
        body (respond (fst (unexpose_port K H port st w))) = Json_message INTERNAL_MESSAGE)" for port
    by (cases rule: control_plane.unexpose_cases [OF assms, of st port w])
      (auto simp: respond_def into_response_def unexposed_response_def)
  show "status (respond (fst (handle K H r st w))) \<noteq> 409"
    using expose unexpose by (cases r) (simp_all add: handle_def)
  show "body (respond (fst (handle K H r st w))) = Json_message INTERNAL_MESSAGE"
    if "status (respond (fst (handle K H r st w))) = 500"
    using expose unexpose that by (cases r) (simp_all add: handle_def)
qed (simp_all add: expose_port_def unexpose_port_def)

theorem error_responses_witness:
  "status (respond (fst (unexpose_port expose_ops chain_host 10000 sample_server []))) = 404"
  using error_responses [OF sample_control, of sample_server _ _ 10000]
  by (simp add: sample_lookup)

end
