(* ===== verification/Startup_Properties.thy ===== *)
theory Startup_Properties
  imports Startup Control_Properties
begin

text \<open>
  Properties of the daemon's start and end: what container discovery and the map set-up establish
  for the data path and the control plane, the reserved port range, threads that share a mutex,
  and the firewall after clean-up.
\<close>

section \<open>Discovery\<close>

text \<open>The metadata of a container names an interface of the host by its index.\<close>

definition on_host :: "docker_host \<Rightarrow> container_metadata \<Rightarrow> bool" where
  "on_host D c \<longleftrightarrow> (\<exists>cid interfaces. dk_interfaces D cid = Inr interfaces
     \<and> (cm_ifindex c, cm_veth c) \<in> set interfaces)"

lemma read_metadata_on_host:
  assumes "read_metadata D cid ep pid items = Inr c"
  shows "on_host D c"
proof -
  obtain interfaces iface where "dk_interfaces D cid = Inr interfaces"
    and "List.find (\<lambda>i. fst i = cm_ifindex c) interfaces = Some iface" "cm_veth c = snd iface"
    using assms by (auto simp: read_metadata_def split: option.splits sum.splits)
  then show ?thesis
    unfolding on_host_def find_Some_iff by (metis nth_mem prod.collapse)
qed

lemma collect_containers_inv:
  assumes "collect_containers D cs metas = Inr cm"
    and "\<forall>k c. metas k = Some c \<longrightarrow> cm_ipv4_address c = k \<and> on_host D c"
  shows "\<forall>k c. cm k = Some c \<longrightarrow> cm_ipv4_address c = k \<and> on_host D c"
  using assms
proof (induction D cs metas rule: collect_containers.induct)
  case (2 D cid ep cs metas)
  obtain pid where pid: "dk_inspect_pid D cid = Inr pid"
    using 2(3) by (cases "dk_inspect_pid D cid") simp_all
  obtain stream where stream: "dk_exec D cid [''cat'', ''/sys/class/net/eth0/iflink''] = Inr stream"
    using 2(3) pid by (cases "dk_exec D cid [''cat'', ''/sys/class/net/eth0/iflink'']") simp_all
  obtain out where out: "first_output stream = Inr out"
    using 2(3) pid stream by (cases "first_output stream") simp_all
  show ?case
  proof (cases out)
    case None
    then have "collect_containers D cs metas = Inr cm"
      using 2(3) pid stream out by simp
    then show ?thesis
      using 2(4) by (intro 2(1) [OF pid stream out None])
  next
    case (Some items)
    then obtain c where c: "read_metadata D cid ep pid items = Inr c"
      using 2(3) pid stream out by (cases "read_metadata D cid ep pid items") simp_all
    have "\<forall>k d. (metas(cm_ipv4_address c \<mapsto> c)) k = Some d \<longrightarrow> cm_ipv4_address d = k \<and> on_host D d"
      using 2(4) read_metadata_on_host [OF c] by (metis fun_upd_apply option.inject)
    moreover have "collect_containers D cs (metas(cm_ipv4_address c \<mapsto> c)) = Inr cm"
      using 2(3) pid stream out Some c by simp
    ultimately show ?thesis
      by (intro 2(2) [OF pid stream out Some c])
  qed
qed simp

lemma get_containers_inv:
  assumes "get_containers D network = Inr cm"
  shows "\<forall>k c. cm k = Some c \<longrightarrow> cm_ipv4_address c = k \<and> on_host D c"
proof (cases "cm = Map.empty")
  case False
  then obtain cs where "collect_containers D cs Map.empty = Inr cm"
    using assms by (auto simp: get_containers_def split: sum.splits option.splits)
  then show ?thesis
    by (rule collect_containers_inv) simp
qed simp

section \<open>The redirect map\<close>

text \<open>Order and repetition of the listed containers do not matter for the map.\<close>

definition lists_values :: "docker_host \<Rightarrow> container_map \<Rightarrow> bool" where
  "lists_values D cm \<longleftrightarrow> set (dk_values D cm) = ran cm"

lemma setup_devmap_spec:
  assumes "bpf_hash K" "setup_devmap K N cs m = (Inr (), m')"
  shows "bm_lookup K m' k =
    (case map_of (rev (map (\<lambda>c. (cm_ipv4_address c, cm_ifindex c)) cs)) k of
       Some i \<Rightarrow> Some i | None \<Rightarrow> bm_lookup K m k)"
  using assms(2)
proof (induction cs arbitrary: m)
  case (Cons c cs)
  then obtain m1 where m1: "bm_insert K m (cm_ipv4_address c) (cm_ifindex c) BPF_ANY = (Inr (), m1)"
      "setup_devmap K N cs m1 = (Inr (), m')"
    by (auto split: prod.splits sum.splits)
  show ?case
    using Cons.IH [OF m1(2)] bpf_hash.insert_success [OF assms(1) m1(1)]
    by (auto simp: map_add_def split: option.splits)
qed simp

lemma setup_devmap_containers:
  assumes "bpf_hash K" "setup_devmap K N (dk_values D cm) m = (Inr (), m')"
    and "lists_values D cm" "containers_wf cm" "cm k = Some c"
  shows "bm_lookup K m' k = Some (cm_ifindex c)"
proof -
  let ?vs = "rev (map (\<lambda>c. (cm_ipv4_address c, cm_ifindex c)) (dk_values D cm))"
  have own: "cm (cm_ipv4_address d) = Some d" if "d \<in> set (dk_values D cm)" for d
    using that assms(3,4) by (auto simp: lists_values_def containers_wf_def ran_def)
  have "c \<in> set (dk_values D cm)" "cm_ipv4_address c = k"
    using assms(3-5) by (auto simp: lists_values_def containers_wf_def intro: ranI)
  then have "(k, cm_ifindex c) \<in> set ?vs"
    by force
  then obtain i where i: "map_of ?vs k = Some i"
    using weak_map_of_SomeI by fastforce
  then obtain d where "d \<in> set (dk_values D cm)" "k = cm_ipv4_address d" "i = cm_ifindex d"
    by (auto dest!: map_of_SomeD)
  then have "i = cm_ifindex c"
    using own assms(5) by force
  with i show ?thesis
    using setup_devmap_spec [OF assms(1,2), of k] by simp
qed

lemma setup_pnic_spec:
  assumes "bpf_hash K" "setup_pnic K N nic mode m = (Inr (a, i), m')"
  shows "bm_lookup K m' = (bm_lookup K m)(0 \<mapsto> i)"
proof -
  obtain m1 where "bm_insert K m 0 i BPF_ANY = (Inr (), m1)" "m' = m1"
    using assms(2) by (auto simp: setup_pnic_def split: sum.splits prod.splits)
  then show ?thesis
    using bpf_hash.insert_success [OF assms(1)] by auto
qed

lemma parse_port_range [simp]:
  "split_once CHR ''-'' PORT_RANGE = Some (''10000'', ''12000'')"
  "parse_u16 ''10000'' = Some 10000" "parse_u16 ''12000'' = Some 12000"
  by (simp_all add: PORT_RANGE_def parse_u16_def parse_uint_def digit_val_def)

section \<open>A sample host\<close>

definition sample_docker :: docker_host where
  "sample_docker = \<lparr>
     dk_network = (\<lambda>n. if n = ''br-xdp''
       then Inr (Some [(''c1'', \<lparr>ep_name = Some ''iperf'', ep_mac_address = Some ''02:42:ac:14:00:14'',
         ep_ipv4_address = Some ''172.20.0.20/16''\<rparr>)])
       else Inl ''no such network''),
     dk_inspect_pid = (\<lambda>_. Inr (Some 4242)),
     dk_exec = (\<lambda>_ _. Inr [Inr (StdErr ''warning''), Inr (StdOut [CHR ''7'', char_of (10 :: nat)])]),
     dk_interfaces = (\<lambda>_. Inr [(1, ''lo''), (7, ''veth7'')]),
     dk_parse_mac = (\<lambda>_. Inr (Mac 2 66 172 20 0 20)),
     dk_values = (\<lambda>cm. case cm 2886991892 of None \<Rightarrow> [] | Some c \<Rightarrow> [c])\<rparr>"

definition sample_net :: net_host where
  "sample_net = \<lparr>nh_nametoindex = (\<lambda>_. Inr 2), nh_ifaddrs = Inr [(''enp9s0'', None), (''enp9s0'', Some 3232235781)],
     nh_load = (\<lambda>_. Inr ()), nh_attach = (\<lambda>_ _ _. Inr ()), nh_map_error = (\<lambda>_. ''map error''),
     nh_object = (\<lambda>_. Inr ())\<rparr>"

definition sample_cfg :: configuration where
  "sample_cfg = \<lparr>control_plane_cfg = \<lparr>cp_host = ''0.0.0.0'', cp_port = 8080, cp_prefix = ''/api/v1/'',
       cp_logger_name = ''xdp-natd'', cp_default_env_filter = ''info''\<rparr>,
     data_plane_cfg = \<lparr>dp_network = ''br-xdp'', dp_mode = ''native'', dp_pnic = Some ''enp9s0''\<rparr>\<rparr>"

lemma sample_texts [simp]:
  "parse_ipv4 ''172.20.0.20'' = Some 2886991892"
  "split_on CHR ''/'' ''172.20.0.20/16'' = [''172.20.0.20'', ''16'']"
  "parse_u32 (trim [CHR ''7'', char_of (10 :: nat)]) = Some 7"
  by (simp_all add: parse_ipv4_def parse_octet_def digit_val_def parse_u32_def parse_uint_def
      trim_def is_space_def)

lemma sample_containers:
  "get_containers sample_docker ''br-xdp'' = Inr (Map.empty(2886991892 \<mapsto> sample_meta))"
  by (simp add: get_containers_def sample_docker_def read_metadata_def sample_meta_def)

abbreviation "redirect_ops \<equiv>
  table_ops REDIRECT_MAP_ENTRIES :: ((u32 \<times> u32) list, u32, u32) bpf_map_ops"

lemma sample_main:
  "main_setup sample_docker sample_net (\<lambda>_. Attaches) (Inr []) (\<lambda>_. Inr ()) redirect_ops sample_cfg [] [] =
     Inr \<lparr>dm_redirect = [(2886991892, 7), (0, 2)],
          dm_server = Some (nic_info_new 3232235781 2, setup_axum_server sample_cfg []
            (port_allocator_new 10000 12000) (Map.empty(2886991892 \<mapsto> sample_meta)))\<rparr>"
proof -
  have "dk_values sample_docker (Map.empty(2886991892 \<mapsto> sample_meta)) = [sample_meta]"
    by (simp add: sample_docker_def)
  moreover have "parse_xdp_mode ''native'' = Inr DRV_MODE"
    by (simp add: parse_xdp_mode_def)
  moreover have "attach_container_xdp sample_net [sample_meta] DRV_MODE = (Inr (), [''veth7''])"
    by (simp add: attach_container_xdp_def sample_net_def sample_meta_def)
  moreover have "setup_devmap redirect_ops sample_net [sample_meta] [] = (Inr (), [(2886991892, 7)])"
    by (simp add: table_insert_def table_norm_def REDIRECT_MAP_ENTRIES_def sample_meta_def)
  moreover have "setup_pnic redirect_ops sample_net ''enp9s0'' DRV_MODE [(2886991892, 7)] =
      (Inr (3232235781, 2), [(2886991892, 7), (0, 2)])"
    by (simp add: setup_pnic_def sample_net_def get_if_addr_def table_insert_def table_norm_def
        REDIRECT_MAP_ENTRIES_def)
  moreover have "reserve_kernel_ports (Inr []) (\<lambda>_. Inr ()) PORT_RANGE =
      (Some PORT_RANGE, Inr (10000, 12000))"
    by (simp add: reserve_kernel_ports_def trim_def)
  moreover have "nh_object sample_net 1 = Inr ()"
    by (simp add: sample_net_def)
  ultimately show ?thesis
    by (simp add: main_setup_def sample_cfg_def sample_containers attach_namespace_pass_programs_def)
qed

lemma main_setup_spec:
  assumes "bpf_hash K"
    and "\<forall>cm. get_containers D (dp_network (data_plane_cfg cfg)) = Inr cm \<longrightarrow> lists_values D cm"
    and "main_setup D N oc existing write_file K cfg devmap em = Inr dm"
  shows "\<exists>cm. get_containers D (dp_network (data_plane_cfg cfg)) = Inr cm
     \<and> (\<forall>k c. cm k = Some c \<and> k \<noteq> 0 \<longrightarrow> bm_lookup K (dm_redirect dm) k = Some (cm_ifindex c))
     \<and> (dp_pnic (data_plane_cfg cfg) = None \<longleftrightarrow> dm_server dm = None)
     \<and> (\<forall>info r. dm_server dm = Some (info, r) \<longrightarrow>
          bm_lookup K (dm_redirect dm) 0 = Some (nic_ifindex info) \<and> container_metas (ar_state r) = cm
          \<and> expose_map (ar_state r) = em \<and> allocator (ar_state r) = port_allocator_new 10000 12000
          \<and> ar_prefix r = cp_prefix (control_plane_cfg cfg))"
proof -
  obtain cm mode m1 where cm: "get_containers D (dp_network (data_plane_cfg cfg)) = Inr cm"
    and mode: "parse_xdp_mode (dp_mode (data_plane_cfg cfg)) = Inr mode"
    and m1: "setup_devmap K N (dk_values D cm) devmap = (Inr (), m1)"
    using assms(3) by (auto simp: main_setup_def split: sum.splits prod.splits)
  have wf: "containers_wf cm"
    using get_containers_inv [OF cm] by (simp add: containers_wf_def)
  have found: "bm_lookup K m1 k = Some (cm_ifindex c)" if "cm k = Some c" for k c
    using setup_devmap_containers [OF assms(1) m1 _ wf that] assms(2) cm by simp
  show ?thesis
  proof (cases "dp_pnic (data_plane_cfg cfg)")
    case None
    then have "dm = \<lparr>dm_redirect = m1, dm_server = None\<rparr>"
      using assms(3) cm mode m1
      by (auto simp: main_setup_def attach_namespace_pass_programs_def split: sum.splits prod.splits)
    then show ?thesis
      using cm found None by auto
  next
    case (Some nic)
    then obtain a i m2 where m2: "setup_pnic K N nic mode m1 = (Inr (a, i), m2)"
      and dm: "dm = \<lparr>dm_redirect = m2, dm_server = Some (nic_info_new a i,
        setup_axum_server cfg em (port_allocator_new 10000 12000) cm)\<rparr>"
      using assms(3) cm mode m1
      by (auto simp: main_setup_def attach_namespace_pass_programs_def reserve_kernel_ports_def Let_def
          split: sum.splits prod.splits)
    then show ?thesis
      using cm found Some setup_pnic_spec [OF assms(1) m2]
      by (auto simp: app_state_new_def nic_info_new_def)
  qed
qed

lemma sample_lists:
  "\<forall>cm. get_containers sample_docker (dp_network (data_plane_cfg sample_cfg)) = Inr cm \<longrightarrow>
     lists_values sample_docker cm"
  by (simp add: sample_cfg_def sample_containers lists_values_def) (simp add: sample_docker_def)

section \<open>Properties\<close>

text \<open>
  C31: Discovery stores every container under its own IPv4 address, with an interface index and
  name that the host's interface list contains; a container whose command prints nothing is left
  out, and any error ends the discovery.
\<close>

theorem discovered_containers_wf:
  assumes "get_containers D network = Inr cm"
  shows "containers_wf cm \<and> (\<forall>k c. cm k = Some c \<longrightarrow> on_host D c)"
  using get_containers_inv [OF assms] by (simp add: containers_wf_def)

theorem discovered_containers_wf_witness:
  "containers_wf (Map.empty(2886991892 \<mapsto> sample_meta)) \<and> on_host sample_docker sample_meta"
  using discovered_containers_wf [OF sample_containers] by auto

text \<open>
  C27: When the start succeeds, the redirect map leads from the address of every container found
  (other than 0.0.0.0) to the index of its host-side interface; with a NIC configured it leads from
  key 0 to the NIC's index, which is the one stored for the data path, and the API server starts
  under the configured prefix with those containers and the ports 10000 to 12000 free.
\<close>

theorem startup_establishes:
  assumes "bpf_hash K"
    and "\<forall>cm. get_containers D (dp_network (data_plane_cfg cfg)) = Inr cm \<longrightarrow> lists_values D cm"
    and "main_setup D N oc existing write_file K cfg devmap em = Inr dm"
  shows "\<exists>cm. get_containers D (dp_network (data_plane_cfg cfg)) = Inr cm
     \<and> (\<forall>k c. cm k = Some c \<and> k \<noteq> 0 \<longrightarrow> bm_lookup K (dm_redirect dm) k = Some (cm_ifindex c))
     \<and> (dp_pnic (data_plane_cfg cfg) = None \<longleftrightarrow> dm_server dm = None)
     \<and> (\<forall>info r. dm_server dm = Some (info, r) \<longrightarrow>
          bm_lookup K (dm_redirect dm) 0 = Some (nic_ifindex info) \<and> container_metas (ar_state r) = cm
          \<and> expose_map (ar_state r) = em \<and> allocator (ar_state r) = port_allocator_new 10000 12000
          \<and> ar_prefix r = cp_prefix (control_plane_cfg cfg))"
  by (rule main_setup_spec [OF assms])

theorem startup_establishes_witness:
  "bm_lookup redirect_ops [(2886991892, 7), (0, 2)] 2886991892 = Some 7
   \<and> bm_lookup redirect_ops [(2886991892, 7), (0, 2)] 0 = Some 2"
proof -
  from startup_establishes [OF redirect_table.bpf_hash_axioms sample_lists sample_main]
  show ?thesis
    by (auto simp: sample_cfg_def sample_containers sample_meta_def nic_info_new_def)
qed

text \<open>
  The reserved range is appended to the ports the kernel already reserves, or stands alone
  when there are none, and parses to the bounds 10000 and 12000 the port pool is filled with.
\<close>

theorem port_range_reserved:
  assumes "\<forall>content. write_file content = Inr ()"
  shows "reserve_kernel_ports (Inr text) write_file PORT_RANGE =
    (Some (if trim text = [] then PORT_RANGE else trim text @ '','' @ PORT_RANGE), Inr (10000, 12000))"
  using assms by (simp add: reserve_kernel_ports_def Let_def)

theorem port_range_reserved_witness:
  "reserve_kernel_ports (Inr [CHR ''8'', CHR ''0'', char_of (10 :: nat)]) (\<lambda>_. Inr ()) PORT_RANGE =
     (Some ''80,10000-12000'', Inr (10000, 12000))"
  using port_range_reserved [of "\<lambda>_. Inr ()" "[CHR ''8'', CHR ''0'', char_of (10 :: nat)]"]
  by (simp add: trim_def is_space_def PORT_RANGE_def)

text \<open>
  C38: One container whose set-up fails under the lock keeps the pass program from every container
  whose thread takes the lock later: exactly the containers before it that could be set up get the
  program, and the start goes on as if all had.
\<close>

lemma run_threads_poisoned: "run_threads oc pids True = []"
  by (induction pids) (auto split: thread_outcome.split)

lemma run_threads_append:
  "oc pid = Setup_fails \<Longrightarrow> \<forall>p\<in>set xs. oc p \<noteq> Setup_fails \<Longrightarrow>
     run_threads oc (xs @ pid # ys) False = filter (\<lambda>p. oc p = Attaches) xs"
  by (induction xs) (auto simp: run_threads_poisoned split: thread_outcome.split)

theorem poisoned_lock_skips_rest:
  assumes "List.map_filter cm_pid cs = xs @ pid # ys"
    and "oc pid = Setup_fails" "\<forall>p\<in>set xs. oc p \<noteq> Setup_fails"
  shows "attach_namespace_pass_programs oc cs = (Inr (), filter (\<lambda>p. oc p = Attaches) xs)"
  by (simp add: attach_namespace_pass_programs_def assms(1) run_threads_append [OF assms(2,3)])

theorem poisoned_lock_skips_rest_witness:
  "attach_namespace_pass_programs (\<lambda>p. if p = 4242 then Setup_fails else Attaches)
     [sample_meta, sample_meta\<lparr>cm_pid := Some 7\<rparr>] = (Inr (), [])"
  using poisoned_lock_skips_rest [of "[sample_meta, sample_meta\<lparr>cm_pid := Some 7\<rparr>]" "[]" 4242 "[7]"
      "\<lambda>p. if p = 4242 then Setup_fails else Attaches"]
  by (simp add: sample_meta_def map_filter_simps)

text \<open>
  A successful clean-up empties the PREROUTING chain of the nat table: it removes the rules of
  all exposed ports, and also every rule that was there before the daemon started.
\<close>

theorem clean_up_flushes_chain:
  assumes "nat_firewall H rules" "clean_up H w = (Inr (), w')"
  shows "rules w' = []"
proof -
  have "run_iptables H (nat_prerouting ''-F'' []) w = (Inr True, w')"
    using assms(2) by (auto simp: clean_up_def nat_prerouting_def split: sum.splits prod.splits if_splits)
  then show ?thesis
    by (rule nat_firewall.flush_rules [OF assms(1)])
qed

theorem clean_up_flushes_chain_witness:
  "clean_up chain_host [rule_spec 80 2886991892 80, rule_spec 10000 2886991892 11111] = (Inr (), [])"
proof -
  obtain w' where
    run: "clean_up chain_host [rule_spec 80 2886991892 80, rule_spec 10000 2886991892 11111] = (Inr (), w')"
    by (simp add: clean_up_def chain_host_def chain_run_def)
  from clean_up_flushes_chain [OF chain_firewall.nat_firewall_axioms run] run show ?thesis by simp
qed

end
