(* ===== verification/Redirect_Map.thy ===== *)
theory Redirect_Map
  imports Sample_Traffic Startup_Properties
begin

text \<open>
  The device map between the two halves of the program: the daemon fills \<open>REDIRECT_MAP\<close> at its
  start, and \<open>try_xdp_redirect\<close> sends a packet through it under the key of its translation. The
  locale states what the kernel's \<open>bpf_redirect_map\<close> is documented to return.
\<close>

section \<open>The contract of a redirect\<close>

text \<open>
  With an entry under the key the result is \<open>XDP_REDIRECT\<close>; without one, the low two bits of the
  flags, which \<open>aya\<close> hands on as an error.
\<close>

locale device_map = bpf_hash R
  for R :: "'r redirect_ops" +
  fixes redirect :: "'r \<Rightarrow> u32 \<Rightarrow> u64 \<Rightarrow> u32 + u32"
  assumes redirect_present:
      "bm_lookup R rm key = Some ifindex \<Longrightarrow> redirect rm key flags = Inr XDP_REDIRECT"
    and redirect_absent:
      "bm_lookup R rm key = None \<Longrightarrow> redirect rm key flags = Inl (ucast (flags AND 3))"
begin

lemma verdict:
  assumes "ke_redirect E = redirect rm"
  shows "redirect_code E key = (if bm_lookup R rm key = None then XDP_PASS else XDP_REDIRECT)"
  using redirect_present [of rm key] redirect_absent [of rm key]
  by (auto simp: redirect_code_def assms XDP_PASS_def)

text \<open>A run over the map \<open>rm\<close>: the verdict tells whether the translation had a target.\<close>

lemma run_verdict:
  assumes "ke_redirect E = redirect rm" "try_xdp_redirect K E flag p ct = Some (Inr code, q, ct')"
  obtains "code = XDP_PASS" "q = p" "ct' = ct"
  | n where "q = translated flag n p"
      "code = (if bm_lookup R rm (devmap_key n) = None then XDP_PASS else XDP_REDIRECT)"
proof (rule try_xdp_redirect_cases [of K E flag p ct])
  assume "try_xdp_redirect K E flag p ct = Some (Inr XDP_PASS, p, ct)"
  then show thesis
    using that(1) assms(2) by simp
next
  fix n ct2
  assume "try_xdp_redirect K E flag p ct =
    Some (Inr (redirect_code E (devmap_key n)), translated flag n p, ct2)"
  then show thesis
    using that(2) [of n] assms(2) verdict [OF assms(1)] by simp
qed

end

text \<open>A redirect through the table of this development.\<close>

definition table_redirect :: "(u32 \<times> u32) list \<Rightarrow> u32 \<Rightarrow> u64 \<Rightarrow> u32 + u32" where
  "table_redirect rm key flags =
     (case table_lookup REDIRECT_MAP_ENTRIES rm key of
        Some ifindex \<Rightarrow> Inr XDP_REDIRECT
      | None \<Rightarrow> Inl (ucast (flags AND 3)))"

interpretation device_table: device_map redirect_ops table_redirect
  by (intro device_map.intro device_map_axioms.intro table_ops_hash)
    (simp_all add: table_redirect_def)

section \<open>Properties\<close>

text \<open>
  The verdict of every run: the packet passes to the host's stack exactly as it came and
  nothing is recorded, or it is translated, and then it is redirected if the map has an interface
  for the translation and passes to the stack translated if not. No packet is dropped or aborted.
\<close>

theorem verdict_follows_map:
  assumes "device_map R redirect" "ke_redirect E = redirect rm"
  shows "\<exists>code q ct'. try_xdp_redirect K E flag p ct = Some (Inr code, q, ct')
     \<and> (code = XDP_PASS \<and> q = p \<and> ct' = ct \<or>
        (\<exists>n. q = translated flag n p
           \<and> code = (if bm_lookup R rm (devmap_key n) = None then XDP_PASS else XDP_REDIRECT)))"
proof -
  obtain code q ct' where run: "try_xdp_redirect K E flag p ct = Some (Inr code, q, ct')"
    by (rule try_xdp_redirect_cases [of K E flag p ct]) auto
  show ?thesis
    by (rule device_map.run_verdict [OF assms run]) (use run in blast)+
qed

theorem verdict_follows_map_witness:
  "\<exists>code q ct'. try_xdp_redirect sample_ops
       ((sample_env 5)\<lparr>ke_redirect := table_redirect [(0, 2)]\<rparr>) Snat out_packet []
       = Some (Inr code, q, ct') \<and> (code = XDP_PASS \<or> code = XDP_REDIRECT)"
  using verdict_follows_map [OF device_table.device_map_axioms,
      of "(sample_env 5)\<lparr>ke_redirect := table_redirect [(0, 2)]\<rparr>" "[(0, 2)]" sample_ops Snat
        out_packet "[]"]
  by fastforce


definition redirect_env :: "u64 \<Rightarrow> kernel_env" where
  "redirect_env t = (sample_env t)\<lparr>ke_redirect := table_redirect [(2886991892, 7), (0, 2)]\<rparr>"

lemma redirect_env_sel [simp]:
  "ke_redirect (redirect_env t) = table_redirect [(2886991892, 7), (0, 2)]"
  "ke_pnic (redirect_env t) = Some sample_nic" "ke_time (redirect_env t) = t"
  "snat_route (redirect_env t) info d p = Some sample_macs"
  "dnat_route (redirect_env t) s d p = Some sample_macs"
  using sample_routes(1) [of t info d p] sample_routes(2) [of t s d p]
  by (simp_all add: redirect_env_def snat_route_def dnat_route_def)



end
