(* ===== verification/Transitions.thy ===== *)
theory Transitions
  imports Main
begin

text \<open>
  Step relations in general: the states reached, an invariant that every step preserves, and one
  relation simulating another. The models of the running system are instances.
\<close>

inductive reach :: "('s \<Rightarrow> 's \<Rightarrow> bool) \<Rightarrow> 's \<Rightarrow> 's \<Rightarrow> bool"
  for step s0
where
  reach_refl: "reach step s0 s0"
| reach_then: "reach step s0 s \<Longrightarrow> step s t \<Longrightarrow> reach step s0 t"

lemma reach_trans: "reach step s1 s2 \<Longrightarrow> reach step s0 s1 \<Longrightarrow> reach step s0 s2"
  by (induction rule: reach.induct) (auto intro: reach_then)

lemma reach_one: "step s t \<Longrightarrow> reach step s t"
  by (rule reach_then [OF reach_refl])

locale preserved =
  fixes step :: "'s \<Rightarrow> 's \<Rightarrow> bool" and P :: "'s \<Rightarrow> bool"
  assumes preserved_step: "step s t \<Longrightarrow> P s \<Longrightarrow> P t"
begin

lemma reached: "reach step s t \<Longrightarrow> P s \<Longrightarrow> P t"
  by (induction rule: reach.induct) (auto intro: preserved_step)

end

locale simulation =
  fixes abstract :: "'a \<Rightarrow> 'a \<Rightarrow> bool" and concrete :: "'c \<Rightarrow> 'c \<Rightarrow> bool"
    and rel :: "'c \<Rightarrow> 'a \<Rightarrow> bool"
  assumes simulated_step: "abstract a b \<Longrightarrow> rel c a \<Longrightarrow> \<exists>d. reach concrete c d \<and> rel d b"
begin

lemma simulated: "reach abstract a b \<Longrightarrow> rel c a \<Longrightarrow> \<exists>d. reach concrete c d \<and> rel d b"
proof (induction rule: reach.induct)
  case reach_refl
  have "reach concrete c c"
    by (rule reach.intros(1))
  with reach_refl show ?case
    by (intro exI [of _ c] conjI)
next
  case (reach_then a' b')
  then obtain d where d: "reach concrete c d" "rel d a'"
    by (elim meta_impE exE conjE)
  obtain e where e: "reach concrete d e" "rel e b'"
    using simulated_step [OF reach_then(2) d(2)] by (elim exE conjE)
  show ?case
    using reach_trans [OF e(1) d(1)] e(2) by (intro exI [of _ e] conjI)
qed

end

end
