(* ===== verification/Natd_System.thy ===== *)
theory Natd_System
  imports Transitions Conntrack_Gc Startup_Properties
begin

text \<open>
  The running system as a step relation: packets on either program, API requests, the passage of
  time, and the garbage collector, whose removals are steps of their own so that packets may come
  between them. The exposure map that the API writes is the one the data path reads.
\<close>

record ('c, 'm, 'w) system =
  sy_conntrack :: 'c
  sy_server :: "'m app_state"
  sy_firewall :: 'w
  sy_time :: u64
  sy_pending :: "connection_tuple list"

definition packet_env ::
    "'m expose_ops \<Rightarrow> nic_info option \<Rightarrow> fib_helper \<Rightarrow> u32 \<Rightarrow> (u32 \<Rightarrow> u64 \<Rightarrow> u32 + u32)
       \<Rightarrow> ('c, 'm, 'w) system \<Rightarrow> kernel_env" where
  "packet_env X pnic fib ifindex redirect s =
     \<lparr>ke_time = sy_time s, ke_fib = fib, ke_pnic = pnic,
      ke_expose = bm_lookup X (expose_map (sy_server s)), ke_ifindex = ifindex, ke_redirect = redirect\<rparr>"

inductive system_step ::
    "'c conntrack_ops \<Rightarrow> 'm expose_ops \<Rightarrow> 'w host_ops \<Rightarrow> nic_info option
       \<Rightarrow> ('c, 'm, 'w) system \<Rightarrow> ('c, 'm, 'w) system \<Rightarrow> bool"
  for K X H pnic
where
  container_packet:
    "xdp_redirect_containers K (packet_env X pnic fib ifindex redirect s) p (sy_conntrack s)
       = Some (code, q, ct) \<Longrightarrow> system_step K X H pnic s (s\<lparr>sy_conntrack := ct\<rparr>)"
| host_packet:
    "xdp_redirect_host K (packet_env X pnic fib ifindex redirect s) p (sy_conntrack s)
       = Some (code, q, ct) \<Longrightarrow> system_step K X H pnic s (s\<lparr>sy_conntrack := ct\<rparr>)"
| api_request:
    "handle X H r (sy_server s) (sy_firewall s) = (res, st, w) \<Longrightarrow>
       system_step K X H pnic s (s\<lparr>sy_server := st, sy_firewall := w\<rparr>)"
| gc_starts:
    "sy_pending s = [] \<Longrightarrow> \<forall>j. get_nsecs (clock j) = sy_time s \<Longrightarrow>
       system_step K X H pnic s
         (s\<lparr>sy_pending := gc_collect clock 0 (map_items K (sy_conntrack s))\<rparr>)"
| gc_removes:
    "sy_pending s = k # ks \<Longrightarrow>
       system_step K X H pnic s
         (s\<lparr>sy_conntrack := snd (bm_remove K (sy_conntrack s) k), sy_pending := ks\<rparr>)"
| time_passes:
    "sy_time s \<le> t \<Longrightarrow> clock_ok t \<Longrightarrow> system_step K X H pnic s (s\<lparr>sy_time := t\<rparr>)"

abbreviation "system_reach K X H pnic \<equiv> reach (system_step K X H pnic)"

section \<open>The invariant of the conntrack map\<close>

definition flow_ok :: "u64 \<Rightarrow> flow_state \<Rightarrow> bool" where
  "flow_ok now st \<longleftrightarrow> nat_wf (flow_nat st) \<and> unat (timeout st) \<le> unat now + 180000000000"

definition flows_ok :: "u64 \<Rightarrow> (connection_tuple \<Rightarrow> flow_state option) \<Rightarrow> bool" where
  "flows_ok now f \<longleftrightarrow> (\<forall>k st. f k = Some st \<longrightarrow> flow_ok now st)"

lemma flows_ok_later: "flows_ok now f \<Longrightarrow> now \<le> later \<Longrightarrow> flows_ok later f"
  by (fastforce simp: flows_ok_def flow_ok_def word_le_nat_alt)

lemma flow_ok_new:
  "clock_ok now \<Longrightarrow> nat_wf n \<Longrightarrow> flow_ok now (flow_state_new n d (now + TIMEOUT_NEW))"
  by (simp add: flow_ok_def flow_state_new_def clock_ok_add)

lemma flow_ok_refresh:
  "clock_ok now \<Longrightarrow> flow_ok now st \<Longrightarrow> flow_ok now (fst (refresh_flow now st))"
  by (simp add: flow_ok_def refresh_flow_upper)

lemma flow_ok_with_times: "flow_ok now st \<Longrightarrow> flow_ok now r \<Longrightarrow> flow_ok now (with_times st r)"
  by (simp add: flow_ok_def)

lemma packet_env_time [simp]: "ke_time (packet_env X pnic fib ifindex redirect s) = sy_time s"
  by (simp add: packet_env_def)

lemma entry_point_runs:
  "xdp_redirect_containers K E p ct = Some (c, q, ct') \<Longrightarrow>
     \<exists>r. try_xdp_redirect K E Snat p ct = Some (r, q, ct')"
  "xdp_redirect_host K E p ct = Some (c, q, ct') \<Longrightarrow>
     \<exists>r. try_xdp_redirect K E Dnat p ct = Some (r, q, ct')"
  by (auto simp: xdp_redirect_containers_def xdp_redirect_host_def bind_eq_Some_conv)

context conntrack_map
begin

lemma flows_ok_insert:
  "flows_ok now (bm_lookup K m) \<Longrightarrow> flow_ok now st \<Longrightarrow>
     flows_ok now (bm_lookup K (snd (bm_insert K m k st BPF_NOEXIST)))"
  by (simp add: lookup_insert_noexist flows_ok_def)

lemma flows_ok_hit:
  assumes "clock_ok now" "flows_ok now (bm_lookup K m)" "bm_lookup K m key = Some st"
  shows "flows_ok now (bm_lookup K (hit_ct K now m key rkey st))"
  unfolding flows_ok_def lookup_hit_ct [OF assms(3)]
  using assms(2,3) flow_ok_refresh [OF assms(1), of st]
  by (auto simp: flows_ok_def flow_ok_with_times split: if_splits)

lemma flows_ok_evolves:
  assumes "clock_ok now" "flows_ok now (bm_lookup K m)" "ct_evolves K now m key m'"
  shows "flows_ok now (bm_lookup K m')"
  using assms(3) unfolding ct_evolves_def create_ct_def
  by (elim disjE exE conjE)
    (simp_all add: flows_ok_hit flows_ok_insert flow_ok_new assms(1,2))

lemma flows_ok_run:
  assumes "clock_ok (ke_time E)" "flows_ok (ke_time E) (bm_lookup K ct)"
    and "try_xdp_redirect K E flag p ct = Some (r, q, ct')"
  shows "flows_ok (ke_time E) (bm_lookup K ct')"
proof (rule try_xdp_redirect_cases [of K E flag p ct])
  fix n ct2
  assume "try_xdp_redirect K E flag p ct =
      Some (Inr (redirect_code E (devmap_key n)), translated flag n p, ct2)"
    and "ct_evolves K (ke_time E) ct (flow_key p) ct2"
  then show ?thesis
    using assms(3) flows_ok_evolves [OF assms(1,2)] by simp
qed (use assms(2,3) in simp)

lemma flows_ok_remove:
  "flows_ok now (bm_lookup K m) \<Longrightarrow> flows_ok now (bm_lookup K (snd (bm_remove K m k)))"
  by (simp add: remove_key flows_ok_def)

lemma step_flows_ok:
  assumes "system_step K X H pnic s t"
    and "clock_ok (sy_time s) \<and> flows_ok (sy_time s) (bm_lookup K (sy_conntrack s))"
  shows "clock_ok (sy_time t) \<and> flows_ok (sy_time t) (bm_lookup K (sy_conntrack t))"
  using assms
proof cases
  case (container_packet fib ifindex redirect p code q ct)
  from entry_point_runs(1) [OF this(2)] flows_ok_run [of "packet_env X pnic fib ifindex redirect s"]
  have "flows_ok (sy_time s) (bm_lookup K ct)"
    using assms(2) by (metis packet_env_time)
  then show ?thesis
    using container_packet(1) assms(2) by simp
next
  case (host_packet fib ifindex redirect p code q ct)
  from entry_point_runs(2) [OF this(2)] flows_ok_run [of "packet_env X pnic fib ifindex redirect s"]
  have "flows_ok (sy_time s) (bm_lookup K ct)"
    using assms(2) by (metis packet_env_time)
  then show ?thesis
    using host_packet(1) assms(2) by simp
qed (auto intro: flows_ok_remove flows_ok_later)

end

sublocale conntrack_map \<subseteq> system_flows: preserved "system_step K X H pnic"
    "\<lambda>s. clock_ok (sy_time s) \<and> flows_ok (sy_time s) (bm_lookup K (sy_conntrack s))"
  for X H pnic
  by unfold_locales (rule step_flows_ok)

context conntrack_map
begin

lemmas reach_flows_ok = system_flows.reached

end

text \<open>The API's part of a run is a run of the server.\<close>

lemma reach_serves:
  "system_reach K X H pnic s0 s \<Longrightarrow>
     serves X H (sy_server s0, sy_firewall s0) (sy_server s, sy_firewall s)"
proof (induction rule: reach.induct)
  case (reach_then s t)
  from reach_then(2) show ?case
  proof cases
    case (api_request r res st w)
    then show ?thesis
      using serves_request [OF reach_then(3)] by simp
  qed (use reach_then(3) in simp_all)
qed (rule serves_start)

end
