(* ===== verification/Concurrent_System.thy ===== *)
theory Concurrent_System
  imports Concurrent_Runs Natd_System
begin

text \<open>
  All CPUs and the garbage collector over one conntrack map, interleaved at the accesses to the
  map. The kernel may hand the memory of a deleted entry to a new key while a run still holds a
  pointer to it, so a write may hit another entry's times or none; a run may read the clock and its
  own entry's times again before it uses them.
\<close>

record 'm conc =
  cc_runs :: "nat \<Rightarrow> run"
  cc_conntrack :: 'm
  cc_time :: u64
  cc_pending :: "connection_tuple list"

definition at_time :: "u64 \<Rightarrow> job \<Rightarrow> job" where
  "at_time t j = j\<lparr>jb_env := (jb_env j)\<lparr>ke_time := t\<rparr>\<rparr>"

inductive conc_step :: "'m conntrack_ops \<Rightarrow> 'm conc \<Rightarrow> 'm conc \<Rightarrow> bool"
  for K
where
  arrives:
    "cc_runs s c = Finished code q \<Longrightarrow>
       conc_step K s (s\<lparr>cc_runs := (cc_runs s)(c := Arrived (at_time (cc_time s) j))\<rparr>)"
| advances:
    "advance K (cc_runs s c, cc_conntrack s) = (r, ct) \<Longrightarrow>
       conc_step K s (s\<lparr>cc_runs := (cc_runs s)(c := r), cc_conntrack := ct\<rparr>)"
| reads_clock:
    "cc_runs s c = Arrived j \<Longrightarrow>
       conc_step K s (s\<lparr>cc_runs := (cc_runs s)(c := Arrived (at_time (cc_time s) j))\<rparr>)"
| reads_clock_new:
    "cc_runs s c = First_insert j n rn \<Longrightarrow>
       conc_step K s (s\<lparr>cc_runs := (cc_runs s)(c := First_insert (at_time (cc_time s) j) n rn)\<rparr>)"
| reads_own_entry:
    "cc_runs s c = Reverse_entry j st \<Longrightarrow> bm_lookup K (cc_conntrack s) (job_key j) = Some r \<Longrightarrow>
       conc_step K s (s\<lparr>cc_runs := (cc_runs s)(c := Reverse_entry j (with_times r st))\<rparr>)"
| own_write_astray:
    "cc_runs s c = Own_entry j st \<Longrightarrow>
       conc_step K s (s\<lparr>cc_runs := (cc_runs s)(c := Reverse_lookup j st),
         cc_conntrack := sync_reverse K (cc_conntrack s) k st\<rparr>)"
| reverse_write_astray:
    "cc_runs s c = Reverse_entry j st \<Longrightarrow>
       conc_step K s (s\<lparr>cc_runs := (cc_runs s)(c := finish j (flow_nat st)),
         cc_conntrack := sync_reverse K (cc_conntrack s) k st\<rparr>)"
| gc_begins:
    "cc_pending s = [] \<Longrightarrow> \<forall>i. get_nsecs (clock i) = cc_time s \<Longrightarrow>
       conc_step K s (s\<lparr>cc_pending := gc_collect clock 0 (map_items K (cc_conntrack s))\<rparr>)"
| gc_deletes:
    "cc_pending s = k # ks \<Longrightarrow>
       conc_step K s (s\<lparr>cc_conntrack := snd (bm_remove K (cc_conntrack s) k), cc_pending := ks\<rparr>)"
| time_advances:
    "cc_time s \<le> t \<Longrightarrow> clock_ok t \<Longrightarrow> conc_step K s (s\<lparr>cc_time := t\<rparr>)"

abbreviation "conc_reach K \<equiv> reach (conc_step K)"

section \<open>The invariant\<close>

text \<open>What a run carries is as good as what the map holds.\<close>

fun run_ok :: "u64 \<Rightarrow> run \<Rightarrow> bool" where
  "run_ok now (Arrived j) \<longleftrightarrow> job_time j \<le> now"
| "run_ok now (Own_entry j st) \<longleftrightarrow> flow_ok now st"
| "run_ok now (Reverse_lookup j st) \<longleftrightarrow> flow_ok now st"
| "run_ok now (Reverse_entry j st) \<longleftrightarrow> flow_ok now st"
| "run_ok now (First_insert j n rn) \<longleftrightarrow> job_time j \<le> now \<and> nat_wf n \<and> nat_wf rn"
| "run_ok now (Second_insert j n rn) \<longleftrightarrow> job_time j \<le> now \<and> nat_wf n \<and> nat_wf rn"
| "run_ok now (Finished code q) \<longleftrightarrow> True"

definition conc_ok :: "'m conntrack_ops \<Rightarrow> 'm conc \<Rightarrow> bool" where
  "conc_ok K s \<longleftrightarrow> clock_ok (cc_time s) \<and> flows_ok (cc_time s) (bm_lookup K (cc_conntrack s))
     \<and> (\<forall>c. run_ok (cc_time s) (cc_runs s c))"

lemma run_ok_finish [simp]: "run_ok now (finish j n)"
  by (simp add: finish_def)

lemma job_time_at_time [simp]: "job_time (at_time t j) = t"
  by (simp add: job_time_def at_time_def)

lemma flow_ok_later: "flow_ok now st \<Longrightarrow> now \<le> later \<Longrightarrow> flow_ok later st"
  by (simp add: flow_ok_def word_le_nat_alt)

lemma run_ok_later: "run_ok now r \<Longrightarrow> now \<le> later \<Longrightarrow> run_ok later r"
  by (cases r) (auto intro: flow_ok_later)

lemma clock_ok_earlier: "clock_ok now \<Longrightarrow> t \<le> now \<Longrightarrow> clock_ok t"
  by (simp add: clock_ok_def word_le_nat_alt)

text \<open>A refresh or a new flow with a clock reading that is already old.\<close>

lemma flow_ok_refresh_late:
  assumes "clock_ok now" "t \<le> now" "flow_ok now st"
  shows "flow_ok now (fst (refresh_flow t st))"
  using assms refresh_flow_timeout [OF clock_ok_earlier [OF assms(1,2)], of st]
  by (auto simp: flow_ok_def word_le_nat_alt lifetime_def Let_def split: if_split_asm)

lemma flow_ok_new_late:
  "clock_ok now \<Longrightarrow> t \<le> now \<Longrightarrow> nat_wf n \<Longrightarrow> flow_ok now (flow_state_new n d (t + TIMEOUT_NEW))"
  by (simp add: flow_ok_def clock_ok_add [OF clock_ok_earlier] word_le_nat_alt)

lemma new_flow_wf: "new_flow j = Some (n, rn) \<Longrightarrow> nat_wf n \<and> nat_wf rn"
  by (auto simp: new_flow_def Let_def split: nat_flag.splits option.splits)

context conntrack_map
begin

lemma flows_ok_sync:
  "flows_ok now (bm_lookup K ct) \<Longrightarrow> flow_ok now st \<Longrightarrow>
     flows_ok now (bm_lookup K (sync_reverse K ct k st))"
  by (auto simp: flows_ok_def lookup_sync_reverse flow_ok_with_times split: option.split)

lemma advance_ok:
  assumes "clock_ok now" "flows_ok now (bm_lookup K ct)" "run_ok now r"
  shows "flows_ok now (bm_lookup K (snd (advance K (r, ct)))) \<and> run_ok now (fst (advance K (r, ct)))"
proof (cases r)
  case (Arrived j)
  then have j: "job_time j \<le> now"
    using assms(3) by simp
  show ?thesis
    using assms(2) j flow_ok_refresh_late [OF assms(1) j] new_flow_wf [of j]
    by (auto simp: Arrived advance_def split_beta flows_ok_def split: option.split)
qed (use assms in \<open>simp_all add: flows_ok_sync flows_ok_insert flow_ok_new_late\<close>)

text \<open>No step changes the translation or the direction of an entry.\<close>

lemma sync_keeps:
  "bm_lookup K ct k = Some st \<Longrightarrow> \<exists>st'. bm_lookup K (sync_reverse K ct x y) k = Some st'
     \<and> flow_nat st' = flow_nat st \<and> flow_direction st' = flow_direction st"
  by (auto simp: lookup_sync_reverse split: option.split)

lemma advance_keeps:
  "bm_lookup K ct k = Some st \<Longrightarrow> \<exists>st'. bm_lookup K (snd (advance K (r, ct))) k = Some st'
     \<and> flow_nat st' = flow_nat st \<and> flow_direction st' = flow_direction st"
  by (cases r) (auto simp: sync_keeps insert_noexist_keeps advance_def split_beta split: option.split)

lemma conc_step_keeps:
  assumes "conc_step K s t" "bm_lookup K (cc_conntrack s) k = Some st"
    and "bm_lookup K (cc_conntrack t) k = Some st'"
  shows "flow_nat st' = flow_nat st \<and> flow_direction st' = flow_direction st"
  using assms
proof cases
  case (advances c r ct)
  then show ?thesis
    using assms(2,3) advance_keeps [OF assms(2), of "cc_runs s c"] by auto
next
  case (own_write_astray c j x y)
  then show ?thesis
    using assms(2,3) sync_keeps [OF assms(2), of y x] by auto
next
  case (reverse_write_astray c j x y)
  then show ?thesis
    using assms(2,3) sync_keeps [OF assms(2), of y x] by auto
next
  case (gc_deletes x ks)
  then show ?thesis
    using assms(2,3) by (auto simp: remove_key split: if_split_asm)
qed (use assms(2,3) in simp_all)

lemma conc_step_ok:
  assumes "conc_step K s t" "conc_ok K s"
  shows "conc_ok K t"
  using assms(1)
proof cases
  case (advances c r ct)
  then show ?thesis
    using advance_ok [of "cc_time s" "cc_conntrack s" "cc_runs s c"] assms(2)
    by (simp add: conc_ok_def)
next
  case (reads_own_entry c j st r)
  then have "flow_ok (cc_time s) st" "flow_ok (cc_time s) r"
    using assms(2) by (auto simp: conc_ok_def flows_ok_def dest: spec [of _ c])
  then show ?thesis
    using reads_own_entry(1) assms(2) by (simp add: conc_ok_def flow_ok_with_times)
next
  case (own_write_astray c j st k)
  then have "flow_ok (cc_time s) st"
    using assms(2) by (auto simp: conc_ok_def dest: spec [of _ c])
  then show ?thesis
    using own_write_astray(1) assms(2) by (simp add: conc_ok_def flows_ok_sync)
next
  case (reverse_write_astray c j st k)
  then have "flow_ok (cc_time s) st"
    using assms(2) by (auto simp: conc_ok_def dest: spec [of _ c])
  then show ?thesis
    using reverse_write_astray(1) assms(2) by (simp add: conc_ok_def flows_ok_sync)
next
  case (reads_clock_new c j n rn)
  then have "nat_wf n" "nat_wf rn"
    using assms(2) by (auto simp: conc_ok_def dest: spec [of _ c])
  then show ?thesis
    using reads_clock_new(1) assms(2) by (simp add: conc_ok_def)
next
  case (time_advances t)
  then show ?thesis
    using assms(2) by (auto simp: conc_ok_def intro: flows_ok_later run_ok_later)
qed (use assms(2) in \<open>auto simp: conc_ok_def flows_ok_remove\<close>)

end

sublocale conntrack_map \<subseteq> conc_flows: preserved "conc_step K" "conc_ok K"
  by unfold_locales (rule conc_step_ok)

context conntrack_map
begin

lemmas conc_reach_ok = conc_flows.reached

end

section \<open>The collector reaches every idle flow\<close>

text \<open>A tick begins between two states; a flow waiting to be deleted stays so until it is.\<close>

definition tick_begins :: "'m conntrack_ops \<Rightarrow> 'm conc \<Rightarrow> 'm conc \<Rightarrow> bool" where
  "tick_begins K s t \<longleftrightarrow> cc_pending s = [] \<and> (\<exists>clock. (\<forall>i. get_nsecs (clock i) = cc_time s)
     \<and> t = s\<lparr>cc_pending := gc_collect clock 0 (map_items K (cc_conntrack s))\<rparr>)"

lemma conc_step_time: "conc_step K s t \<Longrightarrow> cc_time s \<le> cc_time t"
  by (induction rule: conc_step.induct) simp_all

lemma time_mono:
  assumes "\<And>i. conc_step K (\<sigma> i) (\<sigma> (Suc i))" "i \<le> j"
  shows "cc_time (\<sigma> i) \<le> cc_time (\<sigma> j)"
  using assms(2) by (rule lift_Suc_mono_le [rotated]) (rule conc_step_time [OF assms(1)])

context conntrack_map
begin

lemma conc_step_pending:
  assumes "conc_step K s t" "k \<in> set (cc_pending s)"
  shows "k \<in> set (cc_pending t) \<or> bm_lookup K (cc_conntrack t) k = None"
  using assms by cases (auto simp: remove_key)

lemma pending_deleted:
  assumes "\<And>i. conc_step K (\<sigma> i) (\<sigma> (Suc i))" "k \<in> set (cc_pending (\<sigma> i))"
    and "k \<notin> set (cc_pending (\<sigma> (i + d)))"
  shows "\<exists>j\<ge>i. bm_lookup K (cc_conntrack (\<sigma> j)) k = None"
  using assms(3)
proof (induction d)
  case (Suc d)
  show ?case
  proof (cases "k \<in> set (cc_pending (\<sigma> (i + d)))")
    case True
    with conc_step_pending [OF assms(1) this] Suc.prems
    have "bm_lookup K (cc_conntrack (\<sigma> (i + Suc d))) k = None" by simp
    then show ?thesis
      by (intro exI [of _ "i + Suc d"]) simp
  qed (rule Suc.IH)
qed (use assms(2) in simp)

lemma tick_collects:
  assumes "tick_begins K s t" "bm_lookup K (cc_conntrack s) k = Some st" "timeout st \<le> cc_time s"
  shows "k \<in> set (cc_pending t)"
  using assms collected_iff(1) [OF assms(2)] by (auto simp: tick_begins_def)

end

section \<open>Properties\<close>


definition idle_cpus :: "'m \<Rightarrow> u64 \<Rightarrow> 'm conc" where
  "idle_cpus ct t = \<lparr>cc_runs = (\<lambda>_. Finished 0 []), cc_conntrack = ct, cc_time = t, cc_pending = []\<rparr>"

lemma at_time_out_job [simp]: "at_time 5 out_job = out_job"
  by (simp add: at_time_def out_job_def sample_env_def)


text \<open>
  C16: Liveness of the collector under any interleaving: when ticks begin again and again and time
  goes on past \<open>t\<close>, a flow whose timeout is never set beyond \<open>t\<close> is absent from the map again and
  again.
\<close>

theorem idle_flow_collected:
  assumes "conntrack_map K" "\<And>i. conc_step K (\<sigma> i) (\<sigma> (Suc i))"
    and "\<And>i. \<exists>j\<ge>i. tick_begins K (\<sigma> j) (\<sigma> (Suc j))"
    and "\<exists>i. t \<le> cc_time (\<sigma> i)"
    and "\<And>i st. bm_lookup K (cc_conntrack (\<sigma> i)) k = Some st \<Longrightarrow> timeout st \<le> t"
  shows "\<exists>j\<ge>i. bm_lookup K (cc_conntrack (\<sigma> j)) k = None"
proof -
  obtain i0 where i0: "t \<le> cc_time (\<sigma> i0)"
    using assms(4) by blast
  obtain j where j: "max i i0 \<le> j" "tick_begins K (\<sigma> j) (\<sigma> (Suc j))"
    using assms(3) by blast
  show ?thesis
  proof (cases "bm_lookup K (cc_conntrack (\<sigma> j)) k")
    case (Some st)
    have "timeout st \<le> cc_time (\<sigma> j)"
      using assms(5) [OF Some] i0 time_mono [of K \<sigma> i0 j, OF assms(2)] j(1) by simp
    then have pending: "k \<in> set (cc_pending (\<sigma> (Suc j)))"
      by (rule conntrack_map.tick_collects [OF assms(1) j(2) Some])
    obtain l where l: "Suc j \<le> l" "tick_begins K (\<sigma> l) (\<sigma> (Suc l))"
      using assms(3) by blast
    then have "k \<notin> set (cc_pending (\<sigma> (Suc j + (l - Suc j))))"
      by (simp add: tick_begins_def)
    from conntrack_map.pending_deleted [OF assms(1,2) pending this]
    obtain m where "Suc j \<le> m" "bm_lookup K (cc_conntrack (\<sigma> m)) k = None" by blast
    then show ?thesis
      using j(1) by (intro exI [of _ m]) simp
  qed (use j(1) in auto)
qed

text \<open>The tick begins, deletes the one expired flow, and begins again on the empty map for ever.\<close>

definition sample_removed :: "(connection_tuple \<times> flow_state) list" where
  "sample_removed = snd (bm_remove sample_ops sample_ct (flow_key out_packet))"

fun sample_ticks :: "nat \<Rightarrow> (connection_tuple \<times> flow_state) list conc" where
  "sample_ticks 0 = idle_cpus sample_ct 5"
| "sample_ticks (Suc 0) = (idle_cpus sample_ct 5)\<lparr>cc_pending := [flow_key out_packet]\<rparr>"
| "sample_ticks (Suc (Suc i)) = idle_cpus sample_removed 5"

lemma sample_removed_empty [simp]:
  "table_lookup 4 sample_removed k = None" "map_items sample_ops sample_removed = []"
  by (simp_all add: sample_removed_def sample_ct_def table_remove_def table_lookup_def table_norm_def
      map_items_def table_keys_def)

lemma sample_ticks_begin:
  "tick_begins sample_ops (sample_ticks 0) (sample_ticks (Suc 0))"
  "tick_begins sample_ops (sample_ticks (Suc (Suc i))) (sample_ticks (Suc (Suc (Suc i))))"
proof -
  let ?clock = "\<lambda>_ :: nat. \<lparr>tv_sec = 0, tv_nsec = 5\<rparr>"
  have "map_items sample_ops sample_ct = [Inr (flow_key out_packet, sample_flow)]"
    by (simp add: map_items_def table_keys_def table_norm_def table_lookup_def sample_ct_def
        map_filter_def)
  then have "gc_collect ?clock 0 (map_items sample_ops sample_ct) = [flow_key out_packet]"
    by (simp add: get_nsecs_def sample_flow_def)
  then show "tick_begins sample_ops (sample_ticks 0) (sample_ticks (Suc 0))"
    unfolding tick_begins_def
    by (auto intro!: exI [of _ ?clock] simp: idle_cpus_def get_nsecs_def)
  show "tick_begins sample_ops (sample_ticks (Suc (Suc i))) (sample_ticks (Suc (Suc (Suc i))))"
    unfolding tick_begins_def
    by (auto intro!: exI [of _ ?clock] simp: idle_cpus_def get_nsecs_def)
qed

lemma tick_begins_step: "tick_begins K s t \<Longrightarrow> conc_step K s t"
  by (auto simp: tick_begins_def intro: gc_begins)

lemma sample_ticks_step: "conc_step sample_ops (sample_ticks i) (sample_ticks (Suc i))"
proof (cases i rule: sample_ticks.cases)
  case 2
  have "conc_step sample_ops (sample_ticks 1)
      ((sample_ticks 1)\<lparr>cc_conntrack := snd (bm_remove sample_ops sample_ct (flow_key out_packet)),
        cc_pending := []\<rparr>)"
    using gc_deletes [of "sample_ticks 1" "flow_key out_packet" "[]" sample_ops]
    by (simp add: idle_cpus_def)
  then show ?thesis
    by (simp add: 2 idle_cpus_def sample_removed_def)
qed (use sample_ticks_begin in \<open>simp_all add: tick_begins_step del: sample_ticks.simps\<close>)

theorem idle_flow_collected_witness:
  "\<exists>j. bm_lookup sample_ops (cc_conntrack (sample_ticks j)) (flow_key out_packet) = None"
proof -
  have "\<exists>j\<ge>i. tick_begins sample_ops (sample_ticks j) (sample_ticks (Suc j))" for i
    by (intro exI [of _ "Suc (Suc i)"] conjI sample_ticks_begin) simp
  moreover have "\<exists>i. 5 \<le> cc_time (sample_ticks i)"
    by (intro exI [of _ 0]) (simp add: idle_cpus_def)
  moreover have "timeout st \<le> 5"
    if "bm_lookup sample_ops (cc_conntrack (sample_ticks i)) (flow_key out_packet) = Some st" for i st
    using that
    by (cases i rule: sample_ticks.cases)
      (auto simp: idle_cpus_def sample_ct_lookup [simplified] sample_flow_def flow_state_new_def)
  ultimately show ?thesis
    using idle_flow_collected [of sample_ops sample_ticks 5 "flow_key out_packet" 0,
        OF sample_map sample_ticks_step]
    by blast
qed

end
