(* ===== verification/System_Simulation.thy ===== *)
theory System_Simulation
  imports Concurrent_System
begin

text \<open>
  The two models of the running system agree: what \<open>Natd_System\<close> does, with a packet as one step, the
  interleaving of \<open>Concurrent_System\<close> can do with one CPU, so that model has all its behaviours.
\<close>

lemma reach_advances:
  "conc_reach K s0 s \<Longrightarrow> (advance K ^^ n) (cc_runs s c, cc_conntrack s) = (r, ct) \<Longrightarrow>
     conc_reach K s0 (s\<lparr>cc_runs := (cc_runs s)(c := r), cc_conntrack := ct\<rparr>)"
proof (induction n arbitrary: r ct)
  case (Suc n)
  obtain r1 ct1 where one: "(advance K ^^ n) (cc_runs s c, cc_conntrack s) = (r1, ct1)"
    by fastforce
  let ?s1 = "s\<lparr>cc_runs := (cc_runs s)(c := r1), cc_conntrack := ct1\<rparr>"
  have "advance K (cc_runs ?s1 c, cc_conntrack ?s1) = (r, ct)"
    using Suc.prems(2) one by simp
  then have step: "conc_step K ?s1 (?s1\<lparr>cc_runs := (cc_runs ?s1)(c := r), cc_conntrack := ct\<rparr>)"
    by (rule advances)
  have "?s1\<lparr>cc_runs := (cc_runs ?s1)(c := r), cc_conntrack := ct\<rparr> =
      s\<lparr>cc_runs := (cc_runs s)(c := r), cc_conntrack := ct\<rparr>"
    by simp
  with reach_then [OF Suc.IH [OF Suc.prems(1) one] step] show ?case
    by argo
qed (simp add: fun_upd_idem)

text \<open>A run that arrives at an idle CPU and is not interrupted.\<close>

lemma lone_run:
  assumes "cc_runs s c = Finished code0 q0" "ke_time E = cc_time s"
    and "try_xdp_redirect K E flag p (cc_conntrack s) = Some (r, q, ct)"
  obtains code where "conc_reach K s
    (s\<lparr>cc_runs := (cc_runs s)(c := Finished code q), cc_conntrack := ct\<rparr>)"
proof -
  let ?j = "\<lparr>jb_flag = flag, jb_env = E, jb_pkt = p\<rparr>"
  let ?s1 = "s\<lparr>cc_runs := (cc_runs s)(c := Arrived ?j)\<rparr>"
  have "at_time (cc_time s) ?j = ?j"
    using assms(2) by (simp add: at_time_def)
  then have arrive: "conc_reach K s ?s1"
    using reach_one [of "conc_step K", OF arrives [OF assms(1), of K ?j]] by simp
  obtain code where "run_alone K ?j (cc_conntrack s) = (Finished code q, ct)"
    by (rule alone_result [OF assms(3)])
  then have "(advance K ^^ 4) (cc_runs ?s1 c, cc_conntrack ?s1) = (Finished code q, ct)"
    by (simp add: run_alone_def)
  from reach_advances [OF arrive this] that show thesis
    by simp
qed

section \<open>The simulation\<close>

definition simulates :: "'c conc \<Rightarrow> ('c, 'm, 'w) system \<Rightarrow> bool" where
  "simulates c s \<longleftrightarrow> cc_conntrack c = sy_conntrack s \<and> cc_time c = sy_time s
     \<and> cc_pending c = sy_pending s \<and> (\<exists>cpu code q. cc_runs c cpu = Finished code q)"

lemma simulates_run:
  assumes "simulates c s" "ke_time E = sy_time s"
    and "try_xdp_redirect K E flag p (sy_conntrack s) = Some (r, q, ct)"
  shows "\<exists>c'. conc_reach K c c' \<and> simulates c' (s\<lparr>sy_conntrack := ct\<rparr>)"
proof -
  obtain cpu code0 q0 where idle: "cc_runs c cpu = Finished code0 q0"
    using assms(1) by (auto simp: simulates_def)
  have "ke_time E = cc_time c"
    "try_xdp_redirect K E flag p (cc_conntrack c) = Some (r, q, ct)"
    using assms by (simp_all add: simulates_def)
  from lone_run [OF idle this] obtain code where
    "conc_reach K c (c\<lparr>cc_runs := (cc_runs c)(cpu := Finished code q), cc_conntrack := ct\<rparr>)" .
  moreover have "simulates (c\<lparr>cc_runs := (cc_runs c)(cpu := Finished code q), cc_conntrack := ct\<rparr>)
      (s\<lparr>sy_conntrack := ct\<rparr>)"
    using assms(1) by (auto simp: simulates_def)
  ultimately show ?thesis by blast
qed

lemma simulates_step:
  assumes "system_step K X H pnic s t" "simulates c s"
  shows "\<exists>c'. conc_reach K c c' \<and> simulates c' t"
  using assms(1)
proof cases
  case (container_packet fib ifindex redirect p code q ct)
  from entry_point_runs(1) [OF this(2)] show ?thesis
    using simulates_run [OF assms(2)] container_packet(1) by (metis packet_env_time)
next
  case (host_packet fib ifindex redirect p code q ct)
  from entry_point_runs(2) [OF this(2)] show ?thesis
    using simulates_run [OF assms(2)] host_packet(1) by (metis packet_env_time)
next
  case (api_request r res st w)
  then show ?thesis
    using assms(2) reach_refl [of "conc_step K" c] by (auto simp: simulates_def)
next
  case (gc_starts clock)
  then have "conc_step K c (c\<lparr>cc_pending := gc_collect clock 0 (map_items K (cc_conntrack c))\<rparr>)"
    using assms(2) by (intro gc_begins) (simp_all add: simulates_def)
  then show ?thesis
    using reach_one [of "conc_step K"] assms(2) gc_starts(1) by (fastforce simp: simulates_def)
next
  case (gc_removes k ks)
  then have "conc_step K c (c\<lparr>cc_conntrack := snd (bm_remove K (cc_conntrack c) k), cc_pending := ks\<rparr>)"
    using assms(2) by (intro gc_deletes) (simp add: simulates_def)
  then show ?thesis
    using reach_one [of "conc_step K"] assms(2) gc_removes(1) by (fastforce simp: simulates_def)
next
  case (time_passes t')
  then have "conc_step K c (c\<lparr>cc_time := t'\<rparr>)"
    using assms(2) by (intro time_advances) (simp_all add: simulates_def)
  then show ?thesis
    using reach_one [of "conc_step K"] assms(2) time_passes(1) by (fastforce simp: simulates_def)
qed

interpretation system_runs: simulation "system_step K X H pnic" "conc_step K" simulates
  for K X H pnic
  by unfold_locales (rule simulates_step)



end
