(* ===== verification/Concurrent_Creation.thy ===== *)
theory Concurrent_Creation
  imports Concurrent_Runs
begin

text \<open>
  The first packets of one flow on several CPUs at once: whatever the interleaving of their steps,
  \<open>BPF_NOEXIST\<close> makes the flow appear once, with both of its entries.
\<close>

section \<open>One flow created on several CPUs\<close>

text \<open>
  The jobs of the first packets of one flow: none of them finds the flow at first, and each would
  create it with the same translations.
\<close>

definition first_job ::
    "connection_tuple \<Rightarrow> nat_flag \<Rightarrow> nat_data \<Rightarrow> nat_data \<Rightarrow> job \<Rightarrow> bool" where
  "first_job k flag n rn j \<longleftrightarrow> nat_candidate (jb_pkt j) \<and> job_key j = k \<and> jb_flag j = flag
     \<and> new_flow j = Some (n, rn)"

text \<open>Where such a run can be, given whether the flow's own entry is there.\<close>

fun creating :: "nat_data \<Rightarrow> nat_data \<Rightarrow> bool \<Rightarrow> job \<Rightarrow> run \<Rightarrow> bool" where
  "creating n rn own j (Arrived i) \<longleftrightarrow> i = j"
| "creating n rn own j (Own_entry i st) \<longleftrightarrow> i = j \<and> own \<and> flow_nat st = n"
| "creating n rn own j (Reverse_lookup i st) \<longleftrightarrow> i = j \<and> own \<and> flow_nat st = n"
| "creating n rn own j (Reverse_entry i st) \<longleftrightarrow> i = j \<and> own \<and> flow_nat st = n"
| "creating n rn own j (First_insert i m rm) \<longleftrightarrow> i = j \<and> m = n \<and> rm = rn"
| "creating n rn own j (Second_insert i m rm) \<longleftrightarrow> i = j \<and> own \<and> m = n \<and> rm = rn"
| "creating n rn own j (Finished code q) \<longleftrightarrow> own \<and> Finished code q = finish j n"

lemma creating_finish [simp]:
  "creating n rn own j (finish i m) \<longleftrightarrow> own \<and> finish i m = finish j n"
  by (simp add: finish_def)

lemma creating_mono: "creating n rn own j r \<Longrightarrow> own \<longrightarrow> own' \<Longrightarrow> creating n rn own' j r"
  by (cases r) auto

definition entry_for :: "nat_data \<Rightarrow> direction \<Rightarrow> flow_state option \<Rightarrow> bool" where
  "entry_for n d x \<longleftrightarrow> (\<forall>e. x = Some e \<longrightarrow> flow_nat e = n \<and> flow_direction e = d)"

lemma entry_for_simps [simp]:
  "entry_for n d None"
  "entry_for n d (Some e) \<longleftrightarrow> flow_nat e = n \<and> flow_direction e = d"
  "entry_for n d (map_option (with_times st) x) \<longleftrightarrow> entry_for n d x"
  by (auto simp: entry_for_def)

text \<open>
  The map while the flow is created: only its two entries differ from the map at the start, the
  first comes before the second, and the second is missing only while some run is about to insert
  it.
\<close>

definition half_created ::
    "connection_tuple \<Rightarrow> connection_tuple \<Rightarrow> nat_data \<Rightarrow> nat_data
       \<Rightarrow> (connection_tuple \<Rightarrow> flow_state option) \<Rightarrow> (connection_tuple \<Rightarrow> flow_state option) \<Rightarrow> bool"
where
  "half_created k rk n rn f g \<longleftrightarrow> entry_for n Original (g k) \<and> entry_for rn Reply (g rk)
     \<and> (g k = None \<longrightarrow> g rk = None) \<and> (\<forall>x. x \<noteq> k \<longrightarrow> x \<noteq> rk \<longrightarrow> g x = f x)"

definition creation ::
    "'m conntrack_ops \<Rightarrow> connection_tuple \<Rightarrow> connection_tuple \<Rightarrow> nat_data \<Rightarrow> nat_data
       \<Rightarrow> (connection_tuple \<Rightarrow> flow_state option) \<Rightarrow> nat set \<Rightarrow> (nat \<Rightarrow> job) \<Rightarrow> 'm cpus \<Rightarrow> bool" where
  "creation K k rk n rn f C jobs rc \<longleftrightarrow>
     half_created k rk n rn f (bm_lookup K (snd rc))
     \<and> (\<forall>c\<in>C. creating n rn (bm_lookup K (snd rc) k \<noteq> None) (jobs c) (fst rc c))
     \<and> (bm_lookup K (snd rc) k \<noteq> None \<longrightarrow> bm_lookup K (snd rc) rk = None \<longrightarrow>
          (\<exists>c\<in>C. \<exists>j. fst rc c = Second_insert j n rn))"

context conntrack_store
begin

lemma sync_reverse_at:
  "bm_lookup K (sync_reverse K ct x st) y =
     (if y = x then map_option (with_times st) (bm_lookup K ct x) else bm_lookup K ct y)"
  by (simp add: lookup_sync_reverse split: option.split)

lemma half_created_sync:
  assumes "half_created k rk n rn f (bm_lookup K ct)" "k \<noteq> rk" "x = k \<or> x = rk"
  shows "half_created k rk n rn f (bm_lookup K (sync_reverse K ct x st))"
  using assms(3)
proof
  assume "x = k"
  then show ?thesis
    using assms(1,2) assms(2) [symmetric] by (simp add: half_created_def sync_reverse_at)
next
  assume "x = rk"
  then show ?thesis
    using assms(1,2) assms(2) [symmetric] by (simp add: half_created_def sync_reverse_at)
qed

lemma half_created_room:
  assumes "half_created k rk n rn f (bm_lookup K ct)" "bm_lookup K ct rk = None"
    and "card (dom f) + 2 \<le> max_entries" "finite (dom f)"
  shows "card (dom (bm_lookup K ct)) < max_entries"
proof -
  have "dom (bm_lookup K ct) \<subseteq> insert k (dom f)"
    using assms(1,2) by (auto simp: half_created_def dom_def)
  then have "card (dom (bm_lookup K ct)) \<le> card (insert k (dom f))"
    by (intro card_mono) (simp add: assms(4))
  also have "\<dots> \<le> card (dom f) + 1"
    using assms(4) by (simp add: card_insert_if)
  finally show ?thesis
    using assms(3) by linarith
qed

lemma lookup_insert_half:
  assumes "half_created k rk n rn f (bm_lookup K ct)" "x = k \<or> x = rk"
    and "card (dom f) + 2 \<le> max_entries" "finite (dom f)"
  shows "bm_lookup K (snd (bm_insert K ct x e BPF_NOEXIST)) =
    (if bm_lookup K ct x = None then (bm_lookup K ct)(x \<mapsto> e) else bm_lookup K ct)"
proof -
  have "bm_lookup K ct x = None \<Longrightarrow> card (dom (bm_lookup K ct)) < max_entries"
    using half_created_room [OF assms(1) _ assms(3,4)] assms(1,2)
    by (auto simp: half_created_def)
  then show ?thesis
    by (simp add: lookup_insert_noexist insert_ok_iff)
qed

lemma creation_update:
  assumes "creation K k rk n rn f C jobs (runs, ct)" "c \<in> C"
    and "half_created k rk n rn f (bm_lookup K ct')"
    and "creating n rn (bm_lookup K ct' k \<noteq> None) (jobs c) r"
    and "bm_lookup K ct k \<noteq> None \<longrightarrow> bm_lookup K ct' k \<noteq> None"
    and "bm_lookup K ct' k \<noteq> None \<Longrightarrow> bm_lookup K ct' rk = None \<Longrightarrow>
      (\<exists>j. r = Second_insert j n rn) \<or>
      (bm_lookup K ct k \<noteq> None \<and> bm_lookup K ct rk = None
        \<and> \<not> (\<exists>j. runs c = Second_insert j n rn))"
  shows "creation K k rk n rn f C jobs (runs(c := r), ct')"
proof -
  have "creating n rn (bm_lookup K ct' k \<noteq> None) (jobs d) ((runs(c := r)) d)" if "d \<in> C" for d
  proof (cases "d = c")
    case False
    have "creating n rn (bm_lookup K ct k \<noteq> None) (jobs d) (runs d)"
      using assms(1) that by (simp add: creation_def)
    then have "creating n rn (bm_lookup K ct' k \<noteq> None) (jobs d) (runs d)"
      using assms(5) by (rule creating_mono)
    with False show ?thesis
      by simp
  qed (use assms(4) in simp)
  moreover have "\<exists>d\<in>C. \<exists>j. (runs(c := r)) d = Second_insert j n rn"
    if new: "bm_lookup K ct' k \<noteq> None" "bm_lookup K ct' rk = None"
  proof (cases "\<exists>j. r = Second_insert j n rn")
    case True
    then show ?thesis
      using assms(2) by (intro bexI [of _ c]) simp_all
  next
    case False
    with assms(6) [OF new] have old: "bm_lookup K ct k \<noteq> None" "bm_lookup K ct rk = None"
      "\<not> (\<exists>j. runs c = Second_insert j n rn)" by simp_all
    with assms(1) obtain d j where d: "d \<in> C" "runs d = Second_insert j n rn"
      by (auto simp: creation_def)
    with old(3) have "d \<noteq> c"
      by blast
    with d show ?thesis
      by (intro bexI [of _ d] exI [of _ j]) simp_all
  qed
  ultimately show ?thesis
    using assms(3) by (simp add: creation_def)
qed

lemma creation_step:
  assumes "creation K k rk n rn f C jobs (runs, ct)" "c \<in> C" "first_job k flag n rn (jobs c)"
    and "reverse_key flag k n = rk" "k \<noteq> rk"
    and "card (dom f) + 2 \<le> max_entries" "finite (dom f)"
  shows "creation K k rk n rn f C jobs (play K (Cpu c) (runs, ct))"
proof -
  let ?j = "jobs c"
  have half: "half_created k rk n rn f (bm_lookup K ct)"
    and here: "creating n rn (bm_lookup K ct k \<noteq> None) ?j (runs c)"
    using assms(1,2) by (auto simp: creation_def)
  have job: "nat_candidate (jb_pkt ?j)" "job_key ?j = k" "jb_flag ?j = flag" "new_flow ?j = Some (n, rn)"
    using assms(3) by (simp_all add: first_job_def)
  note update = creation_update [OF assms(1,2)]
  note sync = half_created_sync [OF half assms(5)] sync_reverse_at
  note ins = lookup_insert_half [OF half _ assms(6,7)]
  show ?thesis
  proof (cases "runs c")
    case (Arrived i)
    with here have i: "i = ?j" by simp
    show ?thesis
    proof (cases "bm_lookup K ct k")
      case None
      then show ?thesis
        using Arrived half by (auto simp: i advance_arrived(4) [OF job(1) _ job(4)] job(2) intro!: update)
    next
      case (Some st)
      then have n: "flow_nat st = n"
        using half by (simp add: half_created_def)
      let ?r = "if snd (refresh_flow (job_time ?j) st)
        then Own_entry ?j (fst (refresh_flow (job_time ?j) st)) else finish ?j n"
      have "play K (Cpu c) (runs, ct) = (runs(c := ?r), ct)"
        using Arrived Some by (simp add: i advance_arrived(2) [OF job(1), of K ct st] job(2) n)
      moreover have "creation K k rk n rn f C jobs (runs(c := ?r), ct)"
        using Arrived Some half by (intro update) (simp_all add: n)
      ultimately show ?thesis
        by simp
    qed
  next
    case (Own_entry i st)
    with here have i: "i = ?j" "flow_nat st = n" "bm_lookup K ct k \<noteq> None" by simp_all
    have "creation K k rk n rn f C jobs (runs(c := Reverse_lookup ?j st), sync_reverse K ct k st)"
      using Own_entry i assms(5) [symmetric] by (intro update) (simp_all add: sync)
    then show ?thesis
      by (simp add: Own_entry i job)
  next
    case (Reverse_lookup i st)
    with here have i: "i = ?j" "flow_nat st = n" "bm_lookup K ct k \<noteq> None" by simp_all
    let ?r = "if bm_lookup K ct rk = None then finish ?j n else Reverse_entry ?j st"
    have "creation K k rk n rn f C jobs (runs(c := ?r), ct)"
      using Reverse_lookup half i by (intro update) simp_all
    then show ?thesis
      by (auto simp: Reverse_lookup i job assms(4) split: if_split_asm)
  next
    case (Reverse_entry i st)
    with here have i: "i = ?j" "flow_nat st = n" "bm_lookup K ct k \<noteq> None" by simp_all
    have "creation K k rk n rn f C jobs (runs(c := finish ?j n), sync_reverse K ct rk st)"
      using Reverse_entry i assms(5) by (intro update) (simp_all add: sync)
    then show ?thesis
      by (simp add: Reverse_entry i job assms(4))
  next
    case (First_insert i m rm)
    with here have i: "i = ?j" "m = n" "rm = rn" by simp_all
    let ?e = "flow_state_new n Original (job_time ?j + TIMEOUT_NEW)"
    have "creation K k rk n rn f C jobs
        (runs(c := Second_insert ?j n rn), snd (bm_insert K ct k ?e BPF_NOEXIST))"
      using First_insert half assms(5) [symmetric]
      by (intro update) (simp_all add: ins half_created_def)
    then show ?thesis
      by (simp add: First_insert i job)
  next
    case (Second_insert i m rm)
    with here have i: "i = ?j" "m = n" "rm = rn" "bm_lookup K ct k \<noteq> None" by simp_all
    let ?e = "flow_state_new rn Reply (job_time ?j + TIMEOUT_NEW)"
    have "creation K k rk n rn f C jobs
        (runs(c := finish ?j n), snd (bm_insert K ct rk ?e BPF_NOEXIST))"
      using Second_insert half assms(5) i(4)
      by (intro update) (auto simp: ins half_created_def split: if_split_asm)
    then show ?thesis
      by (simp add: Second_insert i job assms(4))
  next
    case (Finished code q)
    then show ?thesis
      using assms(1) fun_upd_triv [of runs c] by simp
  qed
qed

lemma creation_schedule:
  assumes "creation K k rk n rn f C jobs rc" "\<forall>c\<in>C. first_job k flag n rn (jobs c)"
    and "reverse_key flag k n = rk" "k \<noteq> rk" "card (dom f) + 2 \<le> max_entries" "finite (dom f)"
    and "set cs \<subseteq> C"
  shows "creation K k rk n rn f C jobs (run_schedule K (map Cpu cs) rc)"
  using assms(1,7)
proof (induction cs arbitrary: rc)
  case (Cons c cs)
  obtain runs ct where rc: "rc = (runs, ct)"
    by (cases rc)
  have "creation K k rk n rn f C jobs (play K (Cpu c) (runs, ct))"
    using Cons.prems assms(2) by (intro creation_step [OF _ _ _ assms(3-6)]) (auto simp: rc)
  then show ?case
    using Cons.prems by (simp add: Cons.IH rc del: play.simps)
qed simp

text \<open>Once every run has ended both entries are there.\<close>

lemma creation_ends:
  assumes "creation K k rk n rn f C jobs (runs, ct)" "C \<noteq> {}" "k \<noteq> rk"
    and "\<forall>c\<in>C. \<exists>code q. runs c = Finished code q"
  shows "\<exists>e r. bm_lookup K ct = f(k \<mapsto> e, rk \<mapsto> r) \<and> flow_nat e = n \<and> flow_direction e = Original
      \<and> flow_nat r = rn \<and> flow_direction r = Reply"
    and "\<forall>c\<in>C. runs c = finish (jobs c) n"
proof -
  from assms(2) obtain c0 where c0: "c0 \<in> C" by blast
  have own: "bm_lookup K ct k \<noteq> None"
    using assms(1,4) c0 by (fastforce simp: creation_def)
  have "\<nexists>j. runs c = Second_insert j n rn" if "c \<in> C" for c
    using assms(4) that by fastforce
  then have "bm_lookup K ct rk \<noteq> None"
    using assms(1) own by (fastforce simp: creation_def)
  with own obtain e r where er: "bm_lookup K ct k = Some e" "bm_lookup K ct rk = Some r"
    by auto
  moreover have "half_created k rk n rn f (bm_lookup K ct)"
    using assms(1) by (simp add: creation_def)
  ultimately have "bm_lookup K ct = f(k \<mapsto> e, rk \<mapsto> r)" and "flow_nat e = n"
    "flow_direction e = Original" "flow_nat r = rn" "flow_direction r = Reply"
    using assms(3) by (auto simp: half_created_def fun_eq_iff)
  then show "\<exists>e r. bm_lookup K ct = f(k \<mapsto> e, rk \<mapsto> r) \<and> flow_nat e = n
      \<and> flow_direction e = Original \<and> flow_nat r = rn \<and> flow_direction r = Reply"
    by blast
  show "\<forall>c\<in>C. runs c = finish (jobs c) n"
    using assms(1,4) by (fastforce simp: creation_def)
qed

end

lemma count_list_Cpu [simp]: "count_list (map Cpu cs) (Cpu c) = count_list cs c"
  by (induction cs) auto

text \<open>
  C13: When the first packets of one flow arrive on several CPUs at once, every interleaving of
  their steps creates the flow once: all packets leave with the same translation, and the map
  gains exactly the two entries of the flow, which agree with that translation and its inverse.
\<close>

theorem concurrent_creation:
  assumes "conntrack_store K max_entries" "cs \<noteq> []"
    and "\<forall>c \<in> set cs. runs c = Arrived (jobs c) \<and> first_job k flag n rn (jobs c)
           \<and> 4 \<le> count_list cs c"
    and "bm_lookup K ct k = None" "bm_lookup K ct (reverse_key flag k n) = None"
    and "k \<noteq> reverse_key flag k n" "card (dom (bm_lookup K ct)) + 2 \<le> max_entries"
    and "run_schedule K (map Cpu cs) (runs, ct) = (runs', ct')"
  shows "(\<forall>c \<in> set cs. runs' c = Finished (redirect_code (jb_env (jobs c)) (devmap_key n))
             (translated flag n (jb_pkt (jobs c))))
     \<and> (\<exists>e r. bm_lookup K ct' = (bm_lookup K ct)(k \<mapsto> e, reverse_key flag k n \<mapsto> r)
          \<and> flow_nat e = n \<and> flow_direction e = Original
          \<and> flow_nat r = rn \<and> flow_direction r = Reply)"
proof -
  let ?f = "bm_lookup K ct"
  have fin: "finite (dom ?f)"
    by (rule bpf_hash_bounded.finite_entries [OF conntrack_store.axioms(2) [OF assms(1)]])
  have "creation K k (reverse_key flag k n) n rn ?f (set cs) jobs (runs, ct)"
    using assms(3-5) by (simp add: creation_def half_created_def)
  from conntrack_store.creation_schedule [OF assms(1) this _ refl assms(6,7) fin subset_refl]
  have inv: "creation K k (reverse_key flag k n) n rn ?f (set cs) jobs (runs', ct')"
    using assms(3,8) by simp
  have ends: "\<forall>c \<in> set cs. \<exists>code q. runs' c = Finished code q"
  proof
    fix c assume "c \<in> set cs"
    then have "runs c = Arrived (jobs c)" "4 \<le> count_list (map Cpu cs :: 'a event list) (Cpu c)"
      using assms(3) by simp_all
    from schedule_finishes [of runs, OF this, of K ct] assms(8)
    show "\<exists>code q. runs' c = Finished code q" by auto
  qed
  have "set cs \<noteq> {}"
    using assms(2) by simp
  from conntrack_store.creation_ends [OF assms(1) inv this assms(6) ends] assms(3)
  show ?thesis
    by (simp add: finish_def first_job_def)
qed

text \<open>Two packets of one flow, one step of each in turn.\<close>

theorem concurrent_creation_witness:
  "\<exists>n e r. fst (run_schedule sample_ops (map Cpu [0, 1, 0, 1, 0, 1, 0, 1])
        (\<lambda>_. Arrived out_job, [])) 1 = Finished XDP_REDIRECT (translated Snat n out_packet)
     \<and> bm_lookup sample_ops (snd (run_schedule sample_ops (map Cpu [0, 1, 0, 1, 0, 1, 0, 1])
        (\<lambda>_. Arrived out_job, []))) = [flow_key out_packet \<mapsto> e, flow_key reply_packet \<mapsto> r]
     \<and> flow_nat e = n"
proof -
  let ?n = "snat_translation sample_nic 40000 sample_macs"
  let ?rn = "snat_reply_translation 2886991892 40000 sample_macs (mac_at out_packet ETH_SRC)"
  let ?run = "run_schedule sample_ops (map Cpu [0, 1, 0, 1, 0, 1, 0, 1]) (\<lambda>_. Arrived out_job, [])"
  have job: "first_job (flow_key out_packet) Snat ?n ?rn out_job"
    by (simp add: first_job_def out_job_def job_key_def new_flow_def)
  have rk: "reverse_key Snat (flow_key out_packet) ?n = flow_key reply_packet"
    by (simp add: reverse_key_def flow_key_def)
  have "flow_key out_packet \<noteq> flow_key reply_packet"
    by (simp add: flow_key_def)
  obtain runs' ct' where run: "?run = (runs', ct')"
    by (cases ?run)
  from concurrent_creation [OF sample_store, of "[0, 1, 0, 1, 0, 1, 0, 1]" "\<lambda>_. Arrived out_job"
      "\<lambda>_. out_job" "flow_key out_packet" Snat ?n ?rn "[]", OF _ _ _ _ _ _ run] job this rk
    \<open>flow_key out_packet \<noteq> flow_key reply_packet\<close>
  obtain e r where "runs' 1 = Finished XDP_REDIRECT (translated Snat ?n out_packet)"
    "bm_lookup sample_ops ct' = (bm_lookup sample_ops [])(flow_key out_packet \<mapsto> e, flow_key reply_packet \<mapsto> r)"
    "flow_nat e = ?n"
    by (auto simp: out_job_def)
  moreover have "bm_lookup sample_ops [] = Map.empty"
    by (simp add: fun_eq_iff)
  ultimately show ?thesis
    unfolding run by auto
qed

end
