(* ===== verification/Delivery.thy ===== *)
theory Delivery
  imports Transitions Concurrent_Runs
begin

text \<open>
  What reaches a container: a history of the packets the containers have sent and of the exposures
  in force when packets came from the network is kept beside the conntrack map, and every entry of
  the map that leads to a container is traced back to it.
\<close>

record 'm traced =
  td_conntrack :: 'm
  td_sent :: "connection_tuple set"
  td_exposed :: "(u16 \<times> u32 \<times> u16) set"

text \<open>The exposures a packet sees: host port, container address and container port.\<close>

definition exposures :: "kernel_env \<Rightarrow> (u16 \<times> u32 \<times> u16) set" where
  "exposures E = {(port, container_ip info, container_port info) | port info.
     ke_expose E port = Some info}"

inductive traced_step :: "'m conntrack_ops \<Rightarrow> 'm traced \<Rightarrow> 'm traced \<Rightarrow> bool"
  for K
where
  container_sends:
    "try_xdp_redirect K E Snat p (td_conntrack s) = Some (r, q, ct) \<Longrightarrow>
       traced_step K s (s\<lparr>td_conntrack := ct, td_sent := insert (flow_key p) (td_sent s)\<rparr>)"
| network_sends:
    "try_xdp_redirect K E Dnat p (td_conntrack s) = Some (r, q, ct) \<Longrightarrow>
       traced_step K s (s\<lparr>td_conntrack := ct, td_exposed := td_exposed s \<union> exposures E\<rparr>)"
| flow_removed:
    "traced_step K s (s\<lparr>td_conntrack := snd (bm_remove K (td_conntrack s) k)\<rparr>)"

abbreviation "traced_reach K \<equiv> reach (traced_step K)"

text \<open>
  A translation that leads to a container is an exposure of the port the packet is sent to, or the
  container has sent a packet from there to the packet's origin.
\<close>

definition justified ::
    "connection_tuple set \<Rightarrow> (u16 \<times> u32 \<times> u16) set \<Rightarrow> connection_tuple \<Rightarrow> nat_data \<Rightarrow> bool" where
  "justified sent exposed k n \<longleftrightarrow> devmap_key n = 0
     \<or> (dst_port k, nat_addr n, nat_port n) \<in> exposed
     \<or> connection_tuple_new (nat_addr n) (src_addr k) (nat_port n) (src_port k) \<in> sent"

definition all_justified :: "'m conntrack_ops \<Rightarrow> 'm traced \<Rightarrow> bool" where
  "all_justified K s \<longleftrightarrow> (\<forall>k st. bm_lookup K (td_conntrack s) k = Some st \<longrightarrow>
     justified (td_sent s) (td_exposed s) k (flow_nat st))"

lemma justified_mono:
  "justified sent exposed k n \<Longrightarrow> sent \<subseteq> sent' \<Longrightarrow> exposed \<subseteq> exposed' \<Longrightarrow> justified sent' exposed' k n"
  by (auto simp: justified_def)

text \<open>Both entries of a new flow are justified by the packet that creates it.\<close>

lemma new_snat_justified:
  assumes "new_flow \<lparr>jb_flag = Snat, jb_env = E, jb_pkt = p\<rparr> = Some (n, rn)"
  shows "justified (insert (flow_key p) sent) exposed (flow_key p) n"
    and "justified (insert (flow_key p) sent) exposed (reverse_key Snat (flow_key p) n) rn"
  using assms
  by (auto simp: new_flow_def justified_def translation_defs reverse_key_def flow_key_def
      split: option.splits)

lemma new_dnat_justified:
  assumes "new_flow \<lparr>jb_flag = Dnat, jb_env = E, jb_pkt = p\<rparr> = Some (n, rn)"
  shows "justified sent (exposed \<union> exposures E) (flow_key p) n"
    and "justified sent (exposed \<union> exposures E) (reverse_key Dnat (flow_key p) n) rn"
  using assms
  by (auto simp: new_flow_def justified_def translation_defs exposures_def flow_key_def
      split: option.splits)

context conntrack_map
begin

lemma hit_nat:
  assumes "bm_lookup K m key = Some st" "bm_lookup K (hit_ct K time m key rk st) k = Some st'"
  shows "\<exists>old. bm_lookup K m k = Some old \<and> flow_nat st' = flow_nat old"
  using assms(2) assms(1) unfolding lookup_hit_ct [OF assms(1)]
  by (auto split: if_split_asm)

lemma create_nat:
  assumes "bm_lookup K (create_ct K m a x b y) k = Some st"
  shows "bm_lookup K m k = Some st \<or> k = a \<and> st = x \<or> k = b \<and> st = y"
  using assms by (auto simp: create_ct_def lookup_insert_noexist split: if_split_asm)

text \<open>After any run every entry's translation was there before or is one of the new flow's.\<close>

lemma run_nat:
  assumes "try_xdp_redirect K E flag p ct = Some (r, q, ct')" "bm_lookup K ct' k = Some st"
  obtains (old) old where "bm_lookup K ct k = Some old" "flow_nat st = flow_nat old"
  | (new) n rn where "new_flow \<lparr>jb_flag = flag, jb_env = E, jb_pkt = p\<rparr> = Some (n, rn)"
      "k = flow_key p \<and> flow_nat st = n \<or> k = reverse_key flag (flow_key p) n \<and> flow_nat st = rn"
proof (rule nat_spec_cases [of K E flag p ct])
  assume "nat_spec K E flag p ct = (XDP_PASS, p, ct)"
  then show thesis
    using assms old by (simp add: try_spec)
next
  fix e
  assume e: "bm_lookup K ct (flow_key p) = Some e"
    and "nat_spec K E flag p ct = (redirect_code E (devmap_key (flow_nat e)),
         translated flag (flow_nat e) p,
         hit_ct K (ke_time E) ct (flow_key p) (reverse_key flag (flow_key p) (flow_nat e)) e)"
  then have "ct' = hit_ct K (ke_time E) ct (flow_key p) (reverse_key flag (flow_key p) (flow_nat e)) e"
    using assms(1) by (simp add: try_spec)
  from hit_nat [OF e assms(2) [unfolded this]] show thesis
    using old by blast
next
  fix n rn
  assume nn: "new_flow \<lparr>jb_flag = flag, jb_env = E, jb_pkt = p\<rparr> = Some (n, rn)"
    and "nat_spec K E flag p ct = (redirect_code E (devmap_key n), translated flag n p,
         create_ct K ct (flow_key p) (flow_state_new n Original (ke_time E + TIMEOUT_NEW))
           (reverse_key flag (flow_key p) n) (flow_state_new rn Reply (ke_time E + TIMEOUT_NEW)))"
  then have "ct' = create_ct K ct (flow_key p) (flow_state_new n Original (ke_time E + TIMEOUT_NEW))
      (reverse_key flag (flow_key p) n) (flow_state_new rn Reply (ke_time E + TIMEOUT_NEW))"
    using assms(1) by (simp add: try_spec)
  from create_nat [OF assms(2) [unfolded this]] show thesis
    using old new [OF nn] by auto
qed

lemma traced_step_justified:
  assumes "traced_step K s t" "all_justified K s"
  shows "all_justified K t"
  using assms(1)
proof cases
  case (container_sends E p r q ct)
  have "justified (insert (flow_key p) (td_sent s)) (td_exposed s) k (flow_nat st)"
    if "bm_lookup K ct k = Some st" for k st
  proof (rule run_nat [OF container_sends(2) that])
    fix old assume "bm_lookup K (td_conntrack s) k = Some old" "flow_nat st = flow_nat old"
    then show ?thesis
      using assms(2) by (auto simp: all_justified_def intro: justified_mono)
  next
    fix n rn
    assume "new_flow \<lparr>jb_flag = Snat, jb_env = E, jb_pkt = p\<rparr> = Some (n, rn)"
      and "k = flow_key p \<and> flow_nat st = n \<or>
        k = reverse_key Snat (flow_key p) n \<and> flow_nat st = rn"
    then show ?thesis
      using new_snat_justified by auto
  qed
  then show ?thesis
    using container_sends(1) by (simp add: all_justified_def)
next
  case (network_sends E p r q ct)
  have "justified (td_sent s) (td_exposed s \<union> exposures E) k (flow_nat st)"
    if "bm_lookup K ct k = Some st" for k st
  proof (rule run_nat [OF network_sends(2) that])
    fix old assume "bm_lookup K (td_conntrack s) k = Some old" "flow_nat st = flow_nat old"
    then show ?thesis
      using assms(2) by (auto simp: all_justified_def intro: justified_mono)
  next
    fix n rn
    assume "new_flow \<lparr>jb_flag = Dnat, jb_env = E, jb_pkt = p\<rparr> = Some (n, rn)"
      and "k = flow_key p \<and> flow_nat st = n \<or>
        k = reverse_key Dnat (flow_key p) n \<and> flow_nat st = rn"
    then show ?thesis
      using new_dnat_justified by auto
  qed
  then show ?thesis
    using network_sends(1) by (simp add: all_justified_def)
next
  case (flow_removed k)
  then show ?thesis
    using assms(2) by (simp add: all_justified_def remove_key)
qed

end

sublocale conntrack_map \<subseteq> traced: preserved "traced_step K" "all_justified K"
  by unfold_locales (rule traced_step_justified)

context conntrack_map
begin

lemmas traced_reach_justified = traced.reached

end

text \<open>
  C3: Nothing reaches a container uninvited. Whatever has happened since the map was empty, a
  packet from the network either passes unmodified, or is translated for the NIC's own key, or is
  translated to an address and port that were exposed under the packet's destination port, now or
  when an earlier packet came, or from which a container has sent a packet to exactly the address
  and port this one comes from.
\<close>

theorem delivery_justified:
  assumes "conntrack_map K" "traced_reach K s0 s" "\<forall>k. bm_lookup K (td_conntrack s0) k = None"
    and "xdp_redirect_host K E p (td_conntrack s) = Some (code, q, ct)"
  shows "(code = XDP_PASS \<and> q = p \<and> ct = td_conntrack s) \<or>
    (\<exists>n. q = translated Dnat n p \<and> code = redirect_code E (devmap_key n) \<and>
       (devmap_key n = 0
        \<or> (pkt_dport p, nat_addr n, nat_port n) \<in> td_exposed s \<union> exposures E
        \<or> connection_tuple_new (nat_addr n) (pkt_src p) (nat_port n) (pkt_sport p) \<in> td_sent s))"
proof -
  have inv: "all_justified K s"
    by (rule conntrack_map.traced_reach_justified [OF assms(1,2)]) (use assms(3) in \<open>simp add: all_justified_def\<close>)
  have just: "devmap_key n = 0 \<or> (pkt_dport p, nat_addr n, nat_port n) \<in> td_exposed s \<union> exposures E
      \<or> connection_tuple_new (nat_addr n) (pkt_src p) (nat_port n) (pkt_sport p) \<in> td_sent s"
    if "justified (td_sent s) (td_exposed s \<union> exposures E) (flow_key p) n" for n
    using that by (simp add: justified_def flow_key_def)
  have run: "nat_spec K E Dnat p (td_conntrack s) = (code, q, ct)"
    using assms(4) by (auto simp: xdp_redirect_host_def try_spec unwrap_or_def split_beta)
  consider "code = XDP_PASS \<and> q = p \<and> ct = td_conntrack s"
    | st where "bm_lookup K (td_conntrack s) (flow_key p) = Some st"
      "q = translated Dnat (flow_nat st) p" "code = redirect_code E (devmap_key (flow_nat st))"
    | n rn where "new_flow \<lparr>jb_flag = Dnat, jb_env = E, jb_pkt = p\<rparr> = Some (n, rn)"
      "q = translated Dnat n p" "code = redirect_code E (devmap_key n)"
    by (rule nat_spec_cases [of K E Dnat p "td_conntrack s"]) (use run in simp_all)
  then show ?thesis
  proof cases
    case (2 st)
    then have "justified (td_sent s) (td_exposed s) (flow_key p) (flow_nat st)"
      using inv by (simp add: all_justified_def)
    then have "justified (td_sent s) (td_exposed s \<union> exposures E) (flow_key p) (flow_nat st)"
      by (rule justified_mono) auto
    then show ?thesis
      using 2 just by blast
  next
    case (3 n rn)
    then show ?thesis
      using just new_dnat_justified(1) by blast
  qed simp
qed

text \<open>A container sends, and the answer comes from the network.\<close>

theorem delivery_justified_witness:
  "\<exists>q ct n. try_xdp_redirect sample_ops (sample_env 5) Snat out_packet [] = Some (Inr XDP_REDIRECT, q, ct)
     \<and> (\<forall>code r ct'. xdp_redirect_host sample_ops ((sample_env 9)\<lparr>ke_expose := \<lambda>_. None\<rparr>)
            reply_packet ct = Some (code, r, ct') \<longrightarrow>
          r = reply_packet \<or> r = translated Dnat n reply_packet \<and>
            (devmap_key n = 0 \<or> nat_addr n = 2886991892 \<and> nat_port n = 40000))"
proof -
  let ?E = "(sample_env 9)\<lparr>ke_expose := \<lambda>_. None\<rparr>"
  let ?s0 = "\<lparr>td_conntrack = [], td_sent = {}, td_exposed = {}\<rparr>
    :: (connection_tuple \<times> flow_state) list traced"
  obtain q ct where run: "try_xdp_redirect sample_ops (sample_env 5) Snat out_packet [] =
      Some (Inr XDP_REDIRECT, q, ct)"
    using sample_out_flow by blast
  let ?s1 = "?s0\<lparr>td_conntrack := ct, td_sent := insert (flow_key out_packet) (td_sent ?s0)\<rparr>"
  have "try_xdp_redirect sample_ops (sample_env 5) Snat out_packet (td_conntrack ?s0) =
      Some (Inr XDP_REDIRECT, q, ct)"
    using run by simp
  from reach_one [of "traced_step sample_ops", OF container_sends [OF this]]
  have reach: "traced_reach sample_ops ?s0 ?s1" .
  obtain c1 r1 where host: "xdp_redirect_host sample_ops ?E reply_packet ct = Some (c1, r1)"
    using entry_points_run [of sample_ops ?E reply_packet ct] by blast
  obtain r ct' where r1: "r1 = (r, ct')" by (cases r1)
  from delivery_justified [OF sample_map reach, of ?E reply_packet c1 r ct'] host r1
  have "r = reply_packet \<or> (\<exists>n. r = translated Dnat n reply_packet \<and>
      (devmap_key n = 0 \<or> nat_addr n = 2886991892 \<and> nat_port n = 40000))"
    by (auto simp: exposures_def flow_key_def)
  then show ?thesis
    using run host r1 by auto
qed

end
