(* ===== verification/Concurrent_Delivery.thy ===== *)
theory Concurrent_Delivery
  imports Delivery Concurrent_System
begin

text \<open>
  The history of \<open>Delivery\<close> beside the interleaved system: what reaches a container is justified by
  it even when runs, the collector and stale writes come between each other's accesses.
\<close>

record 'm watched =
  wt_system :: "'m conc"
  wt_sent :: "connection_tuple set"
  wt_exposed :: "(u16 \<times> u32 \<times> u16) set"

text \<open>A packet enters the history when it arrives; every other step leaves the history alone.\<close>

definition sent_by :: "job \<Rightarrow> connection_tuple set" where
  "sent_by j = (if jb_flag j = Snat then {job_key j} else {})"

definition exposed_to :: "job \<Rightarrow> (u16 \<times> u32 \<times> u16) set" where
  "exposed_to j = (if jb_flag j = Dnat then exposures (jb_env j) else {})"

inductive watched_step :: "'m conntrack_ops \<Rightarrow> 'm watched \<Rightarrow> 'm watched \<Rightarrow> bool"
  for K
where
  watched_arrival:
    "cc_runs (wt_system s) c = Finished code q \<Longrightarrow>
       watched_step K s (s\<lparr>wt_system := (wt_system s)\<lparr>cc_runs := (cc_runs (wt_system s))
           (c := Arrived (at_time (cc_time (wt_system s)) j))\<rparr>,
         wt_sent := wt_sent s \<union> sent_by j, wt_exposed := wt_exposed s \<union> exposed_to j\<rparr>)"
| watched_other:
    "conc_step K (wt_system s) t \<Longrightarrow>
       \<forall>c j. cc_runs t c = Arrived j \<longrightarrow> (\<exists>i. cc_runs (wt_system s) c = Arrived i) \<Longrightarrow>
       watched_step K s (s\<lparr>wt_system := t\<rparr>)"

text \<open>What a run carries is justified by the history.\<close>

fun run_justified ::
    "connection_tuple set \<Rightarrow> (u16 \<times> u32 \<times> u16) set \<Rightarrow> run \<Rightarrow> bool" where
  "run_justified S X (Arrived j) \<longleftrightarrow> sent_by j \<subseteq> S \<and> exposed_to j \<subseteq> X"
| "run_justified S X (Own_entry j st) \<longleftrightarrow> justified S X (job_key j) (flow_nat st)"
| "run_justified S X (Reverse_lookup j st) \<longleftrightarrow> justified S X (job_key j) (flow_nat st)"
| "run_justified S X (Reverse_entry j st) \<longleftrightarrow> justified S X (job_key j) (flow_nat st)"
| "run_justified S X (First_insert j n rn) \<longleftrightarrow> justified S X (job_key j) n
     \<and> justified S X (reverse_key (jb_flag j) (job_key j) n) rn"
| "run_justified S X (Second_insert j n rn) \<longleftrightarrow> justified S X (job_key j) n
     \<and> justified S X (reverse_key (jb_flag j) (job_key j) n) rn"
| "run_justified S X (Finished code q) \<longleftrightarrow> True"

definition table_justified ::
    "connection_tuple set \<Rightarrow> (u16 \<times> u32 \<times> u16) set \<Rightarrow> (connection_tuple \<Rightarrow> flow_state option) \<Rightarrow> bool" where
  "table_justified S X f \<longleftrightarrow> (\<forall>k st. f k = Some st \<longrightarrow> justified S X k (flow_nat st))"

definition watched_ok :: "'m conntrack_ops \<Rightarrow> 'm watched \<Rightarrow> bool" where
  "watched_ok K s \<longleftrightarrow>
     table_justified (wt_sent s) (wt_exposed s) (bm_lookup K (cc_conntrack (wt_system s)))
     \<and> (\<forall>c. run_justified (wt_sent s) (wt_exposed s) (cc_runs (wt_system s) c))"

lemma run_justified_mono:
  "run_justified S X r \<Longrightarrow> S \<subseteq> S' \<Longrightarrow> X \<subseteq> X' \<Longrightarrow> run_justified S' X' r"
  by (cases r) (auto intro: justified_mono)

lemma run_justified_finish [simp]: "run_justified S X (finish j n)"
  by (simp add: finish_def)

lemma at_time_sel [simp]:
  "job_key (at_time t j) = job_key j" "jb_flag (at_time t j) = jb_flag j"
  "sent_by (at_time t j) = sent_by j" "exposed_to (at_time t j) = exposed_to j"
  by (simp_all add: at_time_def job_key_def sent_by_def exposed_to_def exposures_def)

text \<open>A new flow's translations are justified by the job that creates it.\<close>

lemma new_flow_justified:
  assumes "new_flow j = Some (n, rn)" "sent_by j \<subseteq> S" "exposed_to j \<subseteq> X"
  shows "justified S X (job_key j) n \<and> justified S X (reverse_key (jb_flag j) (job_key j) n) rn"
proof (cases "jb_flag j")
  case Snat
  then have "j = \<lparr>jb_flag = Snat, jb_env = jb_env j, jb_pkt = jb_pkt j\<rparr>" by simp
  with assms(1) have "new_flow \<lparr>jb_flag = Snat, jb_env = jb_env j, jb_pkt = jb_pkt j\<rparr> = Some (n, rn)"
    by metis
  moreover have "insert (flow_key (jb_pkt j)) S = S"
    using assms(2) Snat by (auto simp: sent_by_def job_key_def)
  ultimately show ?thesis
    using new_snat_justified [of "jb_env j" "jb_pkt j" n rn S X] Snat by (simp add: job_key_def)
next
  case Dnat
  then have "j = \<lparr>jb_flag = Dnat, jb_env = jb_env j, jb_pkt = jb_pkt j\<rparr>" by simp
  with assms(1) have "new_flow \<lparr>jb_flag = Dnat, jb_env = jb_env j, jb_pkt = jb_pkt j\<rparr> = Some (n, rn)"
    by metis
  moreover have "X \<union> exposures (jb_env j) = X"
    using assms(3) Dnat by (auto simp: exposed_to_def)
  ultimately show ?thesis
    using new_dnat_justified [of "jb_env j" "jb_pkt j" n rn S X] Dnat by (simp add: job_key_def)
qed

context conntrack_map
begin

lemma sync_justified:
  "table_justified S X (bm_lookup K ct) \<Longrightarrow> table_justified S X (bm_lookup K (sync_reverse K ct k st))"
  by (auto simp: table_justified_def lookup_sync_reverse split: option.split)

lemma insert_justified:
  "table_justified S X (bm_lookup K ct) \<Longrightarrow> justified S X k (flow_nat e) \<Longrightarrow>
     table_justified S X (bm_lookup K (snd (bm_insert K ct k e BPF_NOEXIST)))"
  by (simp add: table_justified_def lookup_insert_noexist)

lemma remove_justified:
  "table_justified S X (bm_lookup K ct) \<Longrightarrow> table_justified S X (bm_lookup K (snd (bm_remove K ct k)))"
  by (simp add: table_justified_def remove_key)

lemma advance_justified:
  assumes "table_justified S X (bm_lookup K ct)" "run_justified S X r"
  shows "table_justified S X (bm_lookup K (snd (advance K (r, ct))))
     \<and> run_justified S X (fst (advance K (r, ct)))"
proof (cases r)
  case (Arrived j)
  then have j: "sent_by j \<subseteq> S" "exposed_to j \<subseteq> X"
    using assms(2) by simp_all
  show ?thesis
    using assms(1) new_flow_justified [OF _ j]
    by (auto simp: Arrived advance_def split_beta table_justified_def split: option.split)
qed (use assms in \<open>simp_all add: sync_justified insert_justified\<close>)

lemma conc_step_watched:
  assumes "conc_step K s t" "\<forall>c j. cc_runs t c = Arrived j \<longrightarrow> (\<exists>i. cc_runs s c = Arrived i)"
    and "table_justified S X (bm_lookup K (cc_conntrack s))" "\<forall>c. run_justified S X (cc_runs s c)"
  shows "table_justified S X (bm_lookup K (cc_conntrack t)) \<and> (\<forall>c. run_justified S X (cc_runs t c))"
  using assms(1)
proof cases
  case (arrives c code q j)
  then show ?thesis
    using assms(2) by (auto dest: spec [of _ c])
next
  case (advances c r ct)
  then show ?thesis
    using advance_justified [OF assms(3), of "cc_runs s c"] assms(4) by simp
next
  case (reads_clock c j)
  then show ?thesis
    using assms(3,4) spec [OF assms(4), of c] by simp
next
  case (reads_clock_new c j n rn)
  then show ?thesis
    using assms(3,4) spec [OF assms(4), of c] by simp
next
  case (reads_own_entry c j st r)
  then show ?thesis
    using assms(3,4) spec [OF assms(4), of c] by (simp add: table_justified_def)
next
  case (own_write_astray c j st k)
  then show ?thesis
    using assms(4) spec [OF assms(4), of c] sync_justified [OF assms(3)] by simp
next
  case (reverse_write_astray c j st k)
  then show ?thesis
    using assms(4) sync_justified [OF assms(3)] by simp
next
  case (gc_deletes k ks)
  then show ?thesis
    using assms(4) remove_justified [OF assms(3)] by simp
qed (use assms(3,4) in simp_all)

lemma watched_step_ok:
  assumes "watched_step K s t" "watched_ok K s"
  shows "watched_ok K t"
  using assms(1)
proof cases
  case (watched_arrival c code q j)
  have "table_justified (wt_sent t) (wt_exposed t) (bm_lookup K (cc_conntrack (wt_system s)))"
    using assms(2) watched_arrival(1)
    by (auto simp: watched_ok_def table_justified_def intro: justified_mono)
  moreover have "run_justified (wt_sent t) (wt_exposed t) (cc_runs (wt_system s) d)" for d
    using assms(2) watched_arrival(1)
    by (auto simp: watched_ok_def intro: run_justified_mono)
  ultimately show ?thesis
    using watched_arrival(1) by (simp add: watched_ok_def)
next
  case (watched_other u)
  then show ?thesis
    using conc_step_watched [OF watched_other(2,3)] assms(2) by (simp add: watched_ok_def)
qed

end

sublocale conntrack_map \<subseteq> watched: preserved "watched_step K" "watched_ok K"
  by unfold_locales (rule watched_step_ok)

context conntrack_map
begin

lemmas watched_reach_ok = watched.reached

text \<open>The packet a run ends with.\<close>

lemma advance_finishes:
  assumes "table_justified S X (bm_lookup K ct)" "run_justified S X r"
    and "run_of j r" "remaining r \<noteq> 0" "advance K (r, ct) = (Finished code q, ct')"
  shows "code = XDP_PASS \<and> q = jb_pkt j \<or>
    (\<exists>n. Finished code q = finish j n \<and> justified S X (job_key j) n)"
proof (cases r)
  case (Arrived i)
  then show ?thesis
    using assms(1,3,5)
    by (auto simp: advance_def table_justified_def split_beta split: if_split_asm option.splits) metis+
next
  case (Reverse_lookup i st)
  then show ?thesis
    using assms(2,3,5) by (auto split: if_split_asm)
qed (use assms(2-5) in \<open>auto split: if_split_asm\<close>)

end



end
