(* ===== verification/Daemon_Main.thy ===== *)
theory Daemon_Main
  imports Startup_Properties
begin

text \<open>
  The process as a whole: \<open>telemetry.rs\<close>, \<open>start_server\<close> of \<open>api/server.rs\<close>, and \<open>main\<close> of
  \<open>xdp-natd/src/main.rs\<close> from reading the configuration to the exit. The tracing crates, sockets,
  and signals are parameters; a panic is a value.
\<close>

section \<open>Telemetry\<close>

text \<open>
  A subscriber is the registry under its layers, the last one outermost. Installing the log
  bridge and the default subscriber may fail, as either can be done once in a process.
\<close>

datatype ('f, 'k) layer = Env_filter_layer 'f | Json_storage_layer | Bunyan_formatting_layer string 'k

type_synonym ('f, 'k) subscriber = "('f, 'k) layer list"

record ('p, 'f, 'k) tracing_host =
  tr_default_env :: "string + 'f"
  tr_new_filter :: "string \<Rightarrow> 'f"
  tr_init_log :: "'p \<Rightarrow> (string + unit) \<times> 'p"
  tr_set_default :: "('f, 'k) subscriber \<Rightarrow> 'p \<Rightarrow> (string + unit) \<times> 'p"
  tr_stdout :: 'k

definition get_subscriber ::
    "('p, 'f, 'k) tracing_host \<Rightarrow> string \<Rightarrow> string \<Rightarrow> 'k \<Rightarrow> ('f, 'k) subscriber" where
  "get_subscriber T name env_filter sink =
     (let filter = (case tr_default_env T of Inr f \<Rightarrow> f | Inl _ \<Rightarrow> tr_new_filter T env_filter);
          formatting_layer = Bunyan_formatting_layer name sink
      in [Env_filter_layer filter, Json_storage_layer, formatting_layer])"

definition init_subscriber ::
    "('p, 'f, 'k) tracing_host \<Rightarrow> ('f, 'k) subscriber \<Rightarrow> 'p \<Rightarrow> unit call \<times> 'p" where
  "init_subscriber T subscriber proc =
     (case tr_init_log T proc of
        (Inl _, proc) \<Rightarrow> (Panics ''Failed to set logger'', proc)
      | (Inr _, proc) \<Rightarrow>
          (case tr_set_default T subscriber proc of
             (Inl _, proc) \<Rightarrow> (Panics ''Failed to set subscriber'', proc)
           | (Inr _, proc) \<Rightarrow> (Returns (), proc)))"

definition init_logging ::
    "('p, 'f, 'k) tracing_host \<Rightarrow> configuration \<Rightarrow> 'p \<Rightarrow> (string + unit) call \<times> 'p" where
  "init_logging T cfg proc =
     (let subscriber = get_subscriber T (cp_logger_name (control_plane_cfg cfg))
            (cp_default_env_filter (control_plane_cfg cfg)) (tr_stdout T)
      in case init_subscriber T subscriber proc of
           (Panics e, proc) \<Rightarrow> (Panics e, proc)
         | (Returns _, proc) \<Rightarrow> (Returns (Inr ()), proc))"

section \<open>The server task\<close>

text \<open>The task ends the process when the address cannot be bound, with what it prints before.\<close>

datatype ('l, 'm) server_task = Exits_process string int | Serving 'l "'m api_router"

definition start_server ::
    "(string \<Rightarrow> string + 'l) \<Rightarrow> configuration \<Rightarrow> 'm api_router \<Rightarrow> ('l, 'm) server_task" where
  "start_server bind_to cfg app =
     (case bind_to (listen_address cfg) of
        Inl _ \<Rightarrow> Exits_process (''failed to bind_to to address: '' @ listen_address cfg) 1
      | Inr listener \<Rightarrow> Serving listener app)"

section \<open>Kernel log\<close>

datatype ebpf_logging = Logs_warning string | Flush_task | Idle_task

text \<open>The log of the kernel programs is flushed by a task when its descriptor can be polled.\<close>

definition setup_ebpf_logging :: "string + unit \<Rightarrow> string + unit \<Rightarrow> ebpf_logging" where
  "setup_ebpf_logging logger async_fd =
     (case logger of
        Inl _ \<Rightarrow> Logs_warning ''logging is not used in the ebpf program''
      | Inr _ \<Rightarrow> (case async_fd of Inl _ \<Rightarrow> Idle_task | Inr _ \<Rightarrow> Flush_task))"

section \<open>The process\<close>

text \<open>
  What wakes the waiting process. The server task runs beside it and may end the process first,
  which it does when its bind fails.
\<close>

datatype wake_up = Ctrl_c | Sigterm

definition received :: "wake_up \<Rightarrow> string" where
  "received wake = (case wake of
     Ctrl_c \<Rightarrow> ''Received Ctrl-C, shutting down...'' | Sigterm \<Rightarrow> ''Received SIGTERM, shutting down...'')"

datatype process_end = Main_returns "string + unit" | Main_panics string | Process_exits int

text \<open>The exit status: of \<open>Err\<close> 1, of a panic 101.\<close>

definition exit_status :: "process_end \<Rightarrow> int" where
  "exit_status e =
     (case e of
        Main_returns (Inr _) \<Rightarrow> 0 | Main_returns (Inl _) \<Rightarrow> 1 | Main_panics _ \<Rightarrow> 101
      | Process_exits code \<Rightarrow> code)"

text \<open>The result with what is printed on the way.\<close>

definition wait_and_clean_up ::
    "'w host_ops \<Rightarrow> (string \<Rightarrow> string + 'l) \<Rightarrow> bool \<Rightarrow> string + unit \<Rightarrow> configuration
       \<Rightarrow> ('r, 'm) daemon \<Rightarrow> wake_up \<Rightarrow> 'w \<Rightarrow> process_end \<times> string list \<times> 'w" where
  "wait_and_clean_up H bind_to server_first sigterm cfg dm wake w =
     (let out = [''Waiting for Ctrl-C or SIGTERM''] in
      case sigterm of
        Inl e \<Rightarrow> (Main_returns (Inl e), out, w)
      | Inr _ \<Rightarrow>
        (case (server_first, map_option (\<lambda>s. start_server bind_to cfg (snd s)) (dm_server dm)) of
           (True, Some (Exits_process msg code)) \<Rightarrow> (Process_exits code, out @ [msg], w)
         | _ \<Rightarrow>
             (let out = out @ [received wake, ''Cleaning up...''] in
              case clean_up H w of (r, w) \<Rightarrow> (Main_returns r, out, w))))"

text \<open>
  \<open>w\<close> is the firewall at the start and \<open>served\<close> what the API has made of it when the process
  wakes up. The two results of \<open>klog\<close> are those of the kernel log's initialisation.
\<close>

definition daemon_main ::
    "'raw config_host \<Rightarrow> ('p, 'f, 'k) tracing_host \<Rightarrow> (string + unit) \<times> (string + unit) \<Rightarrow> docker_host
       \<Rightarrow> net_host \<Rightarrow> (int \<Rightarrow> thread_outcome) \<Rightarrow> string + string \<Rightarrow> (string \<Rightarrow> string + unit)
       \<Rightarrow> 'r redirect_ops \<Rightarrow> 'w host_ops \<Rightarrow> (string \<Rightarrow> string + 'l) \<Rightarrow> bool \<Rightarrow> string + unit \<Rightarrow> 'r \<Rightarrow> 'm
       \<Rightarrow> wake_up \<Rightarrow> (('r, 'm) daemon \<Rightarrow> 'w \<Rightarrow> 'w) \<Rightarrow> 'p \<Rightarrow> 'w \<Rightarrow> process_end \<times> string list \<times> 'w"
where
  "daemon_main C T klog D N oc existing write_file K H bind_to server_first sigterm devmap em wake
     served proc w =
     (case get_configuration C of
        Panics e \<Rightarrow> (Main_panics e, [], w)
      | Returns (Inl e) \<Rightarrow> (Main_panics (''Failed to read configuration.: '' @ e), [], w)
      | Returns (Inr cfg) \<Rightarrow>
        (case fst (init_logging T cfg proc) of
           Panics e \<Rightarrow> (Main_panics e, [], w)
         | Returns (Inl e) \<Rightarrow> (Main_returns (Inl e), [], w)
         | Returns (Inr _) \<Rightarrow>
           (case nh_object N 0 of
              Inl e \<Rightarrow> (Main_returns (Inl e), [], w)
            | Inr _ \<Rightarrow>
              (let out = (case setup_ebpf_logging (fst klog) (snd klog) of
                     Logs_warning msg \<Rightarrow> [msg] | _ \<Rightarrow> []) in
               case main_setup D N oc existing write_file K cfg devmap em of
                 Inl e \<Rightarrow> (Main_returns (Inl e), out, w)
               | Inr dm \<Rightarrow>
                   (case wait_and_clean_up H bind_to server_first sigterm cfg dm wake (served dm w) of
                      (e, out2, w) \<Rightarrow> (e, out @ out2, w))))))"

section \<open>Properties\<close>

lemma clean_up_rules:
  assumes "nat_firewall H rules" "clean_up H w = (r, w')"
  shows "rules w' = (case r of Inr _ \<Rightarrow> [] | Inl _ \<Rightarrow> rules w)"
proof -
  obtain x w2 where run: "run_iptables H (nat_prerouting ''-F'' []) w = (x, w2)"
    by fastforce
  show ?thesis
  proof (cases "x = Inr True")
    case True
    then show ?thesis
      using run assms(2) nat_firewall.flush_rules [OF assms(1), of w w2]
      by (auto simp: clean_up_def nat_prerouting_def)
  next
    case False
    then show ?thesis
      using run assms(2) nat_firewall.failed_command [OF assms(1) run]
      by (auto simp: clean_up_def nat_prerouting_def split: sum.splits if_splits)
  qed
qed

lemma wait_and_clean_up_cases:
  "\<exists>e out w'. wait_and_clean_up H bind_to server_first sigterm cfg dm wake w = (e, out, w')
     \<and> (e, w') \<in> {(Main_returns (Inl (projl sigterm)), w), (Process_exits 1, w),
      (Main_returns (fst (clean_up H w)), snd (clean_up H w))}"
  by (cases sigterm; cases server_first; cases "dm_server dm"; cases "bind_to (listen_address cfg)")
    (simp_all add: wait_and_clean_up_def start_server_def split_beta Let_def)

lemma wait_and_clean_up_rules:
  assumes "nat_firewall H rules"
    and "wait_and_clean_up H bind_to server_first sigterm cfg dm wake w = (e, out, w')"
  shows "rules w' = (if exit_status e = 0 then [] else rules w)"
proof -
  obtain r w2 where cleaned: "clean_up H w = (r, w2)"
    by fastforce
  show ?thesis
    using wait_and_clean_up_cases [of H bind_to server_first sigterm cfg dm wake w] assms(2)
      clean_up_rules [OF assms(1) cleaned]
    by (auto simp: cleaned exit_status_def split: sum.splits)
qed


text \<open>A daemon that serves, has two rules in the chain, and is asked to end.\<close>

definition sample_config_host :: "unit config_host" where
  "sample_config_host = \<lparr>cf_current_dir = Inr ''/srv'', cf_app_env = None,
     cf_build = (\<lambda>_. Inr ()), cf_deserialize = (\<lambda>_. Inr sample_cfg)\<rparr>"

definition sample_tracing :: "(unit, string, unit) tracing_host" where
  "sample_tracing = \<lparr>tr_default_env = Inl ''not set'', tr_new_filter = (\<lambda>s. s),
     tr_init_log = (\<lambda>p. (Inr (), p)), tr_set_default = (\<lambda>_ p. (Inr (), p)), tr_stdout = ()\<rparr>"


end
