(* ===== verification/Map_Layout.thy ===== *)
theory Map_Layout
  imports Natd_Common
begin

text \<open>
  The structures of \<open>xdp-natd-common/src/lib.rs\<close> as the bytes of map keys and values, which the
  daemon and the kernel programs exchange (\<open>Pod\<close>): fields in order under \<open>repr(C)\<close>, little-endian,
  aligned to their size. Only \<open>NATData\<close> and \<open>FlowState\<close> have padding, whose bytes are arbitrary;
  \<open>Direction\<close> and \<open>bool\<close> are one byte with two valid values.
\<close>

section \<open>Eight bytes\<close>

definition bytes_of_u64 :: "u64 \<Rightarrow> bytes" where
  "bytes_of_u64 w = bytes_of_u32 (ucast w) @ bytes_of_u32 (ucast (drop_bit 32 w))"

definition u64_at :: "bytes \<Rightarrow> nat \<Rightarrow> u64" where
  "u64_at p off = ucast (u32_at p off) OR push_bit 32 (ucast (u32_at p (off + 4)))"

lemma u64_halves: "ucast (ucast w :: u32) OR push_bit 32 (ucast (ucast (drop_bit 32 w) :: u32)) = (w :: u64)"
proof (rule bit_word_eqI)
  fix n
  assume "n < LENGTH(64)"
  then consider "n < 32" | "32 \<le> n" "n < 64" by force
  then show "bit (ucast (ucast w :: u32) OR push_bit 32 (ucast (ucast (drop_bit 32 w) :: u32)) :: u64) n
      = bit w n"
    by cases (auto simp: bit_simps)
qed

section \<open>Reading what was written\<close>

text \<open>A field stands at the offset at which the bytes before it end.\<close>

lemma nth_after: "length xs = n \<Longrightarrow> (xs @ ys) ! (n + i) = ys ! i"
  by (simp add: nth_append)

lemma u16_at_append: "length xs = n \<Longrightarrow> u16_at (xs @ bytes_of_u16 w @ ys) n = w"
  by (simp add: u16_at_def nth_append) (simp add: bytes_of_u16_def)

lemma u32_at_append: "length xs = n \<Longrightarrow> u32_at (xs @ bytes_of_u32 w @ ys) n = w"
  by (simp add: u32_at_def nth_append) (simp add: bytes_of_u32_def)

lemma mac_at_append: "length xs = n \<Longrightarrow> mac_at (xs @ mac_bytes m @ ys) n = m"
  by (cases m) (simp add: mac_at_def nth_append eval_nat_numeral)

lemma length_bytes_of_u64 [simp]: "length (bytes_of_u64 w) = 8"
  by (simp add: bytes_of_u64_def)

lemma u64_at_append:
  assumes "length xs = n"
  shows "u64_at (xs @ bytes_of_u64 w @ ys) n = w"
proof -
  have "u32_at (xs @ bytes_of_u64 w @ ys) n = ucast w"
    using u32_at_append [OF assms, of "ucast w"] by (simp add: bytes_of_u64_def)
  moreover have "u32_at (xs @ bytes_of_u64 w @ ys) (n + 4) = ucast (drop_bit 32 w)"
    using u32_at_append [of "xs @ bytes_of_u32 (ucast w)" "n + 4" "ucast (drop_bit 32 w)" ys] assms
    by (simp add: bytes_of_u64_def)
  ultimately show ?thesis
    by (simp add: u64_at_def u64_halves)
qed

section \<open>The structures\<close>

definition nic_info_bytes :: "nic_info \<Rightarrow> bytes" where
  "nic_info_bytes i = bytes_of_u32 (nic_ip i) @ bytes_of_u32 (nic_ifindex i)"

definition nic_info_of :: "bytes \<Rightarrow> nic_info" where
  "nic_info_of bs = \<lparr>nic_ip = u32_at bs 0, nic_ifindex = u32_at bs 4\<rparr>"

definition connection_tuple_bytes :: "connection_tuple \<Rightarrow> bytes" where
  "connection_tuple_bytes t = bytes_of_u32 (src_addr t) @ bytes_of_u32 (dst_addr t)
     @ bytes_of_u16 (src_port t) @ bytes_of_u16 (dst_port t)"

definition connection_tuple_of :: "bytes \<Rightarrow> connection_tuple" where
  "connection_tuple_of bs = \<lparr>src_addr = u32_at bs 0, dst_addr = u32_at bs 4,
     src_port = u16_at bs 8, dst_port = u16_at bs 10\<rparr>"

definition container_info_bytes :: "container_info \<Rightarrow> bytes" where
  "container_info_bytes c = bytes_of_u32 (container_ip c) @ mac_bytes (container_mac c)
     @ bytes_of_u16 (container_port c) @ bytes_of_u32 (ci_ifindex c)"

definition container_info_of :: "bytes \<Rightarrow> container_info" where
  "container_info_of bs = \<lparr>container_ip = u32_at bs 0, container_mac = mac_at bs 4,
     container_port = u16_at bs 10, ci_ifindex = u32_at bs 12\<rparr>"

definition nat_data_bytes :: "bytes \<Rightarrow> nat_data \<Rightarrow> bytes" where
  "nat_data_bytes pad n = bytes_of_u32 (nat_addr n) @ bytes_of_u16 (nat_port n)
     @ mac_bytes (fib_smac (nat_fib_macs n)) @ mac_bytes (fib_dmac (nat_fib_macs n)) @ pad
     @ bytes_of_u32 (devmap_key n)"

definition nat_data_of :: "bytes \<Rightarrow> nat_data" where
  "nat_data_of bs = \<lparr>nat_addr = u32_at bs 0, nat_port = u16_at bs 4,
     nat_fib_macs = \<lparr>fib_smac = mac_at bs 6, fib_dmac = mac_at bs 12\<rparr>, devmap_key = u32_at bs 20\<rparr>"

definition direction_byte :: "direction \<Rightarrow> u8" where
  "direction_byte d = (case d of Original \<Rightarrow> 0 | Reply \<Rightarrow> 1)"

definition direction_of :: "u8 \<Rightarrow> direction option" where
  "direction_of b = (if b = 0 then Some Original else if b = 1 then Some Reply else None)"

definition bool_of :: "u8 \<Rightarrow> bool option" where
  "bool_of b = (if b = 0 then Some False else if b = 1 then Some True else None)"

definition flow_state_bytes :: "bytes \<Rightarrow> bytes \<Rightarrow> flow_state \<Rightarrow> bytes" where
  "flow_state_bytes pad pad' st = nat_data_bytes pad (flow_nat st)
     @ [direction_byte (flow_direction st), if seen_reply st then 1 else 0] @ pad'
     @ bytes_of_u64 (timeout st)"

definition flow_state_of :: "bytes \<Rightarrow> flow_state option" where
  "flow_state_of bs = do {
     d \<leftarrow> direction_of (bs ! 24);
     seen \<leftarrow> bool_of (bs ! 25);
     Some \<lparr>flow_nat = nat_data_of bs, flow_direction = d, seen_reply = seen, timeout = u64_at bs 32\<rparr>
   }"

section \<open>Round trips\<close>

lemma nic_info_roundtrip: "nic_info_of (nic_info_bytes i) = i"
  using u32_at_append [of "[]" 0 "nic_ip i"]
    u32_at_append [of "bytes_of_u32 (nic_ip i)" 4 "nic_ifindex i" "[]"]
  by (simp add: nic_info_of_def nic_info_bytes_def)

lemma connection_tuple_roundtrip: "connection_tuple_of (connection_tuple_bytes t) = t"
  using u32_at_append [of "[]" 0 "src_addr t"]
    u32_at_append [of "bytes_of_u32 (src_addr t)" 4 "dst_addr t"]
    u16_at_append [of "bytes_of_u32 (src_addr t) @ bytes_of_u32 (dst_addr t)" 8 "src_port t"]
    u16_at_append [of "bytes_of_u32 (src_addr t) @ bytes_of_u32 (dst_addr t)
      @ bytes_of_u16 (src_port t)" 10 "dst_port t" "[]"]
  by (simp add: connection_tuple_of_def connection_tuple_bytes_def)

lemma container_info_roundtrip: "container_info_of (container_info_bytes c) = c"
  using u32_at_append [of "[]" 0 "container_ip c"]
    mac_at_append [of "bytes_of_u32 (container_ip c)" 4 "container_mac c"]
    u16_at_append [of "bytes_of_u32 (container_ip c) @ mac_bytes (container_mac c)" 10 "container_port c"]
    u32_at_append [of "bytes_of_u32 (container_ip c) @ mac_bytes (container_mac c)
      @ bytes_of_u16 (container_port c)" 12 "ci_ifindex c" "[]"]
  by (simp add: container_info_of_def container_info_bytes_def)

lemma nat_data_roundtrip: "length pad = 2 \<Longrightarrow> nat_data_of (nat_data_bytes pad n @ rest) = n"
  using u32_at_append [of "[]" 0 "nat_addr n"]
    u16_at_append [of "bytes_of_u32 (nat_addr n)" 4 "nat_port n"]
    mac_at_append [of "bytes_of_u32 (nat_addr n) @ bytes_of_u16 (nat_port n)" 6
      "fib_smac (nat_fib_macs n)"]
    mac_at_append [of "bytes_of_u32 (nat_addr n) @ bytes_of_u16 (nat_port n)
      @ mac_bytes (fib_smac (nat_fib_macs n))" 12 "fib_dmac (nat_fib_macs n)"]
    u32_at_append [of "bytes_of_u32 (nat_addr n) @ bytes_of_u16 (nat_port n)
      @ mac_bytes (fib_smac (nat_fib_macs n)) @ mac_bytes (fib_dmac (nat_fib_macs n)) @ pad" 20
      "devmap_key n"]
  by (simp add: nat_data_of_def nat_data_bytes_def)

lemma length_nat_data_bytes: "length pad = 2 \<Longrightarrow> length (nat_data_bytes pad n) = 24"
  by (simp add: nat_data_bytes_def)

lemma enum_roundtrip [simp]:
  "direction_of (direction_byte d) = Some d" "bool_of (if b then 1 else 0) = Some b"
  by (simp_all add: direction_of_def direction_byte_def bool_of_def split: direction.split)

lemma flow_state_roundtrip:
  assumes "length pad = 2" "length pad' = 6"
  shows "flow_state_of (flow_state_bytes pad pad' st) = Some st"
proof -
  let ?nat = "nat_data_bytes pad (flow_nat st)"
  have "flow_state_bytes pad pad' st ! 24 = direction_byte (flow_direction st)"
    "flow_state_bytes pad pad' st ! 25 = (if seen_reply st then 1 else 0)"
    using length_nat_data_bytes [OF assms(1), of "flow_nat st"]
    by (simp_all add: flow_state_bytes_def nth_append)
  moreover have "u64_at (flow_state_bytes pad pad' st) 32 = timeout st"
    using u64_at_append [of "?nat @ [direction_byte (flow_direction st),
        if seen_reply st then 1 else 0] @ pad'" 32 "timeout st" "[]"]
      length_nat_data_bytes [OF assms(1), of "flow_nat st"] assms(2)
    by (simp add: flow_state_bytes_def)
  moreover have "nat_data_of (flow_state_bytes pad pad' st) = flow_nat st"
    using nat_data_roundtrip [OF assms(1)] by (simp add: flow_state_bytes_def)
  ultimately show ?thesis
    by (simp add: flow_state_of_def)
qed


end
