(* ===== verification/Spec2Isabelle.thy ===== *)
theory Spec2Isabelle
  imports Datapath_Properties Flow_Properties Flow_Table_Spec Redirect_Map System_Simulation
    Concurrent_Creation Concurrent_Delivery Daemon_Main Map_Layout
begin

text \<open>
  Verification of \<open>xdp-natd\<close>, a daemon that translates UDP traffic of Docker containers in XDP
  programs. Paths below are relative to the repository.

  The program. The kernel side (\<open>xdp-natd-ebpf\<close>) is one routine, \<open>try_xdp_redirect\<close>, run by two
  programs: \<open>xdp_redirect_containers\<close> on the host ends of the containers' interfaces (source
  translation) and \<open>xdp_redirect_host\<close> on the NIC (destination translation). It looks a packet's
  addresses and ports up in the conntrack map, creates a flow of two entries when it has none, one
  for each direction, rewrites address, port, MACs and checksums in place, and redirects the packet
  through a device map. The user side (\<open>xdp-natd\<close>) finds the containers, fills the device map,
  attaches the programs, removes expired flows every 30 s, and serves an HTTP API that exposes
  container ports under host ports. The two sides share four BPF maps and the structures of
  \<open>xdp-natd-common\<close>: the API writes the exposure map that destination translation reads, the
  kernel programs write the conntrack map that the collector empties.

  Theories, in the order in which they depend on each other.
  \<^item> \<open>Natd_Prelude\<close>: machine integers, the packet as a byte list, loads and stores that fail outside
    it, byte order. The host is little-endian, as the eBPF target is.
  \<^item> \<open>Natd_Common\<close>: the structures of \<open>xdp-natd-common/src/lib.rs\<close>, \<open>Flags\<close> and \<open>AF_INET\<close>.
  \<^item> \<open>Bpf_Maps\<close>: kernel maps as a record of operations; the locales \<open>bpf_hash\<close> and
    \<open>bpf_hash_bounded\<close> state their documented behaviour, and a table with a capacity satisfies them
    at the sizes \<open>main.rs\<close> declares.
  \<^item> \<open>Checksum\<close>: \<open>csum_add\<close>, \<open>csum_fold\<close>, \<open>csum_replace4\<close> of \<open>helpers.rs\<close>; their closed form modulo
    65535, and the checksum of RFC 1071 as the specification.
  \<^item> \<open>Nat_Helpers\<close>: the other functions of \<open>helpers.rs\<close>. The locale \<open>address_rewriter\<close> is what
    \<open>apply_ip_snat\<close> and \<open>apply_ip_dnat\<close> share: fields, IPv4 and UDP checksums after a rewrite.
  \<^item> \<open>Conntrack\<close>: \<open>process_udp_snat\<close> and \<open>process_udp_dnat\<close> of the eBPF \<open>main.rs\<close>, with the timeout
    refresh both contain as \<open>refresh_flow\<close>; locales \<open>conntrack_map\<close>, \<open>conntrack_store\<close> (room for new
    entries) and \<open>nat_handler\<close> (what the caller needs of either handler).
  \<^item> \<open>Xdp_Datapath\<close>: \<open>try_xdp_redirect\<close> and the entry points, every branch of a run as a lemma.
  \<^item> \<open>Sample_Traffic\<close>, \<open>Datapath_Properties\<close>, \<open>Flow_Properties\<close>: concrete packets, and the
    properties of the data path.
  \<^item> \<open>Conntrack_Gc\<close>: the collector task of \<open>setup_pnic\<close> in \<open>xdp-natd/src/main.rs\<close> and \<open>get_nsecs\<close>.
  \<^item> \<open>Text_Std\<close>: the string functions of the Rust standard library in use, with round trips.
  \<^item> \<open>Port_Allocator\<close>: \<open>port_allocator.rs\<close>, and the locale \<open>port_pool\<close> its client relies on.
  \<^item> \<open>Control_Plane\<close>: the handlers of \<open>api/expose.rs\<close> with the state of \<open>api/state.rs\<close> and the errors
    of \<open>api/mod.rs\<close>; the locale \<open>nat_firewall\<close> is the documented behaviour of \<open>iptables\<close>, and
    \<open>control_plane\<close> joins it with the exposure map.
  \<^item> \<open>Exposure_Spec\<close>: the abstract specification of the control plane as a step relation, and the
    refinement. \<open>Control_Properties\<close>: the properties of the handlers and of a running server.
  \<^item> \<open>Config_Env\<close>, \<open>Api_Server\<close>, \<open>Startup\<close>, \<open>Startup_Properties\<close>: configuration, routes, and the
    daemon's start and end in \<open>main.rs\<close>.
  \<^item> \<open>Redirect_Map\<close>: the locale \<open>device_map\<close> is the documented behaviour of \<open>bpf_redirect_map\<close>; what
    a run's verdict says, and that the map the start fills has a target for a container's traffic.
  \<^item> \<open>Daemon_Main\<close>: \<open>main\<close> from the configuration to the exit status, with \<open>telemetry.rs\<close>, the
    server task of \<open>api/server.rs\<close>, signals and panics.
  \<^item> \<open>Transitions\<close>: step relations in general, with the locales \<open>preserved\<close> (an invariant) and
    \<open>simulation\<close> that the models of the running system instantiate.
  \<^item> \<open>Natd_System\<close>: all of it running together, as a step relation with the invariant of the flows.
  \<^item> \<open>Concurrent_Runs\<close>: the same programs cut at their accesses to the conntrack map (\<open>advance\<close>), the
    table \<open>nat_spec\<close> both the program and the uninterrupted steps equal, and termination of every run.
    \<open>Concurrent_Creation\<close>: one flow created by several CPUs. \<open>Concurrent_System\<close>: all CPUs and the
    collector interleaved at those accesses, with the invariant of the flows and the liveness of the
    collector. \<open>System_Simulation\<close>: it has every behaviour of \<open>Natd_System\<close>.
  \<^item> \<open>Flow_Table_Spec\<close>: the abstract specification of connection tracking, a partial function with a
    capacity, which the data path and the collector refine.
  \<^item> \<open>Delivery\<close>, \<open>Concurrent_Delivery\<close>: the conntrack map with a history of what containers sent and
    what was exposed, and the property that nothing else reaches a container, for whole runs and for
    interleaved ones.
  \<^item> \<open>Map_Layout\<close>: the bytes of map keys and values, the \<open>Pod\<close> types of \<open>xdp-natd-common/src/lib.rs\<close>.
  \<^item> This theory: properties from the API to the packet, and the invariant of the system.

  Conventions. A packet run returns \<open>None\<close> for an access outside the packet, and otherwise the
  Rust result (\<open>Inl ()\<close> for \<open>Err(())\<close>) with the packet and the map; \<open>redirect_memory_safe\<close> shows
  that \<open>None\<close> and \<open>Inl\<close> never occur. Locks, threads and subprocesses are explicit: an API handler
  holds the write lock throughout and is one function, a removal of the collector is a step of its
  own, the threads of the start are a list in the order in which they take the lock. There is no
  fuel: every loop of the program is over a finite list. The collector's endless loop is the
  repetition of \<open>gc_starts\<close> and \<open>gc_removes\<close> steps.

  Concurrency. In \<open>Natd_System\<close> a run of a program is one step. In \<open>Concurrent_System\<close> it is up to
  four: any number of CPUs, the collector's removals and the clock come between the lookup, the
  writes through pointers and the inserts, and a write through a pointer to a deleted entry may hit
  whatever entry has its memory by then. The two fields such a write sets are set together.

  Parameters. The kernel's FIB helper, redirects and map operations, \<open>iptables\<close>, Docker, the
  interface list, MAC parsing, program loading, the reserved-ports file, the \<open>config\<close> and tracing
  crates, sockets and signals are arguments of the definitions that use them. Where a property relies
  on them, the reliance is a locale above.

  Bounds. Timeouts assume \<open>clock_ok\<close>: less than 584 years of uptime. Capacities are those the code
  declares: 65536 conntrack entries, 256 exposed ports, 256 redirect targets.

  Not modelled. The collector's iteration while programs run: a collection reads one state, its
  removals are separate. Reads of a value while the kernel is copying another into it. Debug output
  and request spans, the loop that flushes the kernel log, build scripts, matching and decoding of
  HTTP requests by \<open>axum\<close>, reading and merging the configuration files by \<open>config\<close>, and the
  benchmark containers.
\<close>

section \<open>Properties that span components\<close>

lemma exposed_response_inject: "exposed_response a p = exposed_response a q \<longleftrightarrow> p = q"
  by (simp add: exposed_response_def)



text \<open>
  C29: After a port was unexposed, a packet to it that belongs to no tracked flow goes to the host's
  own stack and creates no flow; packets of flows that are still tracked go on to the container
  the flow was created for, whatever the port is used for since.
\<close>

theorem unexposed_port_closed:
  assumes "control_plane X H rules" "unexpose_port X H (pkt_dport p) st w = (Inr resp, st', w')"
    and "ke_expose E = bm_lookup X (expose_map st')"
  shows "(bm_lookup K ct (flow_key p) = None \<longrightarrow>
        try_xdp_redirect K E Dnat p ct = Some (Inr XDP_PASS, p, ct))
     \<and> (\<forall>flow. nat_candidate p \<and> bm_lookup K ct (flow_key p) = Some flow \<longrightarrow>
        (\<exists>ct'. try_xdp_redirect K E Dnat p ct =
           Some (Inr (redirect_code E (devmap_key (flow_nat flow))),
             translated Dnat (flow_nat flow) p, ct')))"
proof -
  have "ke_expose E (pkt_dport p) = None"
    using assms(2,3)
    by (cases rule: control_plane.unexpose_cases [OF assms(1), of st "pkt_dport p" w]) auto
  then show ?thesis
    by (auto simp: try_dnat_pass try_hit)
qed

theorem unexposed_port_closed_witness:
  "\<exists>st' w'. unexpose_port expose_ops chain_host (pkt_dport in_packet) sample_exposed
       [rule_spec 10000 2886991892 11111] = (Inr (unexposed_response 10000), st', w')
     \<and> try_xdp_redirect sample_ops
         ((sample_env 5)\<lparr>ke_expose := bm_lookup expose_ops (expose_map st')\<rparr>) Dnat in_packet [] =
         Some (Inr XDP_PASS, in_packet, [])"
proof -
  obtain st' w' where
    run: "unexpose_port expose_ops chain_host (pkt_dport in_packet) sample_exposed
      [rule_spec 10000 2886991892 11111] = (Inr (unexposed_response 10000), st', w')"
    using sample_unexpose by auto
  from unexposed_port_closed [OF sample_control run, of
      "(sample_env 5)\<lparr>ke_expose := bm_lookup expose_ops (expose_map st')\<rparr>" sample_ops "[]"] run
  show ?thesis by (simp add: sample_lookup)
qed

text \<open>
  C2: Invariant of the running system, under any interleaving of packets, requests, collector
  removals and the passage of time: every tracked flow leaves through the NIC's key or through the
  address it translates to, its timeout is at most 180 s ahead of the clock, and the control
  plane keeps its invariant.
\<close>

theorem system_invariant:
  assumes "conntrack_map K" "control_plane X H rules" "system_reach K X H pnic s0 s"
    and "server_start X lower upper (sy_server s0)" "clock_ok (sy_time s0)"
    and "bm_lookup K (sy_conntrack s0) = Map.empty"
  shows "(\<forall>k st. bm_lookup K (sy_conntrack s) k = Some st \<longrightarrow>
        (devmap_key (flow_nat st) = 0 \<or> devmap_key (flow_nat st) = nat_addr (flow_nat st))
        \<and> unat (timeout st) \<le> unat (sy_time s) + 180000000000)
     \<and> pool_ok (dom (bm_lookup X (expose_map (sy_server s)))) (ports (allocator (sy_server s)))
         {lower..upper}
     \<and> mset (rules (sy_firewall s)) = mset (rules (sy_firewall s0))
         + exposure_rules (bm_lookup X (expose_map (sy_server s)))"
proof -
  have "clock_ok (sy_time s) \<and> flows_ok (sy_time s) (bm_lookup K (sy_conntrack s))"
    by (rule conntrack_map.reach_flows_ok [OF assms(1,3)]) (use assms(5,6) in \<open>simp add: flows_ok_def\<close>)
  moreover note control_plane.serves_inv(1,3) [OF assms(2) reach_serves [OF assms(3)] assms(4)]
  ultimately show ?thesis
    by (auto simp: flows_ok_def flow_ok_def nat_wf_def)
qed

definition sample_system ::
    "((connection_tuple \<times> flow_state) list, (u16 \<times> container_info) list, string list list) system" where
  "sample_system = \<lparr>sy_conntrack = [], sy_server = sample_server, sy_firewall = [], sy_time = 5,
     sy_pending = []\<rparr>"

theorem system_invariant_witness:
  "\<exists>ct. system_reach sample_ops expose_ops chain_host (Some sample_nic) sample_system
       (sample_system\<lparr>sy_conntrack := ct\<rparr>)
     \<and> (\<forall>k st. bm_lookup sample_ops ct k = Some st \<longrightarrow> unat (timeout st) \<le> 180000000005)"
proof -
  obtain code q ct where
    "xdp_redirect_containers sample_ops (packet_env expose_ops (Some sample_nic) sample_fib 2
      (\<lambda>_ _. Inr XDP_REDIRECT) sample_system) out_packet [] = Some (code, q, ct)"
    using entry_points_run [of sample_ops "packet_env expose_ops (Some sample_nic) sample_fib 2
      (\<lambda>_ _. Inr XDP_REDIRECT) sample_system" out_packet "[]"] by auto
  then have "system_step sample_ops expose_ops chain_host (Some sample_nic) sample_system
      (sample_system\<lparr>sy_conntrack := ct\<rparr>)"
    by (intro container_packet) (simp add: sample_system_def)
  then have reach: "system_reach sample_ops expose_ops chain_host (Some sample_nic)
      sample_system (sample_system\<lparr>sy_conntrack := ct\<rparr>)"
    by (rule reach_one)
  have "server_start expose_ops 10000 12000 (sy_server sample_system)" "clock_ok (sy_time sample_system)"
      "bm_lookup sample_ops (sy_conntrack sample_system) = Map.empty"
    using sample_start by (simp_all add: sample_system_def clock_ok_def sample_lookup)
  from system_invariant [OF sample_map sample_control reach this] reach
  show ?thesis
    by (auto simp: sample_system_def)
qed

end
